theory Spec2Isabelle
  imports Complex_Main
begin

section \<open>JavaScript strings and values\<close>

text \<open>
  A JavaScript string is modelled as a \<open>string\<close>: one \<open>char\<close> per code unit, so that
  \<open>length\<close>, \<open>take\<close> and \<open>drop\<close> are \<open>.length\<close> and \<open>.substring\<close>.
  A property of a stored document that the code reads is a \<open>field\<close>: either absent
  (\<open>undefined\<close>, \<open>None\<close>) or a string.
\<close>

type_synonym field = "string option"

text \<open>A field inside a template literal: \<open>`${x}`\<close> prints \<open>undefined\<close> for an absent one.\<close>

definition template :: "field \<Rightarrow> string" where
  "template f = (case f of None \<Rightarrow> ''undefined'' | Some s \<Rightarrow> s)"

text \<open>Decimal printing of a non-negative integer, as \<open>`${index + 1}`\<close> does.\<close>

fun string_of_nat :: "nat \<Rightarrow> string" where
  "string_of_nat n =
     (if n < 10 then [''0123456789'' ! n]
      else string_of_nat (n div 10) @ [''0123456789'' ! (n mod 10)])"

declare string_of_nat.simps [simp del]

text \<open>
  \<open>s.indexOf(pat)\<close>: the least position at which \<open>pat\<close> occurs in \<open>s\<close>; \<open>None\<close> stands
  for the result \<open>-1\<close>.
\<close>

fun indexOf :: "string \<Rightarrow> string \<Rightarrow> nat option" where
  "indexOf [] pat = (if pat = [] then Some 0 else None)"
| "indexOf (c # cs) pat =
     (if take (length pat) (c # cs) = pat then Some 0
      else map_option Suc (indexOf cs pat))"

text \<open>\<open>s.substring(a, b)\<close> and \<open>s.substring(a)\<close> for \<open>a \<le> b\<close>.\<close>

definition substring :: "string \<Rightarrow> nat \<Rightarrow> nat \<Rightarrow> string" where
  "substring s a b = take (b - a) (drop a s)"

definition substring_from :: "string \<Rightarrow> nat \<Rightarrow> string" where
  "substring_from s a = drop a s"

section \<open>utilities/kag-processor.js\<close>

record example =
  input :: field
  "output" :: field

text \<open>
  \<open>formatKagExamples(examples)\<close>. The argument is \<open>None\<close> for \<open>null\<close> or \<open>undefined\<close>.
  The \<open>forEach\<close> callback appends three lines to \<open>formatted\<close> for the example at
  position \<open>index\<close>.
\<close>

definition format_step :: "nat \<times> example \<Rightarrow> string \<Rightarrow> string" where
  "format_step = (\<lambda>(index, example) formatted.
     formatted
       @ (''EXAMPLE '' @ string_of_nat (index + 1) @ '':\<newline>'')
       @ (''User: '' @ template (input example) @ ''\<newline>'')
       @ (''Assistant: '' @ template (output example) @ ''\<newline>\<newline>''))"

definition formatKagExamples :: "example list option \<Rightarrow> string" where
  "formatKagExamples examples =
     (case examples of
        None \<Rightarrow> ''''
      | Some [] \<Rightarrow> ''''
      | Some es \<Rightarrow>
          fold format_step (enumerate 0 es) ''\<newline>\<newline>## RELEVANT EXAMPLES:\<newline>\<newline>''
            @ ''## END OF EXAMPLES\<newline>\<newline>'')"

text \<open>\<open>augmentPromptWithKagExamples(systemPrompt, examples)\<close>.\<close>

definition augmentPromptWithKagExamples :: "string \<Rightarrow> example list option \<Rightarrow> string" where
  "augmentPromptWithKagExamples systemPrompt examples =
     (case examples of
        None \<Rightarrow> systemPrompt
      | Some [] \<Rightarrow> systemPrompt
      | Some es \<Rightarrow>
          (let formattedExamples = formatKagExamples examples in
           case indexOf systemPrompt ''\<newline>\<newline>'' of
             Some firstParagraphEnd \<Rightarrow>
               substring systemPrompt 0 (firstParagraphEnd + 2)
                 @ formattedExamples
                 @ substring_from systemPrompt (firstParagraphEnd + 2)
           | None \<Rightarrow> systemPrompt @ ''\<newline>\<newline>'' @ formattedExamples))"

section \<open>Requests, the environment, exceptions and observable events\<close>

text \<open>
  \<open>process.env\<close>: a variable is absent or a string. The handlers read only these four.
\<close>

record env =
  FIREWORKS_API_KEY :: field
  MONGODB_URI :: field
  MONGODB_DB_NAME :: field
  MONGODB_COLLECTION :: field

text \<open>Truthiness of a field, and \<open>a || b\<close>: the empty string is falsy.\<close>

definition truthy :: "field \<Rightarrow> bool" where
  "truthy f = (case f of None \<Rightarrow> False | Some s \<Rightarrow> s \<noteq> [])"

definition or_field :: "field \<Rightarrow> field \<Rightarrow> field" where
  "or_field a b = (if truthy a then a else b)"

definition or_default :: "field \<Rightarrow> string \<Rightarrow> string" where
  "or_default a d = (case a of None \<Rightarrow> d | Some s \<Rightarrow> if s = [] then d else s)"

text \<open>A thrown value. The handlers read nothing of it but \<open>.message\<close>.\<close>

datatype exn = Error (message: string)

text \<open>
  A JavaScript value, as far as the handlers tell values apart: \<open>undefined\<close> (also for
  a property that is absent), \<open>null\<close>, a boolean, a number, \<open>NaN\<close>, a string, or an object
  or array. \<open>js_truthy\<close> is what \<open>!v\<close> and \<open>v || d\<close> test.
\<close>

datatype jsval = JUndefined | JNull | JBool bool | JNumber real | JNaN | JString string | JObject

definition js_truthy :: "jsval \<Rightarrow> bool" where
  "js_truthy v =
     (case v of
        JUndefined \<Rightarrow> False
      | JNull \<Rightarrow> False
      | JBool b \<Rightarrow> b
      | JNumber x \<Rightarrow> x \<noteq> 0
      | JNaN \<Rightarrow> False
      | JString s \<Rightarrow> s \<noteq> []
      | JObject \<Rightarrow> True)"

text \<open>
  \<open>req.body\<close> is either a string, which the handler gives to \<open>JSON.parse\<close>, or a value
  parsed already. What the handler holds after its parsing statement is one of: a
  \<open>SyntaxError\<close> with its message (the string was not JSON), \<open>null\<close> or \<open>undefined\<close>, or
  an object with the properties that the handler reads.

  For api/rag.js these are \<open>query\<close>, \<open>collectionName\<close> and \<open>modelName\<close>, strings when
  present. For the KAG endpoints they are \<open>query\<close> and \<open>maxResults\<close>, of any kind, and
  \<open>collectionName\<close> and \<open>systemPrompt\<close>, strings when present.
\<close>

record params =
  query :: field
  collectionName :: field
  modelName :: field

record kag_params =
  kag_query :: jsval
  kag_collectionName :: field
  maxResults :: jsval
  systemPrompt :: field

datatype 'p req_body = InvalidJson string | Nullish | Fields 'p

record 'p http_request =
  "method" :: string
  body :: "'p req_body"

type_synonym request = "params http_request"

type_synonym kag_request = "kag_params http_request"

text \<open>
  The outcome of one \<open>fetch\<close> of the model provider: the call rejects; or the response
  is not \<open>ok\<close> and \<open>response.text()\<close> gives a text or rejects; or it is \<open>ok\<close> and
  \<open>response.json()\<close> gives a value or rejects.
\<close>

datatype 'a fetched = Rejected exn | NotOk "exn + string" | Ok "exn + 'a"

text \<open>A document of the vector search result, after the \<open>$project\<close> stage.\<close>

record doc =
  instruction :: field
  "context" :: field
  response :: field
  score :: real

text \<open>An entry of \<open>sources\<close> in the answer of the RAG endpoint.\<close>

record source =
  source_instruction :: field
  source_response :: string
  source_context :: field
  source_score :: real

text \<open>
  The aggregation pipeline of the RAG endpoint: a \<open>$search\<close> stage with \<open>knnBeta\<close>
  (index, vector, path, k) and a \<open>$project\<close> stage. The vector is \<open>None\<close> when the
  handler passes \<open>undefined\<close>.
\<close>

datatype projection = Exclude | Include | Meta string

datatype knn = KnnBeta string "real list option" string nat

type_synonym pipeline = "knn \<times> (string \<times> projection) list"

text \<open>
  The text query of the KAG endpoints: \<open>find({$text: {$search: q}}, {score: m})\<close>
  followed by \<open>.sort({score: m})\<close> and \<open>.limit(n)\<close>.
\<close>

datatype text_find = TextFind string projection projection jsval

record chat_message =
  role :: string
  content :: string

text \<open>The JSON bodies that the handlers send.\<close>

datatype payload =
    NoContent
  | ErrorJson string "string option"
  | ErrorMessageJson string string
  | AnswerJson field "source list" bool "string option"
  | StatusJson string string "int option" string "string option"
  | ExamplesJson "example list"

text \<open>
  What a run of a handler does to the outside, in order: the calls of the database
  driver and of the model provider, the lines written with \<open>console.error\<close>, and the
  calls on \<open>res\<close>. \<open>Respond status body\<close> is \<open>res.status(status).json(body)\<close> (or
  \<open>.end()\<close> for \<open>NoContent\<close>); \<open>Write\<close>, \<open>WriteError\<close> and \<open>End\<close> are \<open>res.write\<close> of a
  text, \<open>res.write\<close> of the frame for an error message, and \<open>res.end\<close>.
  Response headers and the lines of \<open>console.log\<close> are left out: no property below
  reads them.
\<close>

datatype event =
    NewMongoClient string
  | ClientConnect
  | ClientClose
  | CollectionStats string
  | Ping
  | EmbeddingRequest string string
  | Aggregate string pipeline
  | Find string text_find
  | ChatRequest "chat_message list"
  | ChatForward "params req_body"
  | ConsoleError string
  | Respond nat payload
  | Write string
  | WriteError string
  | End

section \<open>api/rag.js\<close>

subsection \<open>The connection cache\<close>

text \<open>
  A \<open>Db\<close> object is known by the client it came from and its database name. The
  module-level variables \<open>cachedDb\<close> and \<open>cachedClient\<close> are \<open>None\<close> for \<open>null\<close>.
\<close>

record db =
  db_client :: nat
  db_name :: string

record cache =
  cachedDb :: "db option"

record rag_cache = cache +
  cachedClient :: "nat option"

text \<open>
  What the driver does when a client is built and connected now: the constructor
  throws (a malformed URI), \<open>connect\<close> rejects, or the client with the given identity
  is connected.
\<close>

datatype mongo = BadUri exn | Unreachable exn | Reachable nat

text \<open>
  \<open>connectToDatabase(uri)\<close> runs in two parts, with \<open>await client.connect()\<close> between
  them; while a call waits there, other calls may run.

  \<open>connect_begin\<close> is the part before: the cached handle is returned when there is one,
  otherwise the client is built and \<open>connect\<close> is called. The result is \<open>Some r\<close> when
  the call is over (\<open>Inl\<close> for the exception of the constructor) and \<open>None\<close> when it
  waits. It is the same in api/rag.js, api/mongodb-status.js and api/kag.js.
\<close>

definition connect_begin :: "mongo \<Rightarrow> string \<Rightarrow> 'a cache_scheme \<Rightarrow> (exn + db) option \<times> event list" where
  "connect_begin m uri c =
     (case cachedDb c of
        Some d \<Rightarrow> (Some (Inr d), [])
      | None \<Rightarrow>
          (case m of
             BadUri err \<Rightarrow> (Some (Inl err), [NewMongoClient uri])
           | Unreachable err \<Rightarrow> (None, [NewMongoClient uri, ClientConnect])
           | Reachable client \<Rightarrow> (None, [NewMongoClient uri, ClientConnect])))"

text \<open>
  \<open>connect_resume\<close> is the part of api/rag.js after the wait, on the cache as it is at
  that moment: the \<open>catch\<close> when \<open>connect\<close> rejected, else the two assignments. (A call
  whose constructor threw does not come here.)
\<close>

definition connect_resume :: "env \<Rightarrow> mongo \<Rightarrow> rag_cache \<Rightarrow> (exn + db) \<times> event list \<times> rag_cache" where
  "connect_resume e m c =
     (case m of
        BadUri err \<Rightarrow> (Inl err, [], c)
      | Unreachable err \<Rightarrow>
          (Inl (Error (''Failed to connect to MongoDB: '' @ message err)),
           [ConsoleError (''MongoDB connection error: '' @ message err)],
           c)
      | Reachable client \<Rightarrow>
          (let d = \<lparr>db_client = client,
                    db_name = or_default (MONGODB_DB_NAME e) ''ragDatabase''\<rparr>
           in (Inr d, [], c\<lparr>cachedClient := Some client, cachedDb := Some d\<rparr>)))"

text \<open>
  A call during which no other call runs: the result, the events and the new cache.
  A handler's own call is taken so below: what the handler does and answers depends
  on the cache at the beginning of its call only.
\<close>

definition connectToDatabase :: "env \<Rightarrow> mongo \<Rightarrow> string \<Rightarrow> rag_cache \<Rightarrow> (exn + db) \<times> event list \<times> rag_cache" where
  "connectToDatabase e m uri c =
     (case connect_begin m uri c of
        (Some r, evs) \<Rightarrow> (r, evs, c)
      | (None, evs) \<Rightarrow>
          (case connect_resume e m c of (r, evs', c') \<Rightarrow> (r, evs @ evs', c')))"

text \<open>
  Calls that overlap: a schedule is a list of parts, each the beginning of a new call
  or the resumption of a waiting one with the outcome of its \<open>connect\<close>. Every part
  gives what it returns, if the call is over with it, and its events.
\<close>

datatype act = Begin mongo string | Resume mongo

definition connect_act :: "env \<Rightarrow> act \<Rightarrow> rag_cache \<Rightarrow> ((exn + db) option \<times> event list) \<times> rag_cache" where
  "connect_act e a c =
     (case a of
        Begin m uri \<Rightarrow> (connect_begin m uri c, c)
      | Resume m \<Rightarrow>
          (case connect_resume e m c of (r, evs, c') \<Rightarrow> ((Some r, evs), c')))"

fun connect_acts :: "env \<Rightarrow> act list \<Rightarrow> rag_cache \<Rightarrow> ((exn + db) option \<times> event list) list \<times> rag_cache" where
  "connect_acts e [] c = ([], c)"
| "connect_acts e (a # rest) c =
     (case connect_act e a c of
        (r, c') \<Rightarrow> (case connect_acts e rest c' of (rs, c'') \<Rightarrow> (r # rs, c'')))"

subsection \<open>The handler\<close>

definition errorResponse :: "nat \<Rightarrow> string \<Rightarrow> field \<Rightarrow> event" where
  "errorResponse status msg details =
     Respond status (ErrorJson msg (if truthy details then details else None))"

record fallback_response =
  answer :: string
  sources :: "source list"
  fallback :: bool

definition generateFallbackResponse :: "string \<Rightarrow> fallback_response" where
  "generateFallbackResponse q =
     \<lparr>answer = ''I'm unable to search the knowledge base at the moment due to a database connection issue. Here's a general response to your query: \"'' @ q @ ''\".\<newline>\<newline>Please try again later or contact support if this issue persists.'',
      sources = [],
      fallback = True\<rparr>"

text \<open>
  What the outside does during one request: the driver on connecting, the collection
  on \<open>stats()\<close>, the embeddings endpoint, the collection on \<open>aggregate(...).toArray()\<close>,
  and the chat endpoint.
\<close>

record embedding_item =
  embedding :: "real list option"

type_synonym embedding_json = "embedding_item list option"

type_synonym completion_json = "field option list option"

record rag_world =
  mongo_now :: mongo
  stats_now :: "exn + unit"
  embedding_now :: "embedding_json fetched"
  search_now :: "exn + doc list"
  chat_now :: "completion_json fetched"

text \<open>
  Step 1, with its \<open>catch\<close>: connect and ask for the collection's statistics. The
  first component of the result is \<open>usedFallback\<close>.
\<close>

definition rag_step1 :: "env \<Rightarrow> rag_world \<Rightarrow> string \<Rightarrow> string \<Rightarrow> rag_cache \<Rightarrow> bool \<times> event list \<times> rag_cache" where
  "rag_step1 e w mongoDbUri collection c =
     (case connectToDatabase e (mongo_now w) mongoDbUri c of
        (Inl dbError, evs, c') \<Rightarrow>
          (True, evs @ [ConsoleError (''MongoDB connection error: '' @ message dbError)], c')
      | (Inr d, evs, c') \<Rightarrow>
          (case stats_now w of
             Inl dbError \<Rightarrow>
               (True,
                evs @ [CollectionStats collection,
                       ConsoleError (''MongoDB connection error: '' @ message dbError)],
                c')
           | Inr _ \<Rightarrow> (False, evs @ [CollectionStats collection], c')))"

text \<open>
  Step 2, the body of its \<open>try\<close>: \<open>embeddingData.data[0].embedding\<close> throws a
  \<open>TypeError\<close> when \<open>data\<close> is missing or empty, and is \<open>undefined\<close> when the first
  item has no \<open>embedding\<close>.
\<close>

definition first_embedding :: "embedding_json \<Rightarrow> exn + real list option" where
  "first_embedding d =
     (case d of
        None \<Rightarrow> Inl (Error ''Cannot read properties of undefined (reading '0')'')
      | Some [] \<Rightarrow> Inl (Error ''Cannot read properties of undefined (reading 'embedding')'')
      | Some (item # _) \<Rightarrow> Inr (embedding item))"

definition rag_step2 :: "embedding_json fetched \<Rightarrow> exn + real list option" where
  "rag_step2 r =
     (case r of
        Rejected err \<Rightarrow> Inl err
      | NotOk (Inl err) \<Rightarrow> Inl err
      | NotOk (Inr text) \<Rightarrow> Inl (Error (''Embedding API error: '' @ text))
      | Ok (Inl err) \<Rightarrow> Inl err
      | Ok (Inr embeddingData) \<Rightarrow> first_embedding embeddingData)"

text \<open>Step 3: the vector search, skipped when \<open>usedFallback\<close> is set.\<close>

definition vector_pipeline :: "real list option \<Rightarrow> pipeline" where
  "vector_pipeline queryEmbedding =
     (KnnBeta ''vector_index'' queryEmbedding ''embedding'' 5,
      [(''_id'', Exclude), (''instruction'', Include), (''context'', Include),
       (''response'', Include), (''score'', Meta ''searchScore'')])"

definition rag_step3 :: "rag_world \<Rightarrow> string \<Rightarrow> real list option \<Rightarrow> bool \<Rightarrow> doc list \<times> bool \<times> event list" where
  "rag_step3 w collection queryEmbedding usedFallback =
     (if \<not> usedFallback then
        (case search_now w of
           Inr queryResult \<Rightarrow>
             (queryResult, False, [Aggregate collection (vector_pipeline queryEmbedding)])
         | Inl searchError \<Rightarrow>
             ([], True,
              [Aggregate collection (vector_pipeline queryEmbedding),
               ConsoleError (''Vector search error: '' @ message searchError)]))
      else ([], usedFallback, []))"

text \<open>Steps 4 and 5: the context and the messages.\<close>

fun join :: "string \<Rightarrow> string list \<Rightarrow> string" where
  "join sep [] = []"
| "join sep [x] = x"
| "join sep (x # y # ys) = x @ sep @ join sep (y # ys)"

definition doc_context :: "doc \<Rightarrow> string" where
  "doc_context d =
     ''Question: '' @ template (instruction d) @ ''\<newline>Context: '' @ template (context d)
       @ ''\<newline>Answer: '' @ template (response d)"

definition rag_step4 :: "doc list \<Rightarrow> string" where
  "rag_step4 queryResult =
     (if length queryResult > 0 then join ''\<newline>\<newline>'' (map doc_context queryResult)
      else [])"

definition rag_step5 :: "bool \<Rightarrow> string \<Rightarrow> string \<Rightarrow> chat_message list" where
  "rag_step5 usedFallback ctx q =
     [\<lparr>role = ''system'',
       content = ''You are a helpful assistant. ''
         @ (if usedFallback
            then ''The knowledge base search is currently unavailable, so please answer based on your general knowledge.''
            else ''Use the following context to answer the user's question, but don't mention that you're using a context. If the context doesn't contain relevant information, just answer based on your knowledge.'')
         @ ''\<newline>\<newline>''
         @ (if usedFallback then [] else ''Context:\<newline>'' @ ctx)\<rparr>,
      \<lparr>role = ''user'', content = q\<rparr>]"

text \<open>
  The chat call: \<open>llmData.choices[0].message.content\<close> throws a \<open>TypeError\<close> when
  \<open>choices\<close> is missing or empty or the first choice has no \<open>message\<close>.
\<close>

definition first_content :: "completion_json \<Rightarrow> exn + field" where
  "first_content d =
     (case d of
        None \<Rightarrow> Inl (Error ''Cannot read properties of undefined (reading '0')'')
      | Some [] \<Rightarrow> Inl (Error ''Cannot read properties of undefined (reading 'message')'')
      | Some (None # _) \<Rightarrow> Inl (Error ''Cannot read properties of undefined (reading 'content')'')
      | Some (Some c # _) \<Rightarrow> Inr c)"

definition rag_chat :: "completion_json fetched \<Rightarrow> exn + field" where
  "rag_chat r =
     (case r of
        Rejected err \<Rightarrow> Inl err
      | NotOk (Inl err) \<Rightarrow> Inl err
      | NotOk (Inr text) \<Rightarrow> Inl (Error (''LLM API error: '' @ text))
      | Ok (Inl err) \<Rightarrow> Inl err
      | Ok (Inr llmData) \<Rightarrow> first_content llmData)"

text \<open>
  Step 6: one entry of \<open>sources\<close>. \<open>doc.response.substring\<close> throws a \<open>TypeError\<close> when
  the document has no \<open>response\<close>.
\<close>

definition to_source :: "doc \<Rightarrow> exn + source" where
  "to_source d =
     (case response d of
        None \<Rightarrow> Inl (Error ''Cannot read properties of undefined (reading 'substring')'')
      | Some r \<Rightarrow>
          Inr \<lparr>source_instruction = instruction d,
               source_response = substring r 0 200 @ (if length r > 200 then ''...'' else []),
               source_context = context d,
               source_score = score d\<rparr>)"

fun to_sources :: "doc list \<Rightarrow> exn + source list" where
  "to_sources [] = Inr []"
| "to_sources (d # ds) =
     (case to_source d of
        Inl err \<Rightarrow> Inl err
      | Inr s \<Rightarrow> (case to_sources ds of Inl err \<Rightarrow> Inl err | Inr ss \<Rightarrow> Inr (s # ss)))"

text \<open>The last \<open>try\<close>: the chat call and the answer, with its \<open>catch\<close>.\<close>

definition rag_step6 :: "rag_world \<Rightarrow> bool \<Rightarrow> doc list \<Rightarrow> string \<Rightarrow> event list" where
  "rag_step6 w usedFallback queryResult q =
     ChatRequest (rag_step5 usedFallback (rag_step4 queryResult) q) #
     (case rag_chat (chat_now w) of
        Inl llmError \<Rightarrow>
          [ConsoleError (''LLM API error: '' @ message llmError),
           errorResponse 500 (''LLM API error: '' @ message llmError) None]
      | Inr a \<Rightarrow>
          (case to_sources queryResult of
             Inl llmError \<Rightarrow>
               [ConsoleError (''LLM API error: '' @ message llmError),
                errorResponse 500 (''LLM API error: '' @ message llmError) None]
           | Inr ss \<Rightarrow> [Respond 200 (AnswerJson a ss usedFallback None)]))"

text \<open>The steps after the query has been read, for a truthy query \<open>q\<close>.\<close>

definition rag_steps :: "env \<Rightarrow> rag_world \<Rightarrow> string \<Rightarrow> params \<Rightarrow> string \<Rightarrow> rag_cache \<Rightarrow> event list \<times> rag_cache" where
  "rag_steps e w mongoDbUri p q c =
     (let collection =
            or_default (or_field (collectionName p) (MONGODB_COLLECTION e)) ''rag_collection'';
          model = or_default (modelName p) ''nomic-ai/nomic-embed-text-v1.5''
      in case rag_step1 e w mongoDbUri collection c of
        (usedFallback, evs1, c') \<Rightarrow>
          (case rag_step2 (embedding_now w) of
             Inl embeddingError \<Rightarrow>
               (let fallbackResponse = generateFallbackResponse q
                in (evs1 @
                    [EmbeddingRequest model q,
                     ConsoleError (''Failed to create embedding: '' @ message embeddingError),
                     Respond 200
                       (AnswerJson (Some (answer fallbackResponse)) (sources fallbackResponse)
                          True (Some (''Embedding failed: '' @ message embeddingError)))],
                    c'))
           | Inr queryEmbedding \<Rightarrow>
               (case rag_step3 w collection queryEmbedding usedFallback of
                  (queryResult, usedFallback', evs3) \<Rightarrow>
                    (evs1 @ [EmbeddingRequest model q] @ evs3
                       @ rag_step6 w usedFallback' queryResult q,
                     c'))))"

text \<open>
  The body of the outer \<open>try\<close>. \<open>Inl\<close> is an exception that reaches the outer
  \<open>catch\<close>, with the events before it: destructuring \<open>null\<close> or \<open>undefined\<close> throws.
\<close>

definition rag_try :: "env \<Rightarrow> rag_world \<Rightarrow> request \<Rightarrow> rag_cache \<Rightarrow> (event list \<times> exn + event list) \<times> rag_cache" where
  "rag_try e w req c =
     (if \<not> truthy (FIREWORKS_API_KEY e) \<or> \<not> truthy (MONGODB_URI e) then
        (Inr [ConsoleError ''Missing required environment variables'',
              errorResponse 500 ''Configuration error: Missing API keys or MongoDB URI'' None], c)
      else
        (case body req of
           InvalidJson parseError \<Rightarrow>
             (Inr [ConsoleError (''Failed to parse request body: '' @ parseError),
                   errorResponse 400 ''Invalid JSON in request body'' (Some parseError)], c)
         | Nullish \<Rightarrow>
             (Inl ([], Error ''Cannot destructure property 'query' of 'requestBody' as it is undefined.''), c)
         | Fields p \<Rightarrow>
             (if \<not> truthy (query p) then
                (Inr [errorResponse 400 ''Missing query parameter'' None], c)
              else
                (case rag_steps e w (or_default (MONGODB_URI e) []) p (or_default (query p) []) c of
                   (evs, c') \<Rightarrow> (Inr evs, c')))))"

text \<open>
  The exported handler of api/rag.js. The first component is \<open>Inl\<close> for an exception
  that leaves the handler.
\<close>

definition rag_handler :: "env \<Rightarrow> rag_world \<Rightarrow> request \<Rightarrow> rag_cache \<Rightarrow> (exn + unit) \<times> event list \<times> rag_cache" where
  "rag_handler e w req c =
     (if method req = ''OPTIONS'' then (Inr (), [Respond 204 NoContent], c)
      else if method req \<noteq> ''POST'' then
        (Inr (), [errorResponse 405 ''Method Not Allowed'' None], c)
      else
        (case rag_try e w req c of
           (Inr evs, c') \<Rightarrow> (Inr (), evs, c')
         | (Inl (evs, err), c') \<Rightarrow>
             (Inr (),
              evs @ [ConsoleError (''Function error: '' @ message err),
                     errorResponse 500 ''Internal Server Error'' (Some (message err))],
              c')))"

subsection \<open>Reading a trace\<close>

text \<open>The responses in a trace, and the steps of the pipeline in the order they happen.\<close>

fun is_Respond :: "event \<Rightarrow> bool" where
  "is_Respond (Respond _ _) = True"
| "is_Respond _ = False"

definition responses :: "event list \<Rightarrow> event list" where
  "responses tr = filter is_Respond tr"

datatype step = EmbeddingStep | SearchStep | ChatStep | ResponseStep

fun step_of :: "event \<Rightarrow> step option" where
  "step_of (EmbeddingRequest _ _) = Some EmbeddingStep"
| "step_of (Aggregate _ _) = Some SearchStep"
| "step_of (ChatRequest _) = Some ChatStep"
| "step_of (Respond _ _) = Some ResponseStep"
| "step_of _ = None"

definition pipeline_steps :: "event list \<Rightarrow> step list" where
  "pipeline_steps tr = List.map_filter step_of tr"

text \<open>The calls to the outside in a trace, each by the operation that is called.\<close>

datatype call =
  ConstructCall | ConnectCall | CloseCall | StatsCall | PingCall | EmbeddingCall
  | AggregateCall | FindCall | ChatCall

fun call_of :: "event \<Rightarrow> call option" where
  "call_of (NewMongoClient _) = Some ConstructCall"
| "call_of ClientConnect = Some ConnectCall"
| "call_of ClientClose = Some CloseCall"
| "call_of (CollectionStats _) = Some StatsCall"
| "call_of Ping = Some PingCall"
| "call_of (EmbeddingRequest _ _) = Some EmbeddingCall"
| "call_of (Aggregate _ _) = Some AggregateCall"
| "call_of (Find _ _) = Some FindCall"
| "call_of (ChatRequest _) = Some ChatCall"
| "call_of (ChatForward _) = Some ChatCall"
| "call_of _ = None"

definition calls :: "event list \<Rightarrow> call list" where
  "calls tr = List.map_filter call_of tr"

text \<open>The events of one run of the RAG handler.\<close>

definition rag_trace :: "env \<Rightarrow> rag_world \<Rightarrow> request \<Rightarrow> rag_cache \<Rightarrow> event list" where
  "rag_trace e w req c = fst (snd (rag_handler e w req c))"

section \<open>api/mongodb-status.js and api/kag.js: the connection cache\<close>

text \<open>
  \<open>connectToDatabase(uri)\<close> of api/mongodb-status.js and of api/kag.js, which differ
  in the database name only: no \<open>try\<close>, and \<open>cachedDb\<close> is the one variable. It begins
  as \<open>connect_begin\<close> says; \<open>connect_resume_plain\<close> is its part after the wait.
\<close>

definition connect_resume_plain :: "string \<Rightarrow> mongo \<Rightarrow> cache \<Rightarrow> (exn + db) \<times> event list \<times> cache" where
  "connect_resume_plain dbName m c =
     (case m of
        BadUri err \<Rightarrow> (Inl err, [], c)
      | Unreachable err \<Rightarrow> (Inl err, [], c)
      | Reachable client \<Rightarrow>
          (let d = \<lparr>db_client = client, db_name = dbName\<rparr>
           in (Inr d, [], c\<lparr>cachedDb := Some d\<rparr>)))"

definition connectToDatabase_plain :: "string \<Rightarrow> mongo \<Rightarrow> string \<Rightarrow> cache \<Rightarrow> (exn + db) \<times> event list \<times> cache" where
  "connectToDatabase_plain dbName m uri c =
     (case connect_begin m uri c of
        (Some r, evs) \<Rightarrow> (r, evs, c)
      | (None, evs) \<Rightarrow>
          (case connect_resume_plain dbName m c of (r, evs', c') \<Rightarrow> (r, evs @ evs', c')))"

definition connect_act_plain :: "string \<Rightarrow> act \<Rightarrow> cache \<Rightarrow> ((exn + db) option \<times> event list) \<times> cache" where
  "connect_act_plain dbName a c =
     (case a of
        Begin m uri \<Rightarrow> (connect_begin m uri c, c)
      | Resume m \<Rightarrow>
          (case connect_resume_plain dbName m c of (r, evs, c') \<Rightarrow> ((Some r, evs), c')))"

fun connect_acts_plain :: "string \<Rightarrow> act list \<Rightarrow> cache \<Rightarrow> ((exn + db) option \<times> event list) list \<times> cache" where
  "connect_acts_plain dbName [] c = ([], c)"
| "connect_acts_plain dbName (a # rest) c =
     (case connect_act_plain dbName a c of
        (r, c') \<Rightarrow> (case connect_acts_plain dbName rest c' of (rs, c'') \<Rightarrow> (r # rs, c'')))"

text \<open>
  A sequence of calls that do not overlap, each with what the driver would do at
  that moment and the URI it is given; the cache goes from one call to the next.
\<close>

fun connect_calls :: "env \<Rightarrow> (mongo \<times> string) list \<Rightarrow> rag_cache \<Rightarrow> ((exn + db) \<times> event list) list \<times> rag_cache" where
  "connect_calls e [] c = ([], c)"
| "connect_calls e ((m, uri) # rest) c =
     (case connectToDatabase e m uri c of
        (r, evs, c') \<Rightarrow>
          (case connect_calls e rest c' of (rs, c'') \<Rightarrow> ((r, evs) # rs, c'')))"

fun connect_calls_plain :: "string \<Rightarrow> (mongo \<times> string) list \<Rightarrow> cache \<Rightarrow> ((exn + db) \<times> event list) list \<times> cache" where
  "connect_calls_plain dbName [] c = ([], c)"
| "connect_calls_plain dbName ((m, uri) # rest) c =
     (case connectToDatabase_plain dbName m uri c of
        (r, evs, c') \<Rightarrow>
          (case connect_calls_plain dbName rest c' of (rs, c'') \<Rightarrow> ((r, evs) # rs, c'')))"

section \<open>api/mongodb-status.js\<close>

text \<open>
  What the outside does during one request: the driver, the \<open>ping\<close> command, the two
  readings of \<open>Date.now()\<close> and the text of \<open>new Date().toISOString()\<close>.
\<close>

record status_world =
  status_mongo :: mongo
  ping_now :: "exn + unit"
  startTime :: int
  endTime :: int
  time_now :: string

definition status_try :: "env \<Rightarrow> status_world \<Rightarrow> cache \<Rightarrow> (event list \<times> exn + event list) \<times> cache" where
  "status_try e w c =
     (if \<not> truthy (MONGODB_URI e) then
        (Inr [Respond 500
               (StatusJson ''error'' ''MongoDB URI not configured in environment variables''
                  None (time_now w) None)], c)
      else
        (case connectToDatabase_plain (or_default (MONGODB_DB_NAME e) ''ragDatabase'')
                (status_mongo w) (or_default (MONGODB_URI e) []) c of
           (Inl err, evs, c') \<Rightarrow> (Inl (evs, err), c')
         | (Inr d, evs, c') \<Rightarrow>
             (case ping_now w of
                Inl err \<Rightarrow> (Inl (evs @ [Ping], err), c')
              | Inr _ \<Rightarrow>
                  (Inr (evs @
                     [Ping,
                      Respond 200
                        (StatusJson ''ok'' ''Successfully connected to MongoDB''
                           (Some (endTime w - startTime w)) (time_now w)
                           (Some (or_default (MONGODB_COLLECTION e) ''rag_collection'')))]),
                   c'))))"

definition status_handler :: "env \<Rightarrow> status_world \<Rightarrow> request \<Rightarrow> cache \<Rightarrow> (exn + unit) \<times> event list \<times> cache" where
  "status_handler e w req c =
     (if method req = ''OPTIONS'' then (Inr (), [Respond 204 NoContent], c)
      else if method req \<noteq> ''GET'' then
        (Inr (), [Respond 405 (ErrorJson ''Method not allowed'' None)], c)
      else
        (case status_try e w c of
           (Inr evs, c') \<Rightarrow> (Inr (), evs, c')
         | (Inl (evs, err), c') \<Rightarrow>
             (Inr (),
              evs @ [ConsoleError (''MongoDB connection error: '' @ message err),
                     Respond 500
                       (StatusJson ''error'' (''Failed to connect to MongoDB: '' @ message err)
                          None (time_now w) None)],
              c')))"

section \<open>api/kag-search.js and api/kag.js\<close>

text \<open>
  \<open>requestBody.maxResults || 3\<close>. api/kag-search.js gives this value to \<open>limit\<close> as it
  is; api/kag.js gives it to \<open>parseInt\<close> first. \<open>parseInt\<close> is the language's own function
  and is taken as a parameter of that handler.
\<close>

definition max_results :: "kag_params \<Rightarrow> jsval" where
  "max_results p = (if js_truthy (maxResults p) then maxResults p else JNumber 3)"

definition text_search :: "string \<Rightarrow> jsval \<Rightarrow> text_find" where
  "text_search q n = TextFind q (Meta ''textScore'') (Meta ''textScore'') n"

text \<open>
  What the outside does during one request of a KAG endpoint: the driver, the
  collection on \<open>find(...).sort(...).limit(...).toArray()\<close>, and \<open>client.close()\<close>.
\<close>

record kag_world =
  kag_mongo :: mongo
  find_now :: "exn + example list"
  close_now :: "exn + unit"

text \<open>
  The part of both handlers up to the validated query, inside the outer \<open>try\<close>. The
  line that logs the query calls \<open>query.substring\<close>, which throws a \<open>TypeError\<close> when the
  query is truthy and not a string.
\<close>

definition kag_validate :: "env \<Rightarrow> kag_request \<Rightarrow> (event list \<times> exn) + event list + kag_params \<times> string" where
  "kag_validate e req =
     (if \<not> truthy (MONGODB_URI e) then
        Inr (Inl [ConsoleError ''ERROR: MongoDB URI is missing in environment variables'',
                  Respond 500
                    (ErrorMessageJson ''Configuration error''
                       ''Database connection string not configured'')])
      else
        (case body req of
           InvalidJson parseError \<Rightarrow>
             Inr (Inl [ConsoleError (''Failed to parse request body: '' @ parseError),
                       Respond 400 (ErrorMessageJson ''Invalid JSON in request body'' parseError)])
         | Nullish \<Rightarrow>
             Inl ([], Error ''Cannot read properties of undefined (reading 'query')'')
         | Fields p \<Rightarrow>
             (if \<not> js_truthy (kag_query p) then
                Inr (Inl [Respond 400 (ErrorJson ''Missing required parameter: query'' None)])
              else
                (case kag_query p of
                   JString q \<Rightarrow> Inr (Inr (p, q))
                 | _ \<Rightarrow> Inl ([], Error ''query.substring is not a function'')))))"

text \<open>api/kag-search.js: a new client for every request, closed after the search.\<close>

definition kag_search_try :: "env \<Rightarrow> kag_world \<Rightarrow> kag_request \<Rightarrow> event list \<times> exn + event list" where
  "kag_search_try e w req =
     (case kag_validate e req of
        Inl thrown \<Rightarrow> Inl thrown
      | Inr (Inl evs) \<Rightarrow> Inr evs
      | Inr (Inr (p, q)) \<Rightarrow>
          (let uri = or_default (MONGODB_URI e) [] in
           case kag_mongo w of
             BadUri err \<Rightarrow> Inl ([NewMongoClient uri], err)
           | Unreachable err \<Rightarrow> Inl ([NewMongoClient uri, ClientConnect], err)
           | Reachable client \<Rightarrow>
               (let evs = [NewMongoClient uri, ClientConnect,
                           Find ''examples'' (text_search q (max_results p))]
                in case find_now w of
                     Inl err \<Rightarrow> Inl (evs, err)
                   | Inr examples \<Rightarrow>
                       (case close_now w of
                          Inl err \<Rightarrow> Inl (evs @ [ClientClose], err)
                        | Inr _ \<Rightarrow>
                            Inr (evs @ [ClientClose, Respond 200 (ExamplesJson examples)])))))"

definition kag_catch :: "event list \<times> exn + event list \<Rightarrow> event list" where
  "kag_catch r =
     (case r of
        Inr evs \<Rightarrow> evs
      | Inl (evs, err) \<Rightarrow>
          evs @ [ConsoleError (''Function error: '' @ message err),
                 Respond 500 (ErrorMessageJson ''Internal Server Error'' (message err))])"

definition kag_search_handler :: "env \<Rightarrow> kag_world \<Rightarrow> kag_request \<Rightarrow> (exn + unit) \<times> event list" where
  "kag_search_handler e w req =
     (if method req = ''OPTIONS'' then (Inr (), [Respond 204 NoContent])
      else if method req \<noteq> ''POST'' then
        (Inr (), [Respond 405 (ErrorJson ''Method Not Allowed'' None)])
      else (Inr (), kag_catch (kag_search_try e w req)))"

text \<open>
  api/kag.js: the cached connection, and then the prompt utilities on the result.
  The file takes \<open>augmentPromptWithKagExamples\<close> and \<open>formatKagExamples\<close> from
  \<open>require('./kag-search')\<close>. What api/kag-search.js exports is its handler, so both
  names are \<open>undefined\<close> in api/kag.js, and the call of either, after the search has
  returned, throws a \<open>TypeError\<close> that the outer \<open>catch\<close> answers.
\<close>

definition kag_try :: "(jsval \<Rightarrow> jsval) \<Rightarrow> env \<Rightarrow> kag_world \<Rightarrow> kag_request \<Rightarrow> cache \<Rightarrow> (event list \<times> exn + event list) \<times> cache" where
  "kag_try parseInt e w req c =
     (case kag_validate e req of
        Inl thrown \<Rightarrow> (Inl thrown, c)
      | Inr (Inl evs) \<Rightarrow> (Inr evs, c)
      | Inr (Inr (p, q)) \<Rightarrow>
          (let collName =
                 or_default (kag_collectionName p) (or_default (MONGODB_COLLECTION e) ''examples'')
           in case connectToDatabase_plain (or_default (MONGODB_DB_NAME e) ''kag-database'')
                     (kag_mongo w) (or_default (MONGODB_URI e) []) c of
                (Inl err, evs, c') \<Rightarrow> (Inl (evs, err), c')
              | (Inr d, evs, c') \<Rightarrow>
                  (let evs' = evs @ [Find collName (text_search q (parseInt (max_results p)))]
                   in case find_now w of
                        Inl err \<Rightarrow> (Inl (evs', err), c')
                      | Inr examples \<Rightarrow>
                          (if truthy (systemPrompt p) then
                             (Inl (evs', Error ''augmentPromptWithKagExamples is not a function''), c')
                           else
                             (Inl (evs', Error ''formatKagExamples is not a function''), c')))))"

definition kag_handler :: "(jsval \<Rightarrow> jsval) \<Rightarrow> env \<Rightarrow> kag_world \<Rightarrow> kag_request \<Rightarrow> cache \<Rightarrow> (exn + unit) \<times> event list \<times> cache" where
  "kag_handler parseInt e w req c =
     (if method req = ''OPTIONS'' then (Inr (), [Respond 204 NoContent], c)
      else if method req \<noteq> ''POST'' then
        (Inr (), [Respond 405 (ErrorJson ''Method Not Allowed'' None)], c)
      else (case kag_try parseInt e w req c of (r, c') \<Rightarrow> (Inr (), kag_catch r, c')))"

section \<open>api/streaming.js\<close>

text \<open>
  The upstream response body is a readable stream: it emits its chunks, each given
  here by the text of \<open>chunk.toString()\<close>, and then \<open>end\<close> or \<open>error\<close>, or nothing more.
\<close>

datatype ending = Ends | Fails exn

record upstream_body =
  chunks :: "string list"
  ending :: "ending option"

datatype upstream = UpRejected exn | UpNotOk "exn + string" | UpOk upstream_body

text \<open>The three listeners.\<close>

definition on_data :: "string \<Rightarrow> event list" where
  "on_data chunk = [Write (''data: '' @ chunk @ ''\<newline>\<newline>'')]"

definition on_end :: "event list" where
  "on_end = [Write ''data: [DONE]\<newline>\<newline>'', End]"

definition on_error :: "exn \<Rightarrow> event list" where
  "on_error err = [ConsoleError (''Stream error: '' @ message err), WriteError (message err), End]"

definition stream_events :: "upstream_body \<Rightarrow> event list" where
  "stream_events b =
     concat (map on_data (chunks b))
       @ (case ending b of None \<Rightarrow> [] | Some Ends \<Rightarrow> on_end | Some (Fails err) \<Rightarrow> on_error err)"

text \<open>
  The body of the \<open>try\<close>: \<open>Inl\<close> is an exception that reaches the \<open>catch\<close>. The last
  component is the stream whose listeners have been attached, if any.
\<close>

definition streaming_try :: "env \<Rightarrow> upstream \<Rightarrow> request \<Rightarrow> (event list \<times> exn + event list) \<times> upstream_body option" where
  "streaming_try e up req =
     (case body req of
        InvalidJson parseError \<Rightarrow> (Inl ([], Error parseError), None)
      | requestBody \<Rightarrow>
          (if \<not> truthy (FIREWORKS_API_KEY e) then
             (Inr [Respond 500 (ErrorJson ''API key not configured on server'' None)], None)
           else
             (case up of
                UpRejected err \<Rightarrow> (Inl ([ChatForward requestBody], err), None)
              | UpNotOk (Inl err) \<Rightarrow> (Inl ([ChatForward requestBody], err), None)
              | UpNotOk (Inr errorText) \<Rightarrow>
                  (Inr [ChatForward requestBody, WriteError errorText, End], None)
              | UpOk stream \<Rightarrow> (Inr [ChatForward requestBody], Some stream))))"

text \<open>
  The exported handler, followed by what the listeners do when the stream emits its
  events after the handler has returned.
\<close>

definition streaming_handler :: "env \<Rightarrow> upstream \<Rightarrow> request \<Rightarrow> (exn + unit) \<times> event list" where
  "streaming_handler e up req =
     (if method req = ''OPTIONS'' then (Inr (), [Respond 204 NoContent])
      else if method req \<noteq> ''POST'' then
        (Inr (), [Respond 405 (ErrorJson ''Method not allowed'' None)])
      else
        (case streaming_try e up req of
           (Inl (evs, err), _) \<Rightarrow>
             (Inr (), evs @ [ConsoleError (''Error: '' @ message err), WriteError (message err), End])
         | (Inr evs, None) \<Rightarrow> (Inr (), evs)
         | (Inr evs, Some stream) \<Rightarrow> (Inr (), evs @ stream_events stream)))"

subsection \<open>Reading the traces of the other handlers\<close>

text \<open>The queries that a trace sends to a collection.\<close>

fun is_query :: "event \<Rightarrow> bool" where
  "is_query (Aggregate _ _) = True"
| "is_query (Find _ _) = True"
| "is_query _ = False"

definition queries :: "event list \<Rightarrow> event list" where
  "queries tr = filter is_query tr"

definition kag_search_trace :: "env \<Rightarrow> kag_world \<Rightarrow> kag_request \<Rightarrow> event list" where
  "kag_search_trace e w req = snd (kag_search_handler e w req)"

definition kag_trace :: "(jsval \<Rightarrow> jsval) \<Rightarrow> env \<Rightarrow> kag_world \<Rightarrow> kag_request \<Rightarrow> cache \<Rightarrow> event list" where
  "kag_trace parseInt e w req c = fst (snd (kag_handler parseInt e w req c))"

definition status_trace :: "env \<Rightarrow> status_world \<Rightarrow> request \<Rightarrow> cache \<Rightarrow> event list" where
  "status_trace e w req c = fst (snd (status_handler e w req c))"

definition streaming_trace :: "env \<Rightarrow> upstream \<Rightarrow> request \<Rightarrow> event list" where
  "streaming_trace e up req = snd (streaming_handler e up req)"

text \<open>
  The status codes that a trace sets, whether it writes a line with \<open>console.error\<close>,
  and whether a JSON body is an error body: one with an \<open>error\<close> property, or the
  status endpoint's body with \<open>status: 'error'\<close>.
\<close>

fun status_of :: "event \<Rightarrow> nat option" where
  "status_of (Respond s _) = Some s"
| "status_of _ = None"

definition statuses :: "event list \<Rightarrow> nat list" where
  "statuses tr = List.map_filter status_of tr"

fun is_ConsoleError :: "event \<Rightarrow> bool" where
  "is_ConsoleError (ConsoleError _) = True"
| "is_ConsoleError _ = False"

definition logged :: "event list \<Rightarrow> bool" where
  "logged tr = list_ex is_ConsoleError tr"

fun error_body :: "payload \<Rightarrow> bool" where
  "error_body (ErrorJson _ _) = True"
| "error_body (ErrorMessageJson _ _) = True"
| "error_body (StatusJson s _ _ _ _) = (s = ''error'')"
| "error_body _ = False"

fun is_Reachable :: "mongo \<Rightarrow> bool" where
  "is_Reachable (Reachable _) = True"
| "is_Reachable _ = False"

fun is_JString :: "jsval \<Rightarrow> bool" where
  "is_JString (JString _) = True"
| "is_JString _ = False"

section \<open>data-import/import-to-mongodb.js\<close>

text \<open>
  \<open>line.trim()\<close>: the line without its leading and trailing white space. Of the
  characters that a \<open>char\<close> can be, the white space of the language is tab, line feed,
  vertical tab, form feed, carriage return, space and no-break space.
\<close>

definition is_space :: "char \<Rightarrow> bool" where
  "is_space ch = (ch \<in> {CHR 0x09, CHR 0x0A, CHR 0x0B, CHR 0x0C, CHR 0x0D, CHR 0x20, CHR 0xA0})"

definition trim :: "string \<Rightarrow> string" where
  "trim s = rev (dropWhile is_space (rev (dropWhile is_space s)))"

definition BATCH_SIZE :: nat where
  "BATCH_SIZE = 1000"

text \<open>
  What the outside does during a run of the script. \<open>client_now\<close> is the exception of
  \<open>new MongoClient(uri)\<close>, if it throws. \<open>parse_line\<close> is \<open>JSON.parse\<close>: it throws, or
  gives \<open>null\<close> (\<open>None\<close>), or gives another value, of type \<open>'d\<close>. \<open>importedAt\<close> is the
  assignment \<open>doc.importedAt = new Date()\<close> on a value that is not \<open>null\<close>: it sets the
  property of an object and leaves a number, a string or a boolean as it is.
  \<open>insert_now n\<close> is the exception with which the call number \<open>n\<close> of \<open>insertMany\<close>
  rejects, if it does, and \<open>close_client_now\<close> the one of \<open>client.close()\<close>.
\<close>

record 'd import_world =
  client_now :: "exn option"
  connect_now :: "exn option"
  count_now :: "exn + nat"
  reply_now :: string
  index_now :: "exn option"
  parse_line :: "string \<Rightarrow> exn + 'd option"
  importedAt :: "'d \<Rightarrow> 'd"
  insert_now :: "nat \<Rightarrow> exn option"
  indexes_now :: "exn option"
  close_client_now :: "exn option"

text \<open>
  The index that is created: the keys with their kinds, the name, the weights.
\<close>

datatype index_spec = TextIndex "(string \<times> string) list" "string option" "(string \<times> nat) list"

text \<open>
  What a run does, in order: the calls of the driver, the question to the user, the
  lines of \<open>console.error\<close>, and the closing report (lines, documents, errors; or the
  total alone). \<open>ImportFailed\<close> is an exception caught by the \<open>catch\<close> of \<open>importData\<close>,
  \<open>ImportRejected\<close> one that leaves \<open>importData\<close> and is logged by the last line of
  the script. The type \<open>'v\<close> is that of the values given to \<open>insertMany\<close>.
\<close>

datatype 'v import_event =
    MongoConnect
  | CountDocuments
  | PromptUser
  | Cancelled
  | CreateIndex index_spec
  | InsertMany "'v list"
  | ErrorLine string
  | Completed nat nat nat
  | CompletedTotal nat
  | ListIndexes
  | ImportFailed exn
  | ImportRejected exn
  | CloseClient
  | Exit nat

text \<open>The \<open>finally\<close> block of \<open>importData\<close>, the same in both versions.\<close>

definition import_finally :: "'d import_world \<Rightarrow> 'v import_event list" where
  "import_finally w =
     (case close_client_now w of
        None \<Rightarrow> [CloseClient]
      | Some err \<Rightarrow> [CloseClient, ImportRejected err])"

subsection \<open>src/data-import/import-to-mongodb.js\<close>

record 'd loop_state =
  lineCount :: nat
  importedCount :: nat
  errorCount :: nat
  batch :: "'d list"
  inserts :: nat
  trace :: "'d import_event list"

text \<open>
  The body of the \<open>try\<close> inside the loop, for a line that is not blank: \<open>Some err\<close> is
  the exception that reaches the \<open>catch\<close>. Setting a property of \<open>null\<close> throws a
  \<open>TypeError\<close>. A rejected \<open>insertMany\<close> leaves the batch as it is.
\<close>

definition import_line :: "'d import_world \<Rightarrow> string \<Rightarrow> 'd loop_state \<Rightarrow> exn option \<times> 'd loop_state" where
  "import_line w line s =
     (case parse_line w line of
        Inl err \<Rightarrow> (Some err, s)
      | Inr None \<Rightarrow> (Some (Error ''Cannot set properties of null (setting 'importedAt')''), s)
      | Inr (Some d) \<Rightarrow>
          (let s1 = s\<lparr>batch := batch s @ [importedAt w d]\<rparr> in
           if length (batch s1) \<ge> BATCH_SIZE then
             (let s2 = s1\<lparr>inserts := inserts s1 + 1, trace := trace s1 @ [InsertMany (batch s1)]\<rparr> in
              case insert_now w (inserts s1) of
                Some err \<Rightarrow> (Some err, s2)
              | None \<Rightarrow>
                  (None, s2\<lparr>importedCount := importedCount s2 + length (batch s2), batch := []\<rparr>))
           else (None, s1)))"

text \<open>The \<open>for await\<close> loop over the lines, with its \<open>continue\<close> and its \<open>break\<close>.\<close>

fun import_loop :: "'d import_world \<Rightarrow> string list \<Rightarrow> 'd loop_state \<Rightarrow> 'd loop_state" where
  "import_loop w [] s = s"
| "import_loop w (line # rest) s =
     (let s1 = s\<lparr>lineCount := lineCount s + 1\<rparr> in
      if trim line = [] then import_loop w rest s1
      else
        (case import_line w line s1 of
           (None, s2) \<Rightarrow> import_loop w rest s2
         | (Some err, s2) \<Rightarrow>
             (let s3 = s2\<lparr>errorCount := errorCount s2 + 1,
                          trace := trace s2 @
                            [ErrorLine (''Error on line '' @ string_of_nat (lineCount s2) @ '': ''
                               @ message err)]\<rparr>
              in if errorCount s3 > 100 then
                   s3\<lparr>trace := trace s3 @ [ErrorLine ''Too many errors, aborting import'']\<rparr>
                 else import_loop w rest s3)))"

text \<open>
  After the loop, still inside the \<open>try\<close>: the last batch, the report and the list of
  indexes.
\<close>

definition import_finish :: "'d import_world \<Rightarrow> 'd loop_state \<Rightarrow> 'd import_event list" where
  "import_finish w s =
     (let report = (\<lambda>imported.
            [Completed (lineCount s) imported (errorCount s), ListIndexes]
              @ (case indexes_now w of
                   Some err \<Rightarrow> [ImportFailed err]
                 | None \<Rightarrow> []))
      in if length (batch s) > 0 then
           InsertMany (batch s) #
           (case insert_now w (inserts s) of
              Some err \<Rightarrow> [ImportFailed err]
            | None \<Rightarrow> report (importedCount s + length (batch s)))
         else report (importedCount s))"

definition search_index :: index_spec where
  "search_index =
     TextIndex [(''input'', ''text''), (''output'', ''text'')] (Some ''search_index'')
       [(''input'', 10), (''output'', 5)]"

definition confirmed :: "string \<Rightarrow> bool" where
  "confirmed reply = (reply = ''y'' \<or> reply = ''Y'')"

text \<open>\<open>importData()\<close> on the lines of the file.\<close>

definition importData :: "'d import_world \<Rightarrow> string list \<Rightarrow> 'd import_event list" where
  "importData w lines =
     (case client_now w of
        Some err \<Rightarrow> [ImportRejected err]
      | None \<Rightarrow>
          MongoConnect #
          (case connect_now w of
             Some err \<Rightarrow> [ImportFailed err]
           | None \<Rightarrow>
               CountDocuments #
               (case count_now w of
                  Inl err \<Rightarrow> [ImportFailed err]
                | Inr count \<Rightarrow>
                    (if count > 0 \<and> \<not> confirmed (reply_now w) then
                       [PromptUser, Cancelled]
                     else
                       (if count > 0 then [PromptUser] else []) @
                       CreateIndex search_index #
                       (case index_now w of
                          Some err \<Rightarrow> [ImportFailed err]
                        | None \<Rightarrow>
                            (let s = import_loop w lines
                                   \<lparr>lineCount = 0, importedCount = 0, errorCount = 0, batch = [],
                                    inserts = 0, trace = []\<rparr>
                             in trace s @ import_finish w s)))))
          @ import_finally w)"

subsection \<open>The import script among the unnamed files\<close>

text \<open>This version gives the parsed value to \<open>insertMany\<close> as it is, \<open>null\<close> too.\<close>

record 'd count_state =
  count :: nat
  pending :: "'d option list"
  insert_calls :: nat
  events :: "'d option import_event list"




subsection \<open>What a run inserted, and what the lines hold\<close>

fun batch_of :: "'v import_event \<Rightarrow> 'v list option" where
  "batch_of (InsertMany b) = Some b"
| "batch_of _ = None"

definition batches :: "'v import_event list \<Rightarrow> 'v list list" where
  "batches tr = List.map_filter batch_of tr"

text \<open>
  The values of the lines that are not blank and parse, in order (\<open>None\<close> for \<open>null\<close>),
  and the number of the lines that are not blank and do not parse.
\<close>

definition parsed :: "'d import_world \<Rightarrow> string list \<Rightarrow> 'd option list" where
  "parsed w ls =
     List.map_filter
       (\<lambda>l. if trim l = [] then None
            else (case parse_line w l of Inl _ \<Rightarrow> None | Inr v \<Rightarrow> Some v)) ls"

definition unparsable :: "'d import_world \<Rightarrow> string \<Rightarrow> bool" where
  "unparsable w l = (trim l \<noteq> [] \<and> isl (parse_line w l))"

definition failures :: "'d import_world \<Rightarrow> string list \<Rightarrow> nat" where
  "failures w ls = length (filter (unparsable w) ls)"

text \<open>
  The values other than \<open>null\<close> among them, and the lines that are not blank and give
  no such value: they do not parse, or they parse to \<open>null\<close>.
\<close>

definition documents :: "'d import_world \<Rightarrow> string list \<Rightarrow> 'd list" where
  "documents w ls =
     List.map_filter
       (\<lambda>l. if trim l = [] then None
            else (case parse_line w l of Inl _ \<Rightarrow> None | Inr v \<Rightarrow> v)) ls"

definition rejected :: "'d import_world \<Rightarrow> string \<Rightarrow> bool" where
  "rejected w l = (trim l \<noteq> [] \<and> (case parse_line w l of Inl _ \<Rightarrow> True | Inr v \<Rightarrow> v = None))"

definition errors :: "'d import_world \<Rightarrow> string list \<Rightarrow> nat" where
  "errors w ls = length (filter (rejected w) ls)"

section \<open>Sample inputs\<close>

text \<open>Concrete environments, requests and outcomes, on which the theorems are run.\<close>

definition sample_env :: env where
  "sample_env =
     \<lparr>FIREWORKS_API_KEY = Some ''fw-key'', MONGODB_URI = Some ''mongodb://db.example/'',
      MONGODB_DB_NAME = None, MONGODB_COLLECTION = None\<rparr>"

definition sample_params :: params where
  "sample_params =
     \<lparr>query = Some ''What is RAG?'', collectionName = None, modelName = None\<rparr>"

definition sample_request :: request where
  "sample_request = \<lparr>method = ''POST'', body = Fields sample_params\<rparr>"

definition short_doc :: doc where
  "short_doc =
     \<lparr>instruction = Some ''Define RAG'', context = Some ''glossary'',
      response = Some ''Retrieval-augmented generation.'', score = 0.9\<rparr>"

definition long_doc :: doc where
  "long_doc =
     \<lparr>instruction = Some ''Explain'', context = None,
      response = Some (replicate 201 CHR ''a''), score = 0.5\<rparr>"

definition sample_world :: rag_world where
  "sample_world =
     \<lparr>mongo_now = Reachable 1, stats_now = Inr (),
      embedding_now = Ok (Inr (Some [\<lparr>embedding = Some [0.25, 0.5]\<rparr>])),
      search_now = Inr [short_doc, long_doc],
      chat_now = Ok (Inr (Some [Some (Some ''RAG grounds a model in documents.'')]))\<rparr>"

definition sample_world_no_embedding :: rag_world where
  "sample_world_no_embedding =
     sample_world\<lparr>embedding_now := NotOk (Inr ''rate limited'')\<rparr>"

definition sample_world_no_database :: rag_world where
  "sample_world_no_database =
     sample_world\<lparr>mongo_now := Unreachable (Error ''timeout'')\<rparr>"

definition empty_rag_cache :: rag_cache where
  "empty_rag_cache = \<lparr>cachedDb = None, cachedClient = None\<rparr>"

definition sample_calls :: "(mongo \<times> string) list" where
  "sample_calls =
     [(Unreachable (Error ''timeout''), ''mongodb://db.example/''),
      (Reachable 7, ''mongodb://db.example/''),
      (Reachable 8, ''mongodb://db.example/''),
      (BadUri (Error ''bad scheme''), ''nonsense'')]"

text \<open>
  Two calls that overlap: both begin before either has connected, and then each
  resumes. A third call begins after them.
\<close>

definition overlapping_calls :: "act list" where
  "overlapping_calls =
     [Begin (Reachable 1) ''mongodb://db.example/'', Begin (Reachable 2) ''mongodb://db.example/'',
      Resume (Reachable 1), Resume (Reachable 2), Begin (Reachable 3) ''mongodb://db.example/'']"

definition sample_chat :: request where
  "sample_chat = \<lparr>method = ''POST'', body = Nullish\<rparr>"

definition sample_examples :: "example list" where
  "sample_examples =
     [\<lparr>input = Some ''What is RAG?'', output = Some ''Retrieval first.''\<rparr>,
      \<lparr>input = Some ''And KAG?'', output = None\<rparr>]"

definition sample_kag_world :: kag_world where
  "sample_kag_world =
     \<lparr>kag_mongo = Reachable 3, find_now = Inr sample_examples, close_now = Inr ()\<rparr>"

definition sample_kag_params :: kag_params where
  "sample_kag_params =
     \<lparr>kag_query = JString ''What is RAG?'', kag_collectionName = None,
      maxResults = JUndefined, systemPrompt = None\<rparr>"

definition sample_kag_request :: kag_request where
  "sample_kag_request = \<lparr>method = ''POST'', body = Fields sample_kag_params\<rparr>"

definition number_query_request :: kag_request where
  "number_query_request =
     \<lparr>method = ''POST'', body = Fields (sample_kag_params\<lparr>kag_query := JNumber 42\<rparr>)\<rparr>"

definition bad_kag_request :: kag_request where
  "bad_kag_request = \<lparr>method = ''POST'', body = InvalidJson ''Unexpected end of JSON input''\<rparr>"

text \<open>\<open>parseInt(3)\<close> is 3; the sample runs give \<open>parseInt\<close> no other value.\<close>

definition sample_parseInt :: "jsval \<Rightarrow> jsval" where
  "sample_parseInt v = (if v = JNumber 3 then JNumber 3 else JNaN)"

definition empty_cache :: cache where
  "empty_cache = \<lparr>cachedDb = None\<rparr>"

definition bad_request :: request where
  "bad_request = \<lparr>method = ''POST'', body = InvalidJson ''Unexpected end of JSON input''\<rparr>"

definition filled_rag_cache :: rag_cache where
  "filled_rag_cache =
     \<lparr>cachedDb = Some \<lparr>db_client = 9, db_name = ''ragDatabase''\<rparr>, cachedClient = Some 9\<rparr>"

definition filled_cache :: cache where
  "filled_cache = \<lparr>cachedDb = Some \<lparr>db_client = 9, db_name = ''kag-database''\<rparr>\<rparr>"

definition sample_status_request :: request where
  "sample_status_request = \<lparr>method = ''GET'', body = Nullish\<rparr>"

definition sample_status_world :: status_world where
  "sample_status_world =
     \<lparr>status_mongo = Reachable 5, ping_now = Inr (), startTime = 1000, endTime = 1042,
      time_now = ''2025-01-01T00:00:00.000Z''\<rparr>"

text \<open>
  A file for the import scripts: \<open>{}\<close> parses to a document, \<open>null\<close> to \<open>null\<close>, and
  nothing else parses. Documents are numbered here, and \<open>importedAt\<close> adds one.
\<close>

definition sample_import_world :: "nat import_world" where
  "sample_import_world =
     \<lparr>client_now = None, connect_now = None, count_now = Inr 0, reply_now = [], index_now = None,
      parse_line = (\<lambda>l. if l = ''{}'' then Inr (Some 0)
                         else if l = ''null'' then Inr None
                         else Inl (Error ''Unexpected token'')),
      importedAt = Suc, insert_now = (\<lambda>n. None), indexes_now = None,
      close_client_now = None\<rparr>"


definition broken_lines :: "string list" where
  "broken_lines = ''{}'' # replicate 101 ''not json'' @ [''{}'']"

definition null_lines :: "string list" where
  "null_lines = replicate 101 ''null'' @ [''{}'']"

section \<open>A call of the connection cache that runs alone\<close>

lemma connectToDatabase_unfold:
  "connectToDatabase e m uri c =
     (case cachedDb c of
        Some d \<Rightarrow> (Inr d, [], c)
      | None \<Rightarrow>
          (case m of
             BadUri err \<Rightarrow> (Inl err, [NewMongoClient uri], c)
           | Unreachable err \<Rightarrow>
               (Inl (Error (''Failed to connect to MongoDB: '' @ message err)),
                [NewMongoClient uri, ClientConnect,
                 ConsoleError (''MongoDB connection error: '' @ message err)],
                c)
           | Reachable client \<Rightarrow>
               (let d = \<lparr>db_client = client,
                         db_name = or_default (MONGODB_DB_NAME e) ''ragDatabase''\<rparr>
                in (Inr d, [NewMongoClient uri, ClientConnect],
                    c\<lparr>cachedClient := Some client, cachedDb := Some d\<rparr>))))"
  by (simp add: connectToDatabase_def connect_begin_def connect_resume_def Let_def
      split: option.splits mongo.splits)

lemma connectToDatabase_plain_unfold:
  "connectToDatabase_plain dbName m uri c =
     (case cachedDb c of
        Some d \<Rightarrow> (Inr d, [], c)
      | None \<Rightarrow>
          (case m of
             BadUri err \<Rightarrow> (Inl err, [NewMongoClient uri], c)
           | Unreachable err \<Rightarrow> (Inl err, [NewMongoClient uri, ClientConnect], c)
           | Reachable client \<Rightarrow>
               (let d = \<lparr>db_client = client, db_name = dbName\<rparr>
                in (Inr d, [NewMongoClient uri, ClientConnect], c\<lparr>cachedDb := Some d\<rparr>))))"
  by (simp add: connectToDatabase_plain_def connect_begin_def connect_resume_plain_def Let_def
      split: option.splits mongo.splits)

section \<open>Properties of the prompt utilities\<close>

lemma indexOf_Some:
  "indexOf s pat = Some i \<Longrightarrow>
     take (length pat) (drop i s) = pat \<and> i + length pat \<le> length s \<and>
     (\<forall>j<i. take (length pat) (drop j s) \<noteq> pat)"
proof (induction s arbitrary: i)
  case Nil
  then show ?case by (simp split: if_splits)
next
  case (Cons c cs)
  show ?case
  proof (cases "take (length pat) (c # cs) = pat")
    case True
    with Cons.prems have "i = 0" by simp
    from True have "length (take (length pat) (c # cs)) = length pat"
      by simp
    then have "length pat \<le> length (c # cs)"
      by (simp del: take_Suc_Cons)
    with True \<open>i = 0\<close> show ?thesis by simp
  next
    case False
    with Cons.prems obtain k where k: "indexOf cs pat = Some k" "i = Suc k"
      by auto
    from Cons.IH [OF k(1)] have ih:
      "take (length pat) (drop k cs) = pat" "k + length pat \<le> length cs"
      "\<forall>j<k. take (length pat) (drop j cs) \<noteq> pat"
      by simp_all
    have "take (length pat) (drop j (c # cs)) \<noteq> pat" if "j < Suc k" for j
    proof (cases j)
      case 0
      with False show ?thesis by simp
    next
      case (Suc m)
      with that ih(3) show ?thesis by simp
    qed
    with ih k(2) show ?thesis by simp
  qed
qed

lemma indexOf_None:
  "indexOf s pat = None \<Longrightarrow> take (length pat) (drop j s) \<noteq> pat"
proof (induction s arbitrary: j)
  case Nil
  then show ?case by (auto split: if_splits)
next
  case (Cons c cs)
  then show ?case by (cases j) (auto split: if_splits)
qed

text \<open>
  Claim C8. \<open>augmentPromptWithKagExamples\<close> returns the system prompt unchanged when
  the examples are \<open>null\<close> or the empty list. For a non-empty list the result is the
  prompt cut in two with the formatted block in between: the cut is just after the
  first occurrence of two newlines, and when there is none the whole prompt comes first,
  followed by two newlines and the block. In both cases the two pieces put together
  are the prompt again, so every character is kept, in order.
\<close>

theorem augment_keeps_prompt:
  "augmentPromptWithKagExamples p None = p \<and>
   augmentPromptWithKagExamples p (Some []) = p \<and>
   (es \<noteq> [] \<longrightarrow>
     (case indexOf p ''\<newline>\<newline>'' of
        Some i \<Rightarrow>
          take 2 (drop i p) = ''\<newline>\<newline>'' \<and>
          (\<forall>j<i. take 2 (drop j p) \<noteq> ''\<newline>\<newline>'') \<and>
          take (i + 2) p @ drop (i + 2) p = p \<and>
          augmentPromptWithKagExamples p (Some es) =
            take (i + 2) p @ formatKagExamples (Some es) @ drop (i + 2) p
      | None \<Rightarrow>
          (\<forall>j. take 2 (drop j p) \<noteq> ''\<newline>\<newline>'') \<and>
          augmentPromptWithKagExamples p (Some es) =
            p @ ''\<newline>\<newline>'' @ formatKagExamples (Some es)))"
proof -
  have a: "augmentPromptWithKagExamples p None = p"
    by (simp add: augmentPromptWithKagExamples_def)
  have b: "augmentPromptWithKagExamples p (Some []) = p"
    by (simp add: augmentPromptWithKagExamples_def)
  have c: "?thesis" if ne: "es \<noteq> []" and ix: "indexOf p ''\<newline>\<newline>'' = Some i" for i
  proof -
    from indexOf_Some [OF ix]
    have "take 2 (drop i p) = ''\<newline>\<newline>''"
      and "\<forall>j<i. take 2 (drop j p) \<noteq> ''\<newline>\<newline>''"
      by (simp_all add: numeral_2_eq_2)
    moreover from ne ix have "augmentPromptWithKagExamples p (Some es) =
        take (i + 2) p @ formatKagExamples (Some es) @ drop (i + 2) p"
      by (cases es)
        (simp_all add: augmentPromptWithKagExamples_def substring_def substring_from_def)
    ultimately show ?thesis using a b ix by simp
  qed
  have d: "?thesis" if ne: "es \<noteq> []" and ix: "indexOf p ''\<newline>\<newline>'' = None"
  proof -
    from indexOf_None [OF ix]
    have "\<forall>j. take 2 (drop j p) \<noteq> ''\<newline>\<newline>''"
      by (simp add: numeral_2_eq_2)
    moreover from ne ix have "augmentPromptWithKagExamples p (Some es) =
        p @ ''\<newline>\<newline>'' @ formatKagExamples (Some es)"
      by (cases es) (simp_all add: augmentPromptWithKagExamples_def)
    ultimately show ?thesis using a b ix by simp
  qed
  show ?thesis
  proof (cases "es = []")
    case True
    with a b show ?thesis by simp
  next
    case False
    with c d show ?thesis by (cases "indexOf p ''\<newline>\<newline>''") blast+
  qed
qed

theorem augment_keeps_prompt_witness:
  "augmentPromptWithKagExamples ''Be brief.\<newline>\<newline>Rules.''
     (Some [\<lparr>input = Some ''hi'', output = Some ''yo''\<rparr>]) =
   ''Be brief.\<newline>\<newline>''
     @ formatKagExamples (Some [\<lparr>input = Some ''hi'', output = Some ''yo''\<rparr>])
     @ ''Rules.'' \<and>
   formatKagExamples (Some [\<lparr>input = Some ''hi'', output = Some ''yo''\<rparr>]) =
     ''\<newline>\<newline>## RELEVANT EXAMPLES:\<newline>\<newline>EXAMPLE 1:\<newline>User: hi\<newline>Assistant: yo\<newline>\<newline>## END OF EXAMPLES\<newline>\<newline>''"
  using augment_keeps_prompt
    [of "''Be brief.\<newline>\<newline>Rules.''" "[\<lparr>input = Some ''hi'', output = Some ''yo''\<rparr>]"]
  by (simp add: formatKagExamples_def format_step_def template_def string_of_nat.simps)

section \<open>Properties of the RAG handler\<close>

lemma sample_run:
  "rag_trace sample_env sample_world sample_request empty_rag_cache =
     [NewMongoClient ''mongodb://db.example/'', ClientConnect, CollectionStats ''rag_collection'',
      EmbeddingRequest ''nomic-ai/nomic-embed-text-v1.5'' ''What is RAG?'',
      Aggregate ''rag_collection'' (vector_pipeline (Some [0.25, 0.5])),
      ChatRequest (rag_step5 False (rag_step4 [short_doc, long_doc]) ''What is RAG?''),
      Respond 200 (AnswerJson (Some ''RAG grounds a model in documents.'')
        [\<lparr>source_instruction = Some ''Define RAG'', source_response = ''Retrieval-augmented generation.'',
          source_context = Some ''glossary'', source_score = 0.9\<rparr>,
         \<lparr>source_instruction = Some ''Explain'', source_response = replicate 200 CHR ''a'' @ ''...'',
          source_context = None, source_score = 0.5\<rparr>] False None)]"
  by (simp add: rag_trace_def rag_handler_def rag_try_def rag_steps_def rag_step1_def rag_step2_def
      rag_step3_def rag_step6_def rag_chat_def first_content_def first_embedding_def
      connectToDatabase_unfold to_source_def substring_def
      sample_env_def sample_world_def sample_request_def sample_params_def empty_rag_cache_def
      short_doc_def long_doc_def truthy_def or_default_def or_field_def Let_def)

lemma map_filter_append: "List.map_filter f (xs @ ys) = List.map_filter f xs @ List.map_filter f ys"
  by (simp add: List.map_filter_def)

lemma pipeline_steps_append [simp]: "pipeline_steps (xs @ ys) = pipeline_steps xs @ pipeline_steps ys"
  by (simp add: pipeline_steps_def map_filter_append)

lemma pipeline_steps_Nil [simp]: "pipeline_steps [] = []"
  by (simp add: pipeline_steps_def)

lemma pipeline_steps_Cons [simp]:
  "pipeline_steps (ev # tr) = (case step_of ev of None \<Rightarrow> pipeline_steps tr | Some s \<Rightarrow> s # pipeline_steps tr)"
  by (simp add: pipeline_steps_def List.map_filter_simps split: option.splits)

lemma calls_append [simp]: "calls (xs @ ys) = calls xs @ calls ys"
  by (simp add: calls_def map_filter_append)

lemma calls_Nil [simp]: "calls [] = []"
  by (simp add: calls_def)

lemma calls_Cons [simp]:
  "calls (ev # tr) = (case call_of ev of None \<Rightarrow> calls tr | Some s \<Rightarrow> s # calls tr)"
  by (simp add: calls_def List.map_filter_simps split: option.splits)

lemma errorResponse_step [simp]: "step_of (errorResponse s m d) = Some ResponseStep"
  "call_of (errorResponse s m d) = None" "is_Respond (errorResponse s m d)"
  by (simp_all add: errorResponse_def)

lemma connect_events:
  "connectToDatabase e m uri c = (r, evs, c') \<Longrightarrow>
     pipeline_steps evs = [] \<and> responses evs = [] \<and>
     (case r of
        Inr _ \<Rightarrow> calls evs \<in> {[], [ConstructCall, ConnectCall]}
      | Inl _ \<Rightarrow> calls evs \<in> {[ConstructCall], [ConstructCall, ConnectCall]})"
  by (auto simp: connectToDatabase_unfold responses_def Let_def split: option.splits mongo.splits)

lemma step1_events:
  "rag_step1 e w uri coll c = (fb, evs, c') \<Longrightarrow>
     pipeline_steps evs = [] \<and> responses evs = [] \<and>
     calls evs \<in> {[], [StatsCall], [ConstructCall], [ConstructCall, ConnectCall], [ConstructCall, ConnectCall, StatsCall]}"
  unfolding rag_step1_def
  by (auto simp: responses_def split: prod.splits sum.splits dest!: connect_events)

lemma step3_events:
  "rag_step3 w coll v fb = (docs, fb', evs) \<Longrightarrow>
     responses evs = [] \<and>
     (if fb then evs = [] \<and> docs = [] \<and> fb'
      else pipeline_steps evs = [SearchStep] \<and> calls evs = [AggregateCall] \<and>
           hd evs = Aggregate coll (vector_pipeline v) \<and>
           (case search_now w of Inr ds \<Rightarrow> docs = ds \<and> \<not> fb' | Inl _ \<Rightarrow> docs = [] \<and> fb'))"
  by (auto simp: rag_step3_def responses_def split: sum.splits if_splits)

lemma step6_events:
  "pipeline_steps (rag_step6 w fb docs q) = [ChatStep, ResponseStep] \<and>
   calls (rag_step6 w fb docs q) = [ChatCall]"
  by (auto simp: rag_step6_def split: sum.splits)

lemma step6_responses:
  "responses (rag_step6 w fb docs q) =
     (case rag_chat (chat_now w) of
        Inl err \<Rightarrow> [errorResponse 500 (''LLM API error: '' @ message err) None]
      | Inr a \<Rightarrow> (case to_sources docs of
           Inl err \<Rightarrow> [errorResponse 500 (''LLM API error: '' @ message err) None]
         | Inr ss \<Rightarrow> [Respond 200 (AnswerJson a ss fb None)]))"
  by (auto simp: rag_step6_def responses_def split: sum.splits)

lemma rag_steps_shape:
  assumes s1: "rag_step1 e w uri
      (or_default (or_field (collectionName p) (MONGODB_COLLECTION e)) ''rag_collection'') c
      = (fb1, evs1, c')"
  shows "case rag_step2 (embedding_now w) of
        Inl err \<Rightarrow>
          fst (rag_steps e w uri p q c) =
            evs1 @ [EmbeddingRequest (or_default (modelName p) ''nomic-ai/nomic-embed-text-v1.5'') q,
                    ConsoleError (''Failed to create embedding: '' @ message err),
                    Respond 200 (AnswerJson (Some (answer (generateFallbackResponse q))) [] True
                      (Some (''Embedding failed: '' @ message err)))]
      | Inr v \<Rightarrow>
          (case rag_step3 w
              (or_default (or_field (collectionName p) (MONGODB_COLLECTION e)) ''rag_collection'')
              v fb1 of
            (docs, fb, evs3) \<Rightarrow>
             fst (rag_steps e w uri p q c) =
               evs1 @ [EmbeddingRequest (or_default (modelName p) ''nomic-ai/nomic-embed-text-v1.5'') q]
                 @ evs3 @ rag_step6 w fb docs q)"
proof -
  have "sources (generateFallbackResponse q) = []"
    by (simp add: generateFallbackResponse_def)
  with s1 show ?thesis
    by (simp add: rag_steps_def Let_def split: sum.splits prod.splits)
qed

lemma rag_trace_post:
  assumes "method req = ''POST''" "truthy (FIREWORKS_API_KEY e)" "truthy (MONGODB_URI e)"
    "body req = Fields p" "query p = Some q" "q \<noteq> []"
  shows "rag_trace e w req c = fst (rag_steps e w (or_default (MONGODB_URI e) []) p q c)"
  using assms
  by (simp add: rag_trace_def rag_handler_def rag_try_def truthy_def or_default_def
      split: prod.splits)

lemma rag_steps_responses:
  "responses (fst (rag_steps e w uri p q c)) =
     (case rag_step2 (embedding_now w) of
        Inl err \<Rightarrow>
          [Respond 200 (AnswerJson (Some (answer (generateFallbackResponse q))) [] True
             (Some (''Embedding failed: '' @ message err)))]
      | Inr v \<Rightarrow>
          (case rag_step3 w
              (or_default (or_field (collectionName p) (MONGODB_COLLECTION e)) ''rag_collection'')
              v (fst (rag_step1 e w uri
                (or_default (or_field (collectionName p) (MONGODB_COLLECTION e)) ''rag_collection'') c)) of
            (docs, fb, evs3) \<Rightarrow> responses (rag_step6 w fb docs q)))"
proof -
  obtain fb1 evs1 c' where s1: "rag_step1 e w uri
      (or_default (or_field (collectionName p) (MONGODB_COLLECTION e)) ''rag_collection'') c
      = (fb1, evs1, c')"
    by (metis prod_cases3)
  from step1_events [OF s1] have r1: "responses evs1 = []" by simp
  show ?thesis
  proof (cases "rag_step2 (embedding_now w)")
    case (Inl err)
    with rag_steps_shape [OF s1, of q] r1 show ?thesis
      by (simp add: responses_def)
  next
    case (Inr v)
    obtain docs fb evs3 where s3: "rag_step3 w
        (or_default (or_field (collectionName p) (MONGODB_COLLECTION e)) ''rag_collection'')
        v fb1 = (docs, fb, evs3)"
      by (metis prod_cases3)
    from step3_events [OF s3] have "responses evs3 = []" by simp
    with Inr rag_steps_shape [OF s1, of q] r1 s1 s3 show ?thesis
      by (simp add: responses_def)
  qed
qed

lemma rag_steps_pipeline:
  "pipeline_steps (fst (rag_steps e w uri p q c)) =
     (case rag_step2 (embedding_now w) of
        Inl err \<Rightarrow> [EmbeddingStep, ResponseStep]
      | Inr v \<Rightarrow>
          (if fst (rag_step1 e w uri
                (or_default (or_field (collectionName p) (MONGODB_COLLECTION e)) ''rag_collection'') c)
           then [EmbeddingStep, ChatStep, ResponseStep]
           else [EmbeddingStep, SearchStep, ChatStep, ResponseStep]))"
proof -
  obtain fb1 evs1 c' where s1: "rag_step1 e w uri
      (or_default (or_field (collectionName p) (MONGODB_COLLECTION e)) ''rag_collection'') c
      = (fb1, evs1, c')"
    by (metis prod_cases3)
  from step1_events [OF s1] have r1: "pipeline_steps evs1 = []" by simp
  show ?thesis
  proof (cases "rag_step2 (embedding_now w)")
    case (Inl err)
    with rag_steps_shape [OF s1, of q] r1 show ?thesis
      by simp
  next
    case (Inr v)
    obtain docs fb evs3 where s3: "rag_step3 w
        (or_default (or_field (collectionName p) (MONGODB_COLLECTION e)) ''rag_collection'')
        v fb1 = (docs, fb, evs3)"
      by (metis prod_cases3)
    from step3_events [OF s3] have "pipeline_steps evs3 = (if fb1 then [] else [SearchStep])"
      by (simp split: if_splits)
    with Inr rag_steps_shape [OF s1, of q] r1 s1 s3 step6_events [of w fb docs q] show ?thesis
      by simp
  qed
qed

lemma rag_steps_calls:
  "distinct (calls (fst (rag_steps e w uri p q c)))"
proof -
  obtain fb1 evs1 c' where s1: "rag_step1 e w uri
      (or_default (or_field (collectionName p) (MONGODB_COLLECTION e)) ''rag_collection'') c
      = (fb1, evs1, c')"
    by (metis prod_cases3)
  from step1_events [OF s1] have r1: "distinct (calls evs1)"
    "set (calls evs1) \<subseteq> {ConstructCall, ConnectCall, StatsCall}" by auto
  show ?thesis
  proof (cases "rag_step2 (embedding_now w)")
    case (Inl err)
    with rag_steps_shape [OF s1, of q] r1 show ?thesis
      by auto
  next
    case (Inr v)
    obtain docs fb evs3 where s3: "rag_step3 w
        (or_default (or_field (collectionName p) (MONGODB_COLLECTION e)) ''rag_collection'')
        v fb1 = (docs, fb, evs3)"
      by (metis prod_cases3)
    from step3_events [OF s3] have "calls evs3 = (if fb1 then [] else [AggregateCall])"
      by (simp split: if_splits)
    with Inr rag_steps_shape [OF s1, of q] r1 s1 s3 step6_events [of w fb docs q] show ?thesis
      by auto
  qed
qed

lemma step_in_pipeline:
  "ev \<in> set tr \<Longrightarrow> step_of ev = Some s \<Longrightarrow> s \<in> set (pipeline_steps tr)"
  by (induction tr) (auto split: option.splits)

lemma rag_trace_early:
  assumes "\<not> (method req = ''POST'' \<and> truthy (FIREWORKS_API_KEY e) \<and> truthy (MONGODB_URI e) \<and>
      (\<exists>p. body req = Fields p \<and> truthy (query p)))"
  shows "pipeline_steps (rag_trace e w req c) = [ResponseStep] \<and> calls (rag_trace e w req c) = []"
  using assms
  by (cases "body req")
    (auto simp: rag_trace_def rag_handler_def rag_try_def split: prod.splits)

lemma truthy_Some: "truthy f \<Longrightarrow> \<exists>q. f = Some q \<and> q \<noteq> []"
  by (cases f) (auto simp: truthy_def)

lemma step3_members:
  "rag_step3 w coll v fb = (docs, fb', evs) \<Longrightarrow>
     (\<forall>cl pl. Aggregate cl pl \<in> set evs \<longrightarrow> pl = vector_pipeline v) \<and>
     (\<forall>msgs. ChatRequest msgs \<notin> set evs) \<and>
     (docs = [] \<or> search_now w = Inr docs)"
  by (auto simp: rag_step3_def split: sum.splits if_splits)

lemma step6_members:
  "(\<forall>cl pl. Aggregate cl pl \<notin> set (rag_step6 w fb docs q)) \<and>
   (\<forall>msgs. ChatRequest msgs \<in> set (rag_step6 w fb docs q) \<longrightarrow>
      msgs = rag_step5 fb (rag_step4 docs) q)"
  by (auto simp: rag_step6_def errorResponse_def split: sum.splits)

lemma rag_steps_dataflow:
  "(\<forall>cl pl. Aggregate cl pl \<in> set (fst (rag_steps e w uri p q c)) \<longrightarrow>
      (\<exists>v. rag_step2 (embedding_now w) = Inr v \<and> pl = vector_pipeline v)) \<and>
   (\<forall>msgs. ChatRequest msgs \<in> set (fst (rag_steps e w uri p q c)) \<longrightarrow>
      (\<exists>fb docs. msgs = rag_step5 fb (rag_step4 docs) q \<and> (docs = [] \<or> search_now w = Inr docs)))"
proof -
  obtain fb1 evs1 c' where s1: "rag_step1 e w uri
      (or_default (or_field (collectionName p) (MONGODB_COLLECTION e)) ''rag_collection'') c
      = (fb1, evs1, c')"
    by (metis prod_cases3)
  from step1_events [OF s1] have "pipeline_steps evs1 = []" by simp
  with step_in_pipeline [of _ evs1]
  have r1: "Aggregate cl pl \<notin> set evs1" "ChatRequest msgs \<notin> set evs1" for cl pl msgs
    by fastforce+
  show ?thesis
  proof (cases "rag_step2 (embedding_now w)")
    case (Inl err)
    with rag_steps_shape [OF s1, of q] r1 show ?thesis
      by simp
  next
    case (Inr v)
    obtain docs fb evs3 where s3: "rag_step3 w
        (or_default (or_field (collectionName p) (MONGODB_COLLECTION e)) ''rag_collection'')
        v fb1 = (docs, fb, evs3)"
      by (metis prod_cases3)
    from Inr rag_steps_shape [OF s1, of q] s3
    have tr: "fst (rag_steps e w uri p q c) =
        evs1 @ [EmbeddingRequest (or_default (modelName p) ''nomic-ai/nomic-embed-text-v1.5'') q]
          @ evs3 @ rag_step6 w fb docs q"
      by simp
    have "pl = vector_pipeline v" if "Aggregate cl pl \<in> set (fst (rag_steps e w uri p q c))" for cl pl
    proof -
      from that have "Aggregate cl pl \<in> set evs1 \<or> Aggregate cl pl \<in> set evs3 \<or>
          Aggregate cl pl \<in> set (rag_step6 w fb docs q)"
        unfolding tr by auto
      with step3_members [OF s3] step6_members [of w fb docs q] r1 show ?thesis by blast
    qed
    moreover have "msgs = rag_step5 fb (rag_step4 docs) q"
      if "ChatRequest msgs \<in> set (fst (rag_steps e w uri p q c))" for msgs
    proof -
      from that have "ChatRequest msgs \<in> set evs1 \<or> ChatRequest msgs \<in> set evs3 \<or>
          ChatRequest msgs \<in> set (rag_step6 w fb docs q)"
        unfolding tr by auto
      with step3_members [OF s3] step6_members [of w fb docs q] r1 show ?thesis by blast
    qed
    moreover from step3_members [OF s3] have "docs = [] \<or> search_now w = Inr docs"
      by simp
    ultimately show ?thesis using Inr by blast
  qed
qed

text \<open>
  Claim C2. The steps of the pipeline that a run of the RAG handler performs are, in
  order, one of: a response alone; the embedding request and a response; the embedding
  request, the chat request and a response; the embedding request, the vector search,
  the chat request and a response. For a POST request with the configuration present
  and a non-empty query the embedding request is always made, and the run stops after
  it exactly when the embedding step fails. Every vector search in the trace carries
  the embedding that the embedding step returned, and every chat request carries the
  messages assembled from the outcome of the search, so the search follows the
  embedding, the chat request follows the assembly of the prompt, and the response is
  the last step.
\<close>

theorem pipeline_order:
  "pipeline_steps (rag_trace e w req c) \<in>
     {[ResponseStep], [EmbeddingStep, ResponseStep], [EmbeddingStep, ChatStep, ResponseStep],
      [EmbeddingStep, SearchStep, ChatStep, ResponseStep]} \<and>
   (method req = ''POST'' \<and> truthy (FIREWORKS_API_KEY e) \<and> truthy (MONGODB_URI e) \<and>
    body req = Fields p \<and> query p = Some q \<and> q \<noteq> [] \<longrightarrow>
      pipeline_steps (rag_trace e w req c) \<in>
        {[EmbeddingStep, ResponseStep], [EmbeddingStep, ChatStep, ResponseStep],
         [EmbeddingStep, SearchStep, ChatStep, ResponseStep]} \<and>
      ((pipeline_steps (rag_trace e w req c) = [EmbeddingStep, ResponseStep]) =
         (\<exists>err. rag_step2 (embedding_now w) = Inl err)) \<and>
      (\<forall>cl pl. Aggregate cl pl \<in> set (rag_trace e w req c) \<longrightarrow>
         (\<exists>v. rag_step2 (embedding_now w) = Inr v \<and> pl = vector_pipeline v)) \<and>
      (\<forall>msgs. ChatRequest msgs \<in> set (rag_trace e w req c) \<longrightarrow>
         (\<exists>fb docs. msgs = rag_step5 fb (rag_step4 docs) q \<and>
            (docs = [] \<or> search_now w = Inr docs))))"
proof -
  have post: "rag_trace e w req c = fst (rag_steps e w (or_default (MONGODB_URI e) []) p q c)"
    if "method req = ''POST''" "truthy (FIREWORKS_API_KEY e)" "truthy (MONGODB_URI e)"
      "body req = Fields p" "query p = Some q" "q \<noteq> []" for p q
    using that by (rule rag_trace_post)
  have shapes: "pipeline_steps (fst (rag_steps e w uri p q c)) \<in>
        {[EmbeddingStep, ResponseStep], [EmbeddingStep, ChatStep, ResponseStep],
         [EmbeddingStep, SearchStep, ChatStep, ResponseStep]}" for uri p q
    by (simp add: rag_steps_pipeline split: sum.splits)
  have fails: "(pipeline_steps (fst (rag_steps e w uri p q c)) = [EmbeddingStep, ResponseStep]) =
         (\<exists>err. rag_step2 (embedding_now w) = Inl err)" for uri p q
    by (simp add: rag_steps_pipeline split: sum.splits)
  have first: "pipeline_steps (rag_trace e w req c) \<in>
     {[ResponseStep], [EmbeddingStep, ResponseStep], [EmbeddingStep, ChatStep, ResponseStep],
      [EmbeddingStep, SearchStep, ChatStep, ResponseStep]}"
  proof (cases "method req = ''POST'' \<and> truthy (FIREWORKS_API_KEY e) \<and> truthy (MONGODB_URI e) \<and>
      (\<exists>p. body req = Fields p \<and> truthy (query p))")
    case True
    then obtain p' q' where "body req = Fields p'" "query p' = Some q'" "q' \<noteq> []"
      using truthy_Some by blast
    with True post [of p' q'] shapes [of _ p' q'] show ?thesis by auto
  next
    case False
    from rag_trace_early [OF this] show ?thesis by simp
  qed
  show ?thesis
    using first post [of p q] shapes [of _ p q] fails [of _ p q] rag_steps_dataflow [of e w _ p q c]
    by (intro conjI impI) (simp_all)
qed

theorem pipeline_order_witness:
  "pipeline_steps (rag_trace sample_env sample_world sample_request empty_rag_cache) =
     [EmbeddingStep, SearchStep, ChatStep, ResponseStep] \<and>
   rag_step2 (embedding_now sample_world) = Inr (Some [0.25, 0.5]) \<and>
   Aggregate ''rag_collection'' (vector_pipeline (Some [0.25, 0.5]))
     \<in> set (rag_trace sample_env sample_world sample_request empty_rag_cache) \<and>
   ChatRequest (rag_step5 False (rag_step4 [short_doc, long_doc]) ''What is RAG?'')
     \<in> set (rag_trace sample_env sample_world sample_request empty_rag_cache)"
  using pipeline_order [of sample_env sample_world sample_request empty_rag_cache
      sample_params "''What is RAG?''"]
  by (simp add: sample_run)
    (simp add: sample_world_def rag_step2_def first_embedding_def)

lemma step1_fallback:
  "fst (rag_step1 e w uri coll c) =
     ((cachedDb c = None \<and> \<not> is_Reachable (mongo_now w)) \<or> isl (stats_now w))"
  by (cases "mongo_now w"; cases "stats_now w"; cases "cachedDb c")
    (simp_all add: rag_step1_def connectToDatabase_unfold Let_def)

lemma step3_result:
  "rag_step3 w coll v fb = (docs, fb', evs) \<Longrightarrow>
     fb' = (fb \<or> isl (search_now w)) \<and>
     (if fb' then docs = [] else search_now w = Inr docs)"
  by (cases "search_now w") (auto simp: rag_step3_def split: if_splits)

lemma step6_chat: "ChatRequest (rag_step5 fb (rag_step4 docs) q) \<in> set (rag_step6 w fb docs q)"
  by (simp add: rag_step6_def)

lemma step5_fallback: "rag_step5 True ctx q = rag_step5 True [] q"
  by (simp add: rag_step5_def)

lemma rag_steps_outcome:
  assumes v: "rag_step2 (embedding_now w) = Inr v"
    and F: "F = ((cachedDb c = None \<and> \<not> is_Reachable (mongo_now w)) \<or> isl (stats_now w) \<or>
      isl (search_now w))"
  shows "\<exists>docs.
     (if F then docs = [] else search_now w = Inr docs) \<and>
     ChatRequest (rag_step5 F (rag_step4 docs) q) \<in> set (fst (rag_steps e w uri p q c)) \<and>
     responses (fst (rag_steps e w uri p q c)) = responses (rag_step6 w F docs q)"
proof -
  let ?coll = "or_default (or_field (collectionName p) (MONGODB_COLLECTION e)) ''rag_collection''"
  obtain fb1 evs1 c' where s1: "rag_step1 e w uri ?coll c = (fb1, evs1, c')"
    by (metis prod_cases3)
  obtain docs fb evs3 where s3: "rag_step3 w ?coll v fb1 = (docs, fb, evs3)"
    by (metis prod_cases3)
  have "fb1 = fst (rag_step1 e w uri ?coll c)"
    by (simp only: s1 fst_conv)
  then have fb1: "fb1 = ((cachedDb c = None \<and> \<not> is_Reachable (mongo_now w)) \<or> isl (stats_now w))"
    by (simp only: step1_fallback)
  note r3 = step3_result [OF s3]
  from r3 have "fb = (fb1 \<or> isl (search_now w))"
    by (rule conjunct1)
  then have fb: "fb = F"
    by (simp only: fb1 F disj_assoc)
  from r3 have docs: "if fb then docs = [] else search_now w = Inr docs"
    by (rule conjunct2)
  from v rag_steps_shape [OF s1, of q] s3
  have tr: "fst (rag_steps e w uri p q c) =
      evs1 @ [EmbeddingRequest (or_default (modelName p) ''nomic-ai/nomic-embed-text-v1.5'') q]
        @ evs3 @ rag_step6 w fb docs q"
    by simp
  have chat: "ChatRequest (rag_step5 fb (rag_step4 docs) q) \<in> set (fst (rag_steps e w uri p q c))"
    unfolding tr using step6_chat [of fb docs q w] by simp
  from v s1 s3 have resp: "responses (fst (rag_steps e w uri p q c)) = responses (rag_step6 w fb docs q)"
    by (simp add: rag_steps_responses)
  from docs chat resp show ?thesis
    unfolding fb by (intro exI [of _ docs] conjI)
qed

lemma rag_calls_distinct: "distinct (calls (rag_trace e w req c))"
proof (cases "method req = ''POST'' \<and> truthy (FIREWORKS_API_KEY e) \<and> truthy (MONGODB_URI e) \<and>
    (\<exists>p. body req = Fields p \<and> truthy (query p))")
  case True
  then obtain p' q' where "body req = Fields p'" "query p' = Some q'" "q' \<noteq> []"
    using truthy_Some by blast
  with True rag_trace_post [of req e p' q' w c] rag_steps_calls [of e w _ p' q' c]
  show ?thesis by auto
next
  case False
  from rag_trace_early [OF this] show ?thesis by simp
qed

lemma no_database_run:
  "rag_trace sample_env sample_world_no_database sample_request empty_rag_cache =
     [NewMongoClient ''mongodb://db.example/'', ClientConnect,
      ConsoleError ''MongoDB connection error: timeout'',
      ConsoleError ''MongoDB connection error: Failed to connect to MongoDB: timeout'',
      EmbeddingRequest ''nomic-ai/nomic-embed-text-v1.5'' ''What is RAG?'',
      ChatRequest (rag_step5 True [] ''What is RAG?''),
      Respond 200 (AnswerJson (Some ''RAG grounds a model in documents.'') [] True None)]"
  by (simp add: rag_trace_def rag_handler_def rag_try_def rag_steps_def rag_step1_def rag_step2_def
      rag_step3_def rag_step4_def rag_step6_def rag_chat_def first_content_def first_embedding_def
      connectToDatabase_unfold
      sample_env_def sample_world_no_database_def sample_world_def sample_request_def
      sample_params_def empty_rag_cache_def
      truthy_def or_default_def or_field_def Let_def)

text \<open>
  Claim C1, as the code has it. No run of the RAG handler calls the same operation of
  the database or of the model provider twice. For a request that reaches the
  embedding step (POST, configuration present, non-empty query):

  \<^item> when the embedding step fails, the one response is status 200 with the answer of
    \<open>generateFallbackResponse\<close> (a fixed text around the query), an empty list of
    sources, \<open>fallback\<close> true and the error text;

  \<^item> when it succeeds and the connection, \<open>stats()\<close> or the vector search fails, the chat
    call is made with the prompt for an unavailable knowledge base and no context, and
    the one response is status 200 with the answer of the chat call, no sources and
    \<open>fallback\<close> true, or status 500 when the chat call fails;

  \<^item> when it succeeds and none of them fails, the chat call is made with the context
    of the search result, and the one response is status 200 with the answer of the
    chat call, the sources of the search result and \<open>fallback\<close> false, or status 500
    when the chat call or the making of the sources fails.
\<close>

theorem failures_are_compensated_without_retry:
  "distinct (calls (rag_trace e w req c)) \<and>
   answer (generateFallbackResponse q) =
     ''I'm unable to search the knowledge base at the moment due to a database connection issue. Here's a general response to your query: \"'' @ q @ ''\".\<newline>\<newline>Please try again later or contact support if this issue persists.'' \<and>
   (method req = ''POST'' \<and> truthy (FIREWORKS_API_KEY e) \<and> truthy (MONGODB_URI e) \<and>
    body req = Fields p \<and> query p = Some q \<and> q \<noteq> [] \<longrightarrow>
      (case rag_step2 (embedding_now w) of
         Inl err \<Rightarrow>
           responses (rag_trace e w req c) =
             [Respond 200 (AnswerJson (Some (answer (generateFallbackResponse q))) [] True
                (Some (''Embedding failed: '' @ message err)))]
       | Inr v \<Rightarrow>
           if (cachedDb c = None \<and> \<not> is_Reachable (mongo_now w)) \<or> isl (stats_now w) \<or>
              isl (search_now w)
           then
             ChatRequest (rag_step5 True [] q) \<in> set (rag_trace e w req c) \<and>
             (case rag_chat (chat_now w) of
                Inl err \<Rightarrow>
                  responses (rag_trace e w req c) =
                    [Respond 500 (ErrorJson (''LLM API error: '' @ message err) None)]
              | Inr a \<Rightarrow>
                  responses (rag_trace e w req c) = [Respond 200 (AnswerJson a [] True None)])
           else
             (\<exists>docs. search_now w = Inr docs \<and>
                ChatRequest (rag_step5 False (rag_step4 docs) q) \<in> set (rag_trace e w req c) \<and>
                (case rag_chat (chat_now w) of
                   Inl err \<Rightarrow>
                     responses (rag_trace e w req c) =
                       [Respond 500 (ErrorJson (''LLM API error: '' @ message err) None)]
                 | Inr a \<Rightarrow>
                     (case to_sources docs of
                        Inl err \<Rightarrow>
                          responses (rag_trace e w req c) =
                            [Respond 500 (ErrorJson (''LLM API error: '' @ message err) None)]
                      | Inr ss \<Rightarrow>
                          responses (rag_trace e w req c) =
                            [Respond 200 (AnswerJson a ss False None)])))))"
proof (intro conjI impI)
  show "distinct (calls (rag_trace e w req c))" by (rule rag_calls_distinct)
next
  show "answer (generateFallbackResponse q) =
     ''I'm unable to search the knowledge base at the moment due to a database connection issue. Here's a general response to your query: \"'' @ q @ ''\".\<newline>\<newline>Please try again later or contact support if this issue persists.''"
    by (simp add: generateFallbackResponse_def)
next
  assume "method req = ''POST'' \<and> truthy (FIREWORKS_API_KEY e) \<and> truthy (MONGODB_URI e) \<and>
    body req = Fields p \<and> query p = Some q \<and> q \<noteq> []"
  then have eq: "rag_trace e w req c = fst (rag_steps e w (or_default (MONGODB_URI e) []) p q c)"
    by (simp add: rag_trace_post)
  show "case rag_step2 (embedding_now w) of
         Inl err \<Rightarrow>
           responses (rag_trace e w req c) =
             [Respond 200 (AnswerJson (Some (answer (generateFallbackResponse q))) [] True
                (Some (''Embedding failed: '' @ message err)))]
       | Inr v \<Rightarrow>
           if (cachedDb c = None \<and> \<not> is_Reachable (mongo_now w)) \<or> isl (stats_now w) \<or>
              isl (search_now w)
           then
             ChatRequest (rag_step5 True [] q) \<in> set (rag_trace e w req c) \<and>
             (case rag_chat (chat_now w) of
                Inl err \<Rightarrow>
                  responses (rag_trace e w req c) =
                    [Respond 500 (ErrorJson (''LLM API error: '' @ message err) None)]
              | Inr a \<Rightarrow>
                  responses (rag_trace e w req c) = [Respond 200 (AnswerJson a [] True None)])
           else
             (\<exists>docs. search_now w = Inr docs \<and>
                ChatRequest (rag_step5 False (rag_step4 docs) q) \<in> set (rag_trace e w req c) \<and>
                (case rag_chat (chat_now w) of
                   Inl err \<Rightarrow>
                     responses (rag_trace e w req c) =
                       [Respond 500 (ErrorJson (''LLM API error: '' @ message err) None)]
                 | Inr a \<Rightarrow>
                     (case to_sources docs of
                        Inl err \<Rightarrow>
                          responses (rag_trace e w req c) =
                            [Respond 500 (ErrorJson (''LLM API error: '' @ message err) None)]
                      | Inr ss \<Rightarrow>
                          responses (rag_trace e w req c) =
                            [Respond 200 (AnswerJson a ss False None)])))"
  proof (cases "rag_step2 (embedding_now w)")
    case (Inl err)
    then show ?thesis
      unfolding eq by (simp add: rag_steps_responses)
  next
    case (Inr v)
    from rag_steps_outcome [OF Inr refl, of c q e "or_default (MONGODB_URI e) []" p]
    obtain docs where docs: "if (cachedDb c = None \<and> \<not> is_Reachable (mongo_now w)) \<or>
          isl (stats_now w) \<or> isl (search_now w)
        then docs = [] else search_now w = Inr docs"
      and chat: "ChatRequest
          (rag_step5 ((cachedDb c = None \<and> \<not> is_Reachable (mongo_now w)) \<or> isl (stats_now w) \<or>
             isl (search_now w)) (rag_step4 docs) q) \<in> set (rag_trace e w req c)"
      and resp: "responses (rag_trace e w req c) =
          responses (rag_step6 w ((cachedDb c = None \<and> \<not> is_Reachable (mongo_now w)) \<or>
             isl (stats_now w) \<or> isl (search_now w)) docs q)"
      unfolding eq by blast
    show ?thesis
    proof (cases "(cachedDb c = None \<and> \<not> is_Reachable (mongo_now w)) \<or> isl (stats_now w) \<or>
        isl (search_now w)")
      case True
      with docs have d: "docs = []" by simp
      from chat True have "ChatRequest (rag_step5 True (rag_step4 docs) q) \<in> set (rag_trace e w req c)"
        by simp
      then have c1: "ChatRequest (rag_step5 True [] q) \<in> set (rag_trace e w req c)"
        by (simp add: step5_fallback [of "rag_step4 docs"])
      from resp True d
      have "responses (rag_trace e w req c) = responses (rag_step6 w True [] q)"
        by simp
      then have c2: "case rag_chat (chat_now w) of
            Inl err \<Rightarrow>
              responses (rag_trace e w req c) =
                [Respond 500 (ErrorJson (''LLM API error: '' @ message err) None)]
          | Inr a \<Rightarrow> responses (rag_trace e w req c) = [Respond 200 (AnswerJson a [] True None)]"
        by (simp add: step6_responses errorResponse_def truthy_def split: sum.splits)
      show ?thesis
        unfolding Inr sum.case if_P [OF True] by (rule conjI [OF c1 c2])
    next
      case False
      with docs have d: "search_now w = Inr docs" by simp
      from chat False
      have c1: "ChatRequest (rag_step5 False (rag_step4 docs) q) \<in> set (rag_trace e w req c)"
        by simp
      from resp False
      have "responses (rag_trace e w req c) = responses (rag_step6 w False docs q)"
        by simp
      then have c2: "case rag_chat (chat_now w) of
            Inl err \<Rightarrow>
              responses (rag_trace e w req c) =
                [Respond 500 (ErrorJson (''LLM API error: '' @ message err) None)]
          | Inr a \<Rightarrow>
              (case to_sources docs of
                 Inl err \<Rightarrow>
                   responses (rag_trace e w req c) =
                     [Respond 500 (ErrorJson (''LLM API error: '' @ message err) None)]
               | Inr ss \<Rightarrow>
                   responses (rag_trace e w req c) = [Respond 200 (AnswerJson a ss False None)])"
        by (simp add: step6_responses errorResponse_def truthy_def split: sum.splits)
      show ?thesis
        unfolding Inr sum.case if_not_P [OF False] by (intro exI [of _ docs] conjI d c1 c2)
    qed
  qed
qed

theorem failures_are_compensated_witness:
  "ChatRequest (rag_step5 True [] ''What is RAG?'')
     \<in> set (rag_trace sample_env sample_world_no_database sample_request empty_rag_cache) \<and>
   responses (rag_trace sample_env sample_world_no_database sample_request empty_rag_cache) =
     [Respond 200 (AnswerJson (Some ''RAG grounds a model in documents.'') [] True None)] \<and>
   distinct (calls (rag_trace sample_env sample_world_no_database sample_request empty_rag_cache))"
proof -
  have pre: "method sample_request = ''POST'' \<and> truthy (FIREWORKS_API_KEY sample_env) \<and>
      truthy (MONGODB_URI sample_env) \<and> body sample_request = Fields sample_params \<and>
      query sample_params = Some ''What is RAG?'' \<and> ''What is RAG?'' \<noteq> []"
    by (simp add: sample_env_def sample_request_def sample_params_def truthy_def)
  have v: "rag_step2 (embedding_now sample_world_no_database) = Inr (Some [0.25, 0.5])"
    by (simp add: rag_step2_def first_embedding_def sample_world_no_database_def sample_world_def)
  have down: "(cachedDb empty_rag_cache = None \<and>
       \<not> is_Reachable (mongo_now sample_world_no_database)) \<or>
      isl (stats_now sample_world_no_database) \<or> isl (search_now sample_world_no_database)"
    by (simp add: empty_rag_cache_def sample_world_no_database_def)
  have chat: "rag_chat (chat_now sample_world_no_database) =
      Inr (Some ''RAG grounds a model in documents.'')"
    by (simp add: rag_chat_def first_content_def sample_world_no_database_def sample_world_def)
  note t = failures_are_compensated_without_retry [of sample_env sample_world_no_database
      sample_request empty_rag_cache "''What is RAG?''" sample_params]
  from t [THEN conjunct2, THEN conjunct2, THEN mp, OF pre]
  have "ChatRequest (rag_step5 True [] ''What is RAG?'')
       \<in> set (rag_trace sample_env sample_world_no_database sample_request empty_rag_cache) \<and>
     responses (rag_trace sample_env sample_world_no_database sample_request empty_rag_cache) =
       [Respond 200 (AnswerJson (Some ''RAG grounds a model in documents.'') [] True None)]"
    by (simp only: v sum.case if_P [OF down] chat)
  with t [THEN conjunct1] show ?thesis by (simp only: simp_thms)
qed

text \<open>
  The claim as it is written fails: when the database cannot be reached and the
  embedding step succeeds, the handler does not fail. It logs the error, asks the
  model with the other prompt, and answers with status 200 and \<open>fallback\<close> true; the
  answer is the model's, not the text of \<open>generateFallbackResponse\<close>.
\<close>

theorem database_failure_is_compensated_too:
  "rag_step2 (embedding_now sample_world_no_database) = Inr (Some [0.25, 0.5]) \<and>
   rag_trace sample_env sample_world_no_database sample_request empty_rag_cache =
     [NewMongoClient ''mongodb://db.example/'', ClientConnect,
      ConsoleError ''MongoDB connection error: timeout'',
      ConsoleError ''MongoDB connection error: Failed to connect to MongoDB: timeout'',
      EmbeddingRequest ''nomic-ai/nomic-embed-text-v1.5'' ''What is RAG?'',
      ChatRequest (rag_step5 True [] ''What is RAG?''),
      Respond 200 (AnswerJson (Some ''RAG grounds a model in documents.'') [] True None)] \<and>
   ''RAG grounds a model in documents.'' \<noteq> answer (generateFallbackResponse ''What is RAG?'')"
proof (intro conjI)
  show "rag_step2 (embedding_now sample_world_no_database) = Inr (Some [0.25, 0.5])"
    by (simp add: rag_step2_def first_embedding_def sample_world_no_database_def sample_world_def)
  show "''RAG grounds a model in documents.'' \<noteq> answer (generateFallbackResponse ''What is RAG?'')"
    by (simp add: generateFallbackResponse_def)
qed (rule no_database_run)

lemma to_source_spec:
  "to_source d = Inr s \<Longrightarrow>
     \<exists>r. response d = Some r \<and>
       source_response s = (if length r \<le> 200 then r else take 200 r @ ''...'') \<and>
       source_instruction s = instruction d \<and> source_context s = context d \<and>
       source_score s = score d"
  by (auto simp: to_source_def substring_def split: option.splits)

lemma to_sources_spec:
  "to_sources ds = Inr ss \<Longrightarrow>
     length ss = length ds \<and> (\<forall>i<length ds. to_source (ds ! i) = Inr (ss ! i))"
proof (induction ds arbitrary: ss)
  case Nil
  then show ?case by simp
next
  case (Cons d ds)
  from Cons.prems obtain s ss' where s: "to_source d = Inr s" "to_sources ds = Inr ss'" "ss = s # ss'"
    by (auto split: sum.splits)
  from Cons.IH [OF s(2)] have ih: "length ss' = length ds"
    "\<forall>i<length ds. to_source (ds ! i) = Inr (ss' ! i)" by simp_all
  have "to_source ((d # ds) ! i) = Inr (ss ! i)" if "i < length (d # ds)" for i
    using that s ih by (cases i) simp_all
  with s ih show ?case by simp
qed

lemma rag_trace_early_answers:
  assumes "\<not> (method req = ''POST'' \<and> truthy (FIREWORKS_API_KEY e) \<and> truthy (MONGODB_URI e) \<and>
      (\<exists>p. body req = Fields p \<and> truthy (query p)))"
  shows "Respond 200 b \<notin> set (rag_trace e w req c)"
  using assms
  by (cases "body req")
    (auto simp: rag_trace_def rag_handler_def rag_try_def errorResponse_def split: prod.splits)

lemma in_responses: "Respond s b \<in> set tr \<longleftrightarrow> Respond s b \<in> set (responses tr)"
  by (simp add: responses_def)

lemma rag_steps_answer:
  assumes "Respond 200 (AnswerJson a ss fb None) \<in> set (fst (rag_steps e w uri p q c))"
  shows "\<exists>docs. (if fb then docs = [] else search_now w = Inr docs) \<and> to_sources docs = Inr ss"
proof -
  define coll where "coll = or_default (or_field (collectionName p) (MONGODB_COLLECTION e)) ''rag_collection''"
  from assms have m: "Respond 200 (AnswerJson a ss fb None) \<in> set (responses (fst (rag_steps e w uri p q c)))"
    by (rule in_responses [THEN iffD1])
  then obtain v where v: "rag_step2 (embedding_now w) = Inr v"
    by (cases "rag_step2 (embedding_now w)") (auto simp: rag_steps_responses)
  obtain docs fb' evs3 where s3: "rag_step3 w coll v (fst (rag_step1 e w uri coll c)) = (docs, fb', evs3)"
    by (metis prod_cases3)
  from m v s3 have "Respond 200 (AnswerJson a ss fb None) \<in> set (responses (rag_step6 w fb' docs q))"
    by (simp add: rag_steps_responses coll_def)
  then have "fb' = fb \<and> to_sources docs = Inr ss"
    by (auto simp: step6_responses errorResponse_def split: sum.splits)
  moreover from step3_events [OF s3] have "if fb' then docs = [] else search_now w = Inr docs"
    by (auto split: if_splits sum.splits)
  ultimately show ?thesis by auto
qed

lemma to_sources_total:
  "\<forall>d\<in>set ds. response d \<noteq> None \<Longrightarrow> \<exists>ss. to_sources ds = Inr ss"
proof (induction ds)
  case Nil
  then show ?case by simp
next
  case (Cons d ds)
  then obtain r ss where "response d = Some r" "to_sources ds = Inr ss"
    by auto
  then show ?case
    by (simp add: to_source_def)
qed

lemma sources_of_docs:
  assumes "to_sources docs = Inr ss"
  shows "length ss = length docs \<and>
     (\<forall>i<length docs. \<exists>r. response (docs ! i) = Some r \<and>
        source_response (ss ! i) = (if length r \<le> 200 then r else take 200 r @ ''...'') \<and>
        source_instruction (ss ! i) = instruction (docs ! i) \<and>
        source_context (ss ! i) = context (docs ! i) \<and>
        source_score (ss ! i) = score (docs ! i))"
proof -
  from to_sources_spec [OF assms] have len: "length ss = length docs"
    and each: "\<forall>i<length docs. to_source (docs ! i) = Inr (ss ! i)"
    by simp_all
  have "\<exists>r. response (docs ! i) = Some r \<and>
        source_response (ss ! i) = (if length r \<le> 200 then r else take 200 r @ ''...'') \<and>
        source_instruction (ss ! i) = instruction (docs ! i) \<and>
        source_context (ss ! i) = context (docs ! i) \<and>
        source_score (ss ! i) = score (docs ! i)" if "i < length docs" for i
    using each that by (intro to_source_spec) simp
  with len show ?thesis by simp
qed

lemma rag_answer_produced:
  assumes post: "method req = ''POST''" "truthy (FIREWORKS_API_KEY e)" "truthy (MONGODB_URI e)"
      "body req = Fields p" "query p = Some q" "q \<noteq> []"
    and v: "rag_step2 (embedding_now w) = Inr v"
    and a: "rag_chat (chat_now w) = Inr a"
    and up: "cachedDb c \<noteq> None \<or> is_Reachable (mongo_now w)" "\<not> isl (stats_now w)"
    and found: "search_now w = Inr found"
    and ss: "to_sources found = Inr ss"
  shows "responses (rag_trace e w req c) = [Respond 200 (AnswerJson a ss False None)]"
proof -
  from up found
  have F: "False = ((cachedDb c = None \<and> \<not> is_Reachable (mongo_now w)) \<or> isl (stats_now w) \<or>
      isl (search_now w))"
    by simp
  from rag_steps_outcome [OF v F, of q e "or_default (MONGODB_URI e) []" p]
  obtain docs where "search_now w = Inr docs"
    and resp: "responses (fst (rag_steps e w (or_default (MONGODB_URI e) []) p q c)) =
      responses (rag_step6 w False docs q)"
    by auto
  with found have "docs = found" by simp
  with resp a ss
  have "responses (fst (rag_steps e w (or_default (MONGODB_URI e) []) p q c)) =
      [Respond 200 (AnswerJson a ss False None)]"
    by (simp add: step6_responses)
  with rag_trace_post [OF post] show ?thesis by simp
qed

text \<open>
  Claim C9. A request to the RAG handler for which every step succeeds (the database
  is connected, \<open>stats()\<close>, the embedding step, the vector search and the chat call
  return, and every document found has a response) is answered once, with status 200,
  the answer of the chat call, \<open>fallback\<close> false and a list of sources that has one
  entry for each document of the search result, in the same order. The entry's
  response is the document's response when that has at most 200 characters and its
  first 200 characters followed by three dots otherwise; instruction, context and
  score are those of the document. And whenever the handler sends an answer (status
  200, no error text), its list of sources is made in that way from the search
  result, or is empty when \<open>fallback\<close> is set.
\<close>

theorem sources_truncated:
  "(method req = ''POST'' \<and> truthy (FIREWORKS_API_KEY e) \<and> truthy (MONGODB_URI e) \<and>
    body req = Fields p \<and> query p = Some q \<and> q \<noteq> [] \<and>
    rag_step2 (embedding_now w) = Inr v \<and> rag_chat (chat_now w) = Inr answered \<and>
    (cachedDb c \<noteq> None \<or> is_Reachable (mongo_now w)) \<and> \<not> isl (stats_now w) \<and>
    search_now w = Inr found \<and> (\<forall>d\<in>set found. response d \<noteq> None) \<longrightarrow>
      (\<exists>srcs. responses (rag_trace e w req c) = [Respond 200 (AnswerJson answered srcs False None)] \<and>
         length srcs = length found \<and>
         (\<forall>i<length found. \<exists>r. response (found ! i) = Some r \<and>
            source_response (srcs ! i) = (if length r \<le> 200 then r else take 200 r @ ''...'') \<and>
            source_instruction (srcs ! i) = instruction (found ! i) \<and>
            source_context (srcs ! i) = context (found ! i) \<and>
            source_score (srcs ! i) = score (found ! i)))) \<and>
   (Respond 200 (AnswerJson a ss fb None) \<in> set (rag_trace e w req c) \<longrightarrow>
      (\<exists>docs. (if fb then docs = [] else search_now w = Inr docs) \<and>
         length ss = length docs \<and>
         (\<forall>i<length docs. \<exists>r. response (docs ! i) = Some r \<and>
            source_response (ss ! i) = (if length r \<le> 200 then r else take 200 r @ ''...'') \<and>
            source_instruction (ss ! i) = instruction (docs ! i) \<and>
            source_context (ss ! i) = context (docs ! i) \<and>
            source_score (ss ! i) = score (docs ! i))))"
proof (intro conjI impI)
  assume all: "method req = ''POST'' \<and> truthy (FIREWORKS_API_KEY e) \<and> truthy (MONGODB_URI e) \<and>
    body req = Fields p \<and> query p = Some q \<and> q \<noteq> [] \<and>
    rag_step2 (embedding_now w) = Inr v \<and> rag_chat (chat_now w) = Inr answered \<and>
    (cachedDb c \<noteq> None \<or> is_Reachable (mongo_now w)) \<and> \<not> isl (stats_now w) \<and>
    search_now w = Inr found \<and> (\<forall>d\<in>set found. response d \<noteq> None)"
  then have "\<forall>d\<in>set found. response d \<noteq> None" by (elim conjE)
  from to_sources_total [OF this] obtain srcs where srcs: "to_sources found = Inr srcs" ..
  from all have "responses (rag_trace e w req c) = [Respond 200 (AnswerJson answered srcs False None)]"
    by (elim conjE) (rule rag_answer_produced [OF _ _ _ _ _ _ _ _ _ _ _ srcs])
  with sources_of_docs [OF srcs]
  show "\<exists>srcs. responses (rag_trace e w req c) = [Respond 200 (AnswerJson answered srcs False None)] \<and>
         length srcs = length found \<and>
         (\<forall>i<length found. \<exists>r. response (found ! i) = Some r \<and>
            source_response (srcs ! i) = (if length r \<le> 200 then r else take 200 r @ ''...'') \<and>
            source_instruction (srcs ! i) = instruction (found ! i) \<and>
            source_context (srcs ! i) = context (found ! i) \<and>
            source_score (srcs ! i) = score (found ! i))"
    by (intro exI [of _ srcs]) simp
next
  assume sent: "Respond 200 (AnswerJson a ss fb None) \<in> set (rag_trace e w req c)"
  have "method req = ''POST'' \<and> truthy (FIREWORKS_API_KEY e) \<and> truthy (MONGODB_URI e) \<and>
      (\<exists>p. body req = Fields p \<and> truthy (query p))"
  proof (rule ccontr)
    assume "\<not> ?thesis"
    from rag_trace_early_answers [OF this] sent show False by simp
  qed
  then obtain p' where p: "method req = ''POST''" "truthy (FIREWORKS_API_KEY e)"
    "truthy (MONGODB_URI e)" "body req = Fields p'" "truthy (query p')"
    by auto
  from truthy_Some [OF p(5)] obtain q' where q: "query p' = Some q'" "q' \<noteq> []"
    by auto
  from rag_trace_post [OF p(1-4) q] sent
  have "Respond 200 (AnswerJson a ss fb None)
      \<in> set (fst (rag_steps e w (or_default (MONGODB_URI e) []) p' q' c))"
    by simp
  from rag_steps_answer [OF this]
  obtain docs where d: "if fb then docs = [] else search_now w = Inr docs"
    "to_sources docs = Inr ss"
    by auto
  with sources_of_docs [OF d(2)]
  show "\<exists>docs. (if fb then docs = [] else search_now w = Inr docs) \<and>
         length ss = length docs \<and>
         (\<forall>i<length docs. \<exists>r. response (docs ! i) = Some r \<and>
            source_response (ss ! i) = (if length r \<le> 200 then r else take 200 r @ ''...'') \<and>
            source_instruction (ss ! i) = instruction (docs ! i) \<and>
            source_context (ss ! i) = context (docs ! i) \<and>
            source_score (ss ! i) = score (docs ! i))"
    by (intro exI [of _ docs]) simp
qed

theorem sources_truncated_witness:
  "\<exists>srcs. responses (rag_trace sample_env sample_world sample_request empty_rag_cache) =
       [Respond 200 (AnswerJson (Some ''RAG grounds a model in documents.'') srcs False None)] \<and>
     length srcs = 2 \<and>
     source_response (srcs ! 0) = ''Retrieval-augmented generation.'' \<and>
     source_instruction (srcs ! 0) = Some ''Define RAG'' \<and>
     source_response (srcs ! 1) = replicate 200 CHR ''a'' @ ''...'' \<and>
     source_context (srcs ! 1) = None"
proof -
  have pre: "method sample_request = ''POST'' \<and> truthy (FIREWORKS_API_KEY sample_env) \<and>
      truthy (MONGODB_URI sample_env) \<and> body sample_request = Fields sample_params \<and>
      query sample_params = Some ''What is RAG?'' \<and> ''What is RAG?'' \<noteq> [] \<and>
      rag_step2 (embedding_now sample_world) = Inr (Some [0.25, 0.5]) \<and>
      rag_chat (chat_now sample_world) = Inr (Some ''RAG grounds a model in documents.'') \<and>
      (cachedDb empty_rag_cache \<noteq> None \<or> is_Reachable (mongo_now sample_world)) \<and>
      \<not> isl (stats_now sample_world) \<and>
      search_now sample_world = Inr [short_doc, long_doc] \<and>
      (\<forall>d\<in>set [short_doc, long_doc]. response d \<noteq> None)"
    by (simp add: sample_env_def sample_request_def sample_params_def truthy_def
        sample_world_def rag_step2_def first_embedding_def rag_chat_def first_content_def
        short_doc_def long_doc_def)
  from sources_truncated [where e = sample_env and w = sample_world and req = sample_request
      and c = empty_rag_cache and p = sample_params and q = "''What is RAG?''"
      and v = "Some [0.25, 0.5]" and answered = "Some ''RAG grounds a model in documents.''"
      and found = "[short_doc, long_doc]", THEN conjunct1, THEN mp, OF pre]
  obtain srcs where sent: "responses (rag_trace sample_env sample_world sample_request empty_rag_cache) =
       [Respond 200 (AnswerJson (Some ''RAG grounds a model in documents.'') srcs False None)]"
    and len: "length srcs = length [short_doc, long_doc]"
    and each: "\<forall>i<length [short_doc, long_doc].
       \<exists>r. response ([short_doc, long_doc] ! i) = Some r \<and>
         source_response (srcs ! i) = (if length r \<le> 200 then r else take 200 r @ ''...'') \<and>
         source_instruction (srcs ! i) = instruction ([short_doc, long_doc] ! i) \<and>
         source_context (srcs ! i) = context ([short_doc, long_doc] ! i) \<and>
         source_score (srcs ! i) = score ([short_doc, long_doc] ! i)"
    by - (erule exE, elim conjE, rule that)
  from each [rule_format, of 0]
  have first: "source_response (srcs ! 0) = ''Retrieval-augmented generation.'' \<and>
      source_instruction (srcs ! 0) = Some ''Define RAG''"
    by (simp add: short_doc_def)
  from each [rule_format, of 1]
  have second: "source_response (srcs ! 1) = replicate 200 CHR ''a'' @ ''...'' \<and>
      source_context (srcs ! 1) = None"
    by (simp add: long_doc_def)
  from len have "length srcs = 2" by simp
  with sent first second show ?thesis
    by (intro exI [of _ srcs]) (simp only: simp_thms)
qed

section \<open>Properties of the connection cache\<close>

lemma connect_cached:
  "cachedDb c = Some d \<Longrightarrow> connectToDatabase e m uri c = (Inr d, [], c)"
  by (simp add: connectToDatabase_unfold)

lemma connect_success:
  "connectToDatabase e m uri c = (Inr d, evs, c') \<Longrightarrow> cachedDb c' = Some d"
  by (auto simp: connectToDatabase_unfold Let_def split: option.splits mongo.splits)

lemma connect_calls_cached:
  "cachedDb c = Some d \<Longrightarrow> connect_calls e cs c = (map (\<lambda>_. (Inr d, [])) cs, c)"
  by (induction cs arbitrary: c) (auto simp: connect_cached)

lemma connect_calls_sticky:
  "connect_calls e cs c = (rs, c') \<Longrightarrow> i < length rs \<Longrightarrow> fst (rs ! i) = Inr d \<Longrightarrow>
     cachedDb c' = Some d \<and> (\<forall>j. i < j \<and> j < length rs \<longrightarrow> rs ! j = (Inr d, []))"
proof (induction cs arbitrary: c rs i c')
  case Nil
  then show ?case by simp
next
  case (Cons call cs)
  obtain m uri where call: "call = (m, uri)" by (cases call)
  obtain r evs c1 where one: "connectToDatabase e m uri c = (r, evs, c1)"
    by (metis prod_cases3)
  obtain rs1 c2 where rest: "connect_calls e cs c1 = (rs1, c2)"
    by (cases "connect_calls e cs c1")
  from Cons.prems(1) call one rest have rs: "rs = (r, evs) # rs1" and c': "c' = c2"
    by simp_all
  show ?case
  proof (cases i)
    case 0
    with Cons.prems(3) rs have "r = Inr d" by simp
    with one have "cachedDb c1 = Some d" by (simp add: connect_success)
    from connect_calls_cached [OF this, of e cs] rest
    have "rs1 = map (\<lambda>_. (Inr d, [])) cs" "c2 = c1" by simp_all
    with \<open>cachedDb c1 = Some d\<close> rs c' 0 show ?thesis
      by (auto simp: nth_Cons split: nat.splits)
  next
    case (Suc k)
    with Cons.prems rs have "k < length rs1" "fst (rs1 ! k) = Inr d" by simp_all
    from Cons.IH [OF rest this] Suc rs c' show ?thesis
      by (auto simp: nth_Cons split: nat.splits)
  qed
qed

lemma plain_cached:
  "cachedDb c = Some d \<Longrightarrow> connectToDatabase_plain n m uri c = (Inr d, [], c)"
  by (simp add: connectToDatabase_plain_unfold)

lemma plain_success:
  "connectToDatabase_plain n m uri c = (Inr d, evs, c') \<Longrightarrow> cachedDb c' = Some d"
  by (auto simp: connectToDatabase_plain_unfold Let_def split: option.splits mongo.splits)

lemma plain_calls_cached:
  "cachedDb c = Some d \<Longrightarrow> connect_calls_plain n cs c = (map (\<lambda>_. (Inr d, [])) cs, c)"
  by (induction cs arbitrary: c) (auto simp: plain_cached)

lemma plain_calls_sticky:
  "connect_calls_plain n cs c = (rs, c') \<Longrightarrow> i < length rs \<Longrightarrow> fst (rs ! i) = Inr d \<Longrightarrow>
     cachedDb c' = Some d \<and> (\<forall>j. i < j \<and> j < length rs \<longrightarrow> rs ! j = (Inr d, []))"
proof (induction cs arbitrary: c rs i c')
  case Nil
  then show ?case by simp
next
  case (Cons call cs)
  obtain m uri where call: "call = (m, uri)" by (cases call)
  obtain r evs c1 where one: "connectToDatabase_plain n m uri c = (r, evs, c1)"
    by (metis prod_cases3)
  obtain rs1 c2 where rest: "connect_calls_plain n cs c1 = (rs1, c2)"
    by (cases "connect_calls_plain n cs c1")
  from Cons.prems(1) call one rest have rs: "rs = (r, evs) # rs1" and c': "c' = c2"
    by simp_all
  show ?case
  proof (cases i)
    case 0
    with Cons.prems(3) rs have "r = Inr d" by simp
    with one have "cachedDb c1 = Some d" by (simp add: plain_success)
    from plain_calls_cached [OF this, of n cs] rest
    have "rs1 = map (\<lambda>_. (Inr d, [])) cs" "c2 = c1" by simp_all
    with \<open>cachedDb c1 = Some d\<close> rs c' 0 show ?thesis
      by (auto simp: nth_Cons split: nat.splits)
  next
    case (Suc k)
    with Cons.prems rs have "k < length rs1" "fst (rs1 ! k) = Inr d" by simp_all
    from Cons.IH [OF rest this] Suc rs c' show ?thesis
      by (auto simp: nth_Cons split: nat.splits)
  qed
qed

lemma rag_handler_keeps_cache:
  "cachedDb c = Some d \<Longrightarrow> cachedDb (snd (snd (rag_handler e w req c))) = Some d"
  by (auto simp: rag_handler_def rag_try_def rag_steps_def rag_step1_def connect_cached Let_def
      split: prod.splits sum.splits req_body.splits)

lemma status_handler_keeps_cache:
  "cachedDb c = Some d \<Longrightarrow> cachedDb (snd (snd (status_handler e w req c))) = Some d"
  by (auto simp: status_handler_def status_try_def plain_cached
      split: prod.splits sum.splits)

lemma kag_handler_keeps_cache:
  "cachedDb c = Some d \<Longrightarrow> cachedDb (snd (snd (kag_handler f e w req c))) = Some d"
  by (auto simp: kag_handler_def kag_try_def plain_cached Let_def
      split: prod.splits sum.splits)

subsection \<open>Calls that overlap\<close>

lemma connect_acts_append:
  "connect_acts e (xs @ ys) c =
     (case connect_acts e xs c of
        (rs, c') \<Rightarrow> (case connect_acts e ys c' of (rs', c'') \<Rightarrow> (rs @ rs', c'')))"
  by (induction xs arbitrary: c) (simp_all split: prod.splits)

lemma connect_acts_length: "length (fst (connect_acts e acts c)) = length acts"
proof (induction acts arbitrary: c)
  case Nil
  then show ?case by simp
next
  case (Cons a acts)
  obtain r c1 where one: "connect_act e a c = (r, c1)"
    by (cases "connect_act e a c")
  obtain rs c2 where rest: "connect_acts e acts c1 = (rs, c2)"
    by (cases "connect_acts e acts c1")
  from Cons.IH [of c1] one rest show ?case by simp
qed

lemma begin_cached: "cachedDb c = Some d \<Longrightarrow> connect_begin m uri c = (Some (Inr d), [])"
  by (simp add: connect_begin_def)

lemma acts_begin_cached:
  assumes i: "i < length acts" and b: "acts ! i = Begin m uri"
    and d: "cachedDb (snd (connect_acts e (take i acts) c)) = Some d"
  shows "fst (connect_acts e acts c) ! i = (Some (Inr d), [])"
proof -
  obtain rs c1 where pre: "connect_acts e (take i acts) c = (rs, c1)"
    by (cases "connect_acts e (take i acts) c")
  obtain rs' c2 where post: "connect_acts e (drop (Suc i) acts) c1 = (rs', c2)"
    by (cases "connect_acts e (drop (Suc i) acts) c1")
  from pre connect_acts_length [of e "take i acts" c] i have len: "length rs = i"
    by simp
  from pre d have "cachedDb c1 = Some d" by simp
  then have one: "connect_act e (Begin m uri) c1 = ((Some (Inr d), []), c1)"
    by (simp add: connect_act_def begin_cached)
  from id_take_nth_drop [OF i] have "acts = take i acts @ Begin m uri # drop (Suc i) acts"
    unfolding b .
  then have "connect_acts e acts c = connect_acts e (take i acts @ Begin m uri # drop (Suc i) acts) c"
    by simp
  also from pre one post have "\<dots> = (rs @ (Some (Inr d), []) # rs', c2)"
    by (simp add: connect_acts_append)
  finally show ?thesis
    using len by (simp add: nth_append)
qed

lemma resume_keeps:
  "cachedDb c \<noteq> None \<Longrightarrow> cachedDb (snd (snd (connect_resume e m c))) \<noteq> None"
  by (cases m) (simp_all add: connect_resume_def Let_def)

lemma act_keeps: "cachedDb c \<noteq> None \<Longrightarrow> cachedDb (snd (connect_act e a c)) \<noteq> None"
proof (cases a)
  case (Begin m uri)
  assume "cachedDb c \<noteq> None"
  with Begin show ?thesis by (simp add: connect_act_def)
next
  case (Resume m)
  assume "cachedDb c \<noteq> None"
  from resume_keeps [OF this, of e m] Resume show ?thesis
    by (cases "connect_resume e m c") (simp add: connect_act_def)
qed

lemma acts_keep: "cachedDb c \<noteq> None \<Longrightarrow> cachedDb (snd (connect_acts e acts c)) \<noteq> None"
proof (induction acts arbitrary: c)
  case Nil
  then show ?case by simp
next
  case (Cons a acts)
  obtain r c1 where one: "connect_act e a c = (r, c1)"
    by (cases "connect_act e a c")
  obtain rs c2 where rest: "connect_acts e acts c1 = (rs, c2)"
    by (cases "connect_acts e acts c1")
  from one act_keeps [OF Cons.prems, of e a] have "cachedDb c1 \<noteq> None" by simp
  from Cons.IH [OF this] one rest show ?case
    by simp
qed

lemma connect_acts_plain_append:
  "connect_acts_plain n (xs @ ys) c =
     (case connect_acts_plain n xs c of
        (rs, c') \<Rightarrow> (case connect_acts_plain n ys c' of (rs', c'') \<Rightarrow> (rs @ rs', c'')))"
  by (induction xs arbitrary: c) (simp_all split: prod.splits)

lemma connect_acts_plain_length: "length (fst (connect_acts_plain n acts c)) = length acts"
proof (induction acts arbitrary: c)
  case Nil
  then show ?case by simp
next
  case (Cons a acts)
  obtain r c1 where one: "connect_act_plain n a c = (r, c1)"
    by (cases "connect_act_plain n a c")
  obtain rs c2 where rest: "connect_acts_plain n acts c1 = (rs, c2)"
    by (cases "connect_acts_plain n acts c1")
  from Cons.IH [of c1] one rest show ?case by simp
qed

lemma plain_acts_begin_cached:
  assumes i: "i < length acts" and b: "acts ! i = Begin m uri"
    and d: "cachedDb (snd (connect_acts_plain n (take i acts) c)) = Some d"
  shows "fst (connect_acts_plain n acts c) ! i = (Some (Inr d), [])"
proof -
  obtain rs c1 where pre: "connect_acts_plain n (take i acts) c = (rs, c1)"
    by (cases "connect_acts_plain n (take i acts) c")
  obtain rs' c2 where post: "connect_acts_plain n (drop (Suc i) acts) c1 = (rs', c2)"
    by (cases "connect_acts_plain n (drop (Suc i) acts) c1")
  from pre connect_acts_plain_length [of n "take i acts" c] i have len: "length rs = i"
    by simp
  from pre d have "cachedDb c1 = Some d" by simp
  then have one: "connect_act_plain n (Begin m uri) c1 = ((Some (Inr d), []), c1)"
    by (simp add: connect_act_plain_def begin_cached)
  from id_take_nth_drop [OF i] have "acts = take i acts @ Begin m uri # drop (Suc i) acts"
    unfolding b .
  then have "connect_acts_plain n acts c =
      connect_acts_plain n (take i acts @ Begin m uri # drop (Suc i) acts) c"
    by simp
  also from pre one post have "\<dots> = (rs @ (Some (Inr d), []) # rs', c2)"
    by (simp add: connect_acts_plain_append)
  finally show ?thesis
    using len by (simp add: nth_append)
qed

lemma plain_resume_keeps:
  "cachedDb c \<noteq> None \<Longrightarrow> cachedDb (snd (snd (connect_resume_plain n m c))) \<noteq> None"
  by (cases m) (simp_all add: connect_resume_plain_def Let_def)

lemma plain_act_keeps: "cachedDb c \<noteq> None \<Longrightarrow> cachedDb (snd (connect_act_plain n a c)) \<noteq> None"
proof (cases a)
  case (Begin m uri)
  assume "cachedDb c \<noteq> None"
  with Begin show ?thesis by (simp add: connect_act_plain_def)
next
  case (Resume m)
  assume "cachedDb c \<noteq> None"
  from plain_resume_keeps [OF this, of n m] Resume show ?thesis
    by (cases "connect_resume_plain n m c") (simp add: connect_act_plain_def)
qed

lemma plain_acts_keep:
  "cachedDb c \<noteq> None \<Longrightarrow> cachedDb (snd (connect_acts_plain n acts c)) \<noteq> None"
proof (induction acts arbitrary: c)
  case Nil
  then show ?case by simp
next
  case (Cons a acts)
  obtain r c1 where one: "connect_act_plain n a c = (r, c1)"
    by (cases "connect_act_plain n a c")
  obtain rs c2 where rest: "connect_acts_plain n acts c1 = (rs, c2)"
    by (cases "connect_acts_plain n acts c1")
  from one plain_act_keeps [OF Cons.prems, of n a] have "cachedDb c1 \<noteq> None" by simp
  from Cons.IH [OF this] one rest show ?case
    by simp
qed

lemma only_resume_stores:
  assumes "\<forall>x. a \<noteq> Resume (Reachable x)"
  shows "snd (connect_act e a c) = c" "snd (connect_act_plain n a p) = p"
proof -
  show "snd (connect_act e a c) = c"
  proof (cases a)
    case (Begin m uri)
    then show ?thesis by (simp add: connect_act_def)
  next
    case (Resume m)
    with assms show ?thesis
      by (cases m) (simp_all add: connect_act_def connect_resume_def)
  qed
  show "snd (connect_act_plain n a p) = p"
  proof (cases a)
    case (Begin m uri)
    then show ?thesis by (simp add: connect_act_plain_def)
  next
    case (Resume m)
    with assms show ?thesis
      by (cases m) (simp_all add: connect_act_plain_def connect_resume_plain_def)
  qed
qed

subsection \<open>Sample runs\<close>

lemma sample_calls_run:
  "connect_calls sample_env sample_calls empty_rag_cache =
     ([(Inl (Error ''Failed to connect to MongoDB: timeout''),
        [NewMongoClient ''mongodb://db.example/'', ClientConnect,
         ConsoleError ''MongoDB connection error: timeout'']),
       (Inr \<lparr>db_client = 7, db_name = ''ragDatabase''\<rparr>,
        [NewMongoClient ''mongodb://db.example/'', ClientConnect]),
       (Inr \<lparr>db_client = 7, db_name = ''ragDatabase''\<rparr>, []),
       (Inr \<lparr>db_client = 7, db_name = ''ragDatabase''\<rparr>, [])],
      \<lparr>cachedDb = Some \<lparr>db_client = 7, db_name = ''ragDatabase''\<rparr>, cachedClient = Some 7\<rparr>)"
  by (simp add: sample_calls_def sample_env_def empty_rag_cache_def connectToDatabase_unfold
      or_default_def Let_def)

lemma sample_calls_plain_run:
  "connect_calls_plain ''kag-database'' sample_calls empty_cache =
     ([(Inl (Error ''timeout''), [NewMongoClient ''mongodb://db.example/'', ClientConnect]),
       (Inr \<lparr>db_client = 7, db_name = ''kag-database''\<rparr>,
        [NewMongoClient ''mongodb://db.example/'', ClientConnect]),
       (Inr \<lparr>db_client = 7, db_name = ''kag-database''\<rparr>, []),
       (Inr \<lparr>db_client = 7, db_name = ''kag-database''\<rparr>, [])],
      \<lparr>cachedDb = Some \<lparr>db_client = 7, db_name = ''kag-database''\<rparr>\<rparr>)"
  by (simp add: sample_calls_def empty_cache_def connectToDatabase_plain_unfold Let_def)

lemma overlapping_run:
  "connect_acts sample_env overlapping_calls empty_rag_cache =
     ([(None, [NewMongoClient ''mongodb://db.example/'', ClientConnect]),
       (None, [NewMongoClient ''mongodb://db.example/'', ClientConnect]),
       (Some (Inr \<lparr>db_client = 1, db_name = ''ragDatabase''\<rparr>), []),
       (Some (Inr \<lparr>db_client = 2, db_name = ''ragDatabase''\<rparr>), []),
       (Some (Inr \<lparr>db_client = 2, db_name = ''ragDatabase''\<rparr>), [])],
      \<lparr>cachedDb = Some \<lparr>db_client = 2, db_name = ''ragDatabase''\<rparr>, cachedClient = Some 2\<rparr>)"
  by (simp add: overlapping_calls_def sample_env_def empty_rag_cache_def connect_act_def
      connect_begin_def connect_resume_def or_default_def Let_def)

lemma overlapping_prefixes:
  "cachedDb (snd (connect_acts sample_env (take 3 overlapping_calls) empty_rag_cache)) =
     Some \<lparr>db_client = 1, db_name = ''ragDatabase''\<rparr>"
  "cachedDb (snd (connect_acts sample_env (take 4 overlapping_calls) empty_rag_cache)) =
     Some \<lparr>db_client = 2, db_name = ''ragDatabase''\<rparr>"
  by (simp_all add: overlapping_calls_def sample_env_def empty_rag_cache_def connect_act_def
      connect_begin_def connect_resume_def or_default_def Let_def)

lemma overlapping_plain_run:
  "connect_acts_plain ''kag-database'' overlapping_calls empty_cache =
     ([(None, [NewMongoClient ''mongodb://db.example/'', ClientConnect]),
       (None, [NewMongoClient ''mongodb://db.example/'', ClientConnect]),
       (Some (Inr \<lparr>db_client = 1, db_name = ''kag-database''\<rparr>), []),
       (Some (Inr \<lparr>db_client = 2, db_name = ''kag-database''\<rparr>), []),
       (Some (Inr \<lparr>db_client = 2, db_name = ''kag-database''\<rparr>), [])],
      \<lparr>cachedDb = Some \<lparr>db_client = 2, db_name = ''kag-database''\<rparr>\<rparr>)"
  by (simp add: overlapping_calls_def empty_cache_def connect_act_plain_def
      connect_begin_def connect_resume_plain_def Let_def)

lemma overlapping_plain_prefixes:
  "cachedDb (snd (connect_acts_plain ''kag-database'' (take 3 overlapping_calls) empty_cache)) =
     Some \<lparr>db_client = 1, db_name = ''kag-database''\<rparr>"
  "cachedDb (snd (connect_acts_plain ''kag-database'' (take 4 overlapping_calls) empty_cache)) =
     Some \<lparr>db_client = 2, db_name = ''kag-database''\<rparr>"
  by (simp_all add: overlapping_calls_def empty_cache_def connect_act_plain_def
      connect_begin_def connect_resume_plain_def Let_def)

text \<open>
  Claim C3, as the code has it, for \<open>connectToDatabase\<close> of api/rag.js and for the one
  of api/mongodb-status.js and api/kag.js.

  \<^item> In a sequence of calls that do not overlap, once a call has returned a database
    handle, every later call returns that handle and does nothing else: no client is
    built and none is connected. The cache holds that handle at the end.

  \<^item> When calls overlap, a call that begins while a handle is cached returns that
    handle and does nothing else; and a cache that holds a handle is never emptied.

  \<^item> A call that resumes after its \<open>connect\<close> stores its own handle, whatever the cache
    holds then. Nothing else changes the cache: not the beginning of a call, and not
    the resumption of a call whose \<open>connect\<close> failed.

  \<^item> A run of a handler that finds a handle cached leaves it there.
\<close>

theorem cached_handle_is_returned_to_later_calls:
  "(connect_calls e cs c = (rs, c') \<and> i < length rs \<and> fst (rs ! i) = Inr d \<longrightarrow>
      cachedDb c' = Some d \<and> (\<forall>j. i < j \<and> j < length rs \<longrightarrow> rs ! j = (Inr d, []))) \<and>
   (connect_calls_plain n cs p = (rs', p') \<and> i' < length rs' \<and> fst (rs' ! i') = Inr d' \<longrightarrow>
      cachedDb p' = Some d' \<and> (\<forall>j. i' < j \<and> j < length rs' \<longrightarrow> rs' ! j = (Inr d', []))) \<and>
   (k < length acts \<and> acts ! k = Begin m uri \<and>
    cachedDb (snd (connect_acts e (take k acts) c)) = Some h \<longrightarrow>
      fst (connect_acts e acts c) ! k = (Some (Inr h), [])) \<and>
   (k' < length acts \<and> acts ! k' = Begin m' uri' \<and>
    cachedDb (snd (connect_acts_plain n (take k' acts) p)) = Some h' \<longrightarrow>
      fst (connect_acts_plain n acts p) ! k' = (Some (Inr h'), [])) \<and>
   (cachedDb c0 \<noteq> None \<longrightarrow> cachedDb (snd (connect_acts e acts c0)) \<noteq> None) \<and>
   (cachedDb p0 \<noteq> None \<longrightarrow> cachedDb (snd (connect_acts_plain n acts p0)) \<noteq> None) \<and>
   connect_resume e (Reachable x) c0 =
     (Inr \<lparr>db_client = x, db_name = or_default (MONGODB_DB_NAME e) ''ragDatabase''\<rparr>, [],
      c0\<lparr>cachedClient := Some x,
         cachedDb := Some \<lparr>db_client = x,
                            db_name = or_default (MONGODB_DB_NAME e) ''ragDatabase''\<rparr>\<rparr>) \<and>
   connect_resume_plain n (Reachable x) p0 =
     (Inr \<lparr>db_client = x, db_name = n\<rparr>, [], p0\<lparr>cachedDb := Some \<lparr>db_client = x, db_name = n\<rparr>\<rparr>) \<and>
   (cachedDb c0 = Some d0 \<longrightarrow> cachedDb (snd (snd (rag_handler e w req c0))) = Some d0) \<and>
   (cachedDb p0 = Some d1 \<longrightarrow>
      cachedDb (snd (snd (status_handler e sw sreq p0))) = Some d1 \<and>
      cachedDb (snd (snd (kag_handler f e kw kreq p0))) = Some d1) \<and>
   ((\<forall>y. a \<noteq> Resume (Reachable y)) \<longrightarrow>
      snd (connect_act e a c0) = c0 \<and> snd (connect_act_plain n a p0) = p0)"
proof (intro conjI impI)
  assume "connect_calls e cs c = (rs, c') \<and> i < length rs \<and> fst (rs ! i) = Inr d"
  then show "cachedDb c' = Some d" "\<forall>j. i < j \<and> j < length rs \<longrightarrow> rs ! j = (Inr d, [])"
    using connect_calls_sticky [of e cs c rs c' i d] by blast+
next
  assume "connect_calls_plain n cs p = (rs', p') \<and> i' < length rs' \<and> fst (rs' ! i') = Inr d'"
  then show "cachedDb p' = Some d'" "\<forall>j. i' < j \<and> j < length rs' \<longrightarrow> rs' ! j = (Inr d', [])"
    using plain_calls_sticky [of n cs p rs' p' i' d'] by blast+
next
  assume "k < length acts \<and> acts ! k = Begin m uri \<and>
    cachedDb (snd (connect_acts e (take k acts) c)) = Some h"
  then show "fst (connect_acts e acts c) ! k = (Some (Inr h), [])"
    by (elim conjE) (rule acts_begin_cached)
next
  assume "k' < length acts \<and> acts ! k' = Begin m' uri' \<and>
    cachedDb (snd (connect_acts_plain n (take k' acts) p)) = Some h'"
  then show "fst (connect_acts_plain n acts p) ! k' = (Some (Inr h'), [])"
    by (elim conjE) (rule plain_acts_begin_cached)
next
  assume "cachedDb c0 \<noteq> None"
  then show "cachedDb (snd (connect_acts e acts c0)) \<noteq> None" by (rule acts_keep)
next
  assume "cachedDb p0 \<noteq> None"
  then show "cachedDb (snd (connect_acts_plain n acts p0)) \<noteq> None" by (rule plain_acts_keep)
next
  show "connect_resume e (Reachable x) c0 =
     (Inr \<lparr>db_client = x, db_name = or_default (MONGODB_DB_NAME e) ''ragDatabase''\<rparr>, [],
      c0\<lparr>cachedClient := Some x,
         cachedDb := Some \<lparr>db_client = x,
                            db_name = or_default (MONGODB_DB_NAME e) ''ragDatabase''\<rparr>\<rparr>)"
    by (simp add: connect_resume_def Let_def)
next
  show "connect_resume_plain n (Reachable x) p0 =
     (Inr \<lparr>db_client = x, db_name = n\<rparr>, [], p0\<lparr>cachedDb := Some \<lparr>db_client = x, db_name = n\<rparr>\<rparr>)"
    by (simp add: connect_resume_plain_def Let_def)
next
  assume "cachedDb c0 = Some d0"
  then show "cachedDb (snd (snd (rag_handler e w req c0))) = Some d0"
    by (rule rag_handler_keeps_cache)
next
  assume p0: "cachedDb p0 = Some d1"
  then show "cachedDb (snd (snd (status_handler e sw sreq p0))) = Some d1"
    by (rule status_handler_keeps_cache)
  from p0 show "cachedDb (snd (snd (kag_handler f e kw kreq p0))) = Some d1"
    by (rule kag_handler_keeps_cache)
next
  assume a: "\<forall>y. a \<noteq> Resume (Reachable y)"
  then show "snd (connect_act e a c0) = c0" by (rule only_resume_stores)
  from a show "snd (connect_act_plain n a p0) = p0" by (rule only_resume_stores)
qed

theorem cached_handle_witness:
  "fst (connect_calls sample_env sample_calls empty_rag_cache) ! 3 =
     (Inr \<lparr>db_client = 7, db_name = ''ragDatabase''\<rparr>, []) \<and>
   fst (connect_calls_plain ''kag-database'' sample_calls empty_cache) ! 3 =
     (Inr \<lparr>db_client = 7, db_name = ''kag-database''\<rparr>, []) \<and>
   fst (connect_acts sample_env overlapping_calls empty_rag_cache) ! 4 =
     (Some (Inr \<lparr>db_client = 2, db_name = ''ragDatabase''\<rparr>), []) \<and>
   fst (connect_acts_plain ''kag-database'' overlapping_calls empty_cache) ! 4 =
     (Some (Inr \<lparr>db_client = 2, db_name = ''kag-database''\<rparr>), []) \<and>
   cachedDb (snd (connect_acts sample_env overlapping_calls filled_rag_cache)) \<noteq> None \<and>
   cachedDb (snd (connect_acts_plain ''kag-database'' overlapping_calls filled_cache)) \<noteq> None \<and>
   cachedDb (snd (snd (rag_handler sample_env sample_world sample_request filled_rag_cache))) =
     Some \<lparr>db_client = 9, db_name = ''ragDatabase''\<rparr> \<and>
   cachedDb (snd (snd (status_handler sample_env sample_status_world sample_status_request
     filled_cache))) = Some \<lparr>db_client = 9, db_name = ''kag-database''\<rparr> \<and>
   cachedDb (snd (snd (kag_handler sample_parseInt sample_env sample_kag_world sample_kag_request
     filled_cache))) = Some \<lparr>db_client = 9, db_name = ''kag-database''\<rparr> \<and>
   snd (connect_act sample_env (Resume (Unreachable (Error ''timeout''))) filled_rag_cache) =
     filled_rag_cache \<and>
   snd (connect_act_plain ''kag-database'' (Resume (Unreachable (Error ''timeout''))) filled_cache) =
     filled_cache"
proof -
  note t = cached_handle_is_returned_to_later_calls
    [where e = sample_env and cs = sample_calls and c = empty_rag_cache
      and rs = "fst (connect_calls sample_env sample_calls empty_rag_cache)"
      and c' = "snd (connect_calls sample_env sample_calls empty_rag_cache)"
      and i = 1 and d = "\<lparr>db_client = 7, db_name = ''ragDatabase''\<rparr>"
      and n = "''kag-database''" and p = empty_cache
      and rs' = "fst (connect_calls_plain ''kag-database'' sample_calls empty_cache)"
      and p' = "snd (connect_calls_plain ''kag-database'' sample_calls empty_cache)"
      and i' = 1 and d' = "\<lparr>db_client = 7, db_name = ''kag-database''\<rparr>"
      and k = 4 and acts = overlapping_calls and m = "Reachable 3"
      and uri = "''mongodb://db.example/''"
      and h = "\<lparr>db_client = 2, db_name = ''ragDatabase''\<rparr>"
      and k' = 4 and m' = "Reachable 3" and uri' = "''mongodb://db.example/''"
      and h' = "\<lparr>db_client = 2, db_name = ''kag-database''\<rparr>"
      and ?c0.0 = filled_rag_cache and ?p0.0 = filled_cache
      and ?d0.0 = "\<lparr>db_client = 9, db_name = ''ragDatabase''\<rparr>"
      and ?d1.0 = "\<lparr>db_client = 9, db_name = ''kag-database''\<rparr>"
      and w = sample_world and req = sample_request and sw = sample_status_world
      and sreq = sample_status_request and f = sample_parseInt and kw = sample_kag_world
      and kreq = sample_kag_request and a = "Resume (Unreachable (Error ''timeout''))"]
  note t1 = t [THEN conjunct1]
  note u1 = t [THEN conjunct2]
  note t2 = u1 [THEN conjunct1]
  note u2 = u1 [THEN conjunct2]
  note t3 = u2 [THEN conjunct1]
  note u3 = u2 [THEN conjunct2]
  note t4 = u3 [THEN conjunct1]
  note u4 = u3 [THEN conjunct2]
  note t5 = u4 [THEN conjunct1]
  note u5 = u4 [THEN conjunct2]
  note t6 = u5 [THEN conjunct1]
  note u8 = u5 [THEN conjunct2, THEN conjunct2, THEN conjunct2]
  note t9 = u8 [THEN conjunct1]
  note t10 = u8 [THEN conjunct2, THEN conjunct1]
  note t11 = u8 [THEN conjunct2, THEN conjunct2]
  have "connect_calls sample_env sample_calls empty_rag_cache =
      (fst (connect_calls sample_env sample_calls empty_rag_cache),
       snd (connect_calls sample_env sample_calls empty_rag_cache)) \<and>
      1 < length (fst (connect_calls sample_env sample_calls empty_rag_cache)) \<and>
      fst (fst (connect_calls sample_env sample_calls empty_rag_cache) ! 1) =
        Inr \<lparr>db_client = 7, db_name = ''ragDatabase''\<rparr>"
    by (simp add: sample_calls_run)
  from t1 [THEN mp, OF this]
  have r1: "fst (connect_calls sample_env sample_calls empty_rag_cache) ! 3 =
     (Inr \<lparr>db_client = 7, db_name = ''ragDatabase''\<rparr>, [])"
    by (simp add: sample_calls_run)
  have "connect_calls_plain ''kag-database'' sample_calls empty_cache =
      (fst (connect_calls_plain ''kag-database'' sample_calls empty_cache),
       snd (connect_calls_plain ''kag-database'' sample_calls empty_cache)) \<and>
      1 < length (fst (connect_calls_plain ''kag-database'' sample_calls empty_cache)) \<and>
      fst (fst (connect_calls_plain ''kag-database'' sample_calls empty_cache) ! 1) =
        Inr \<lparr>db_client = 7, db_name = ''kag-database''\<rparr>"
    by (simp add: sample_calls_plain_run)
  from t2 [THEN mp, OF this]
  have r2: "fst (connect_calls_plain ''kag-database'' sample_calls empty_cache) ! 3 =
     (Inr \<lparr>db_client = 7, db_name = ''kag-database''\<rparr>, [])"
    by (simp add: sample_calls_plain_run)
  have "4 < length overlapping_calls \<and>
      overlapping_calls ! 4 = Begin (Reachable 3) ''mongodb://db.example/'' \<and>
      cachedDb (snd (connect_acts sample_env (take 4 overlapping_calls) empty_rag_cache)) =
        Some \<lparr>db_client = 2, db_name = ''ragDatabase''\<rparr>"
    by (simp add: overlapping_prefixes) (simp add: overlapping_calls_def)
  note r3 = t3 [THEN mp, OF this]
  have "4 < length overlapping_calls \<and>
      overlapping_calls ! 4 = Begin (Reachable 3) ''mongodb://db.example/'' \<and>
      cachedDb (snd (connect_acts_plain ''kag-database'' (take 4 overlapping_calls) empty_cache)) =
        Some \<lparr>db_client = 2, db_name = ''kag-database''\<rparr>"
    by (simp add: overlapping_plain_prefixes) (simp add: overlapping_calls_def)
  note r4 = t4 [THEN mp, OF this]
  have full: "cachedDb filled_rag_cache \<noteq> None"
    by (simp add: filled_rag_cache_def)
  note r5 = t5 [THEN mp, OF full]
  have pfull: "cachedDb filled_cache \<noteq> None"
    by (simp add: filled_cache_def)
  note r6 = t6 [THEN mp, OF pfull]
  have "cachedDb filled_rag_cache = Some \<lparr>db_client = 9, db_name = ''ragDatabase''\<rparr>"
    by (simp add: filled_rag_cache_def)
  note r9 = t9 [THEN mp, OF this]
  have "cachedDb filled_cache = Some \<lparr>db_client = 9, db_name = ''kag-database''\<rparr>"
    by (simp add: filled_cache_def)
  note r10 = t10 [THEN mp, OF this]
  have "\<forall>y. Resume (Unreachable (Error ''timeout'')) \<noteq> Resume (Reachable y)"
    by simp
  note r11 = t11 [THEN mp, OF this]
  from r1 r2 r3 r4 r5 r6 r9 r10 r11 show ?thesis
    by (intro conjI) (simp_all only: simp_thms)
qed

text \<open>
  The claim as it is written fails when calls overlap. Two calls begin while the cache
  is empty, so each builds a client. The first to resume stores its handle; the second
  then stores its own over it, and a later call is given the second handle.
\<close>

theorem overlapping_calls_replace_the_handle:
  "fst (connect_acts sample_env overlapping_calls empty_rag_cache) =
     [(None, [NewMongoClient ''mongodb://db.example/'', ClientConnect]),
      (None, [NewMongoClient ''mongodb://db.example/'', ClientConnect]),
      (Some (Inr \<lparr>db_client = 1, db_name = ''ragDatabase''\<rparr>), []),
      (Some (Inr \<lparr>db_client = 2, db_name = ''ragDatabase''\<rparr>), []),
      (Some (Inr \<lparr>db_client = 2, db_name = ''ragDatabase''\<rparr>), [])] \<and>
   cachedDb (snd (connect_acts sample_env (take 3 overlapping_calls) empty_rag_cache)) =
     Some \<lparr>db_client = 1, db_name = ''ragDatabase''\<rparr> \<and>
   cachedDb (snd (connect_acts sample_env (take 4 overlapping_calls) empty_rag_cache)) =
     Some \<lparr>db_client = 2, db_name = ''ragDatabase''\<rparr> \<and>
   fst (connect_acts_plain ''kag-database'' overlapping_calls empty_cache) =
     [(None, [NewMongoClient ''mongodb://db.example/'', ClientConnect]),
      (None, [NewMongoClient ''mongodb://db.example/'', ClientConnect]),
      (Some (Inr \<lparr>db_client = 1, db_name = ''kag-database''\<rparr>), []),
      (Some (Inr \<lparr>db_client = 2, db_name = ''kag-database''\<rparr>), []),
      (Some (Inr \<lparr>db_client = 2, db_name = ''kag-database''\<rparr>), [])] \<and>
   cachedDb (snd (connect_acts_plain ''kag-database'' (take 3 overlapping_calls) empty_cache)) =
     Some \<lparr>db_client = 1, db_name = ''kag-database''\<rparr> \<and>
   cachedDb (snd (connect_acts_plain ''kag-database'' (take 4 overlapping_calls) empty_cache)) =
     Some \<lparr>db_client = 2, db_name = ''kag-database''\<rparr>"
  by (simp add: overlapping_run overlapping_prefixes overlapping_plain_run
      overlapping_plain_prefixes)

section \<open>Properties of the streaming endpoint\<close>

lemma stream_events_eq:
  "stream_events b =
     map (\<lambda>chunk. Write (''data: '' @ chunk @ ''\<newline>\<newline>'')) (chunks b)
       @ (case ending b of
            None \<Rightarrow> []
          | Some Ends \<Rightarrow> [Write ''data: [DONE]\<newline>\<newline>'', End]
          | Some (Fails err) \<Rightarrow>
              [ConsoleError (''Stream error: '' @ message err), WriteError (message err), End])"
proof -
  have "concat (map on_data cs) = map (\<lambda>chunk. Write (''data: '' @ chunk @ ''\<newline>\<newline>'')) cs" for cs
    by (induction cs) (simp_all add: on_data_def)
  then show ?thesis
    by (simp add: stream_events_def on_end_def on_error_def split: option.splits ending.splits)
qed

text \<open>
  Claim C4. The listeners of the streaming endpoint write, for each chunk that the
  upstream body emits, one text: \<open>data: \<close>, the chunk's string content and two newlines;
  chunks are neither split nor merged. When the upstream body ends they write
  \<open>data: [DONE]\<close> with two newlines and end the response. So a POST request with a
  usable body and an API key, whose upstream response is \<open>ok\<close> and ends, produces the
  forwarded request, one write per chunk in order, the closing write and the end.
\<close>

theorem chunks_are_framed_one_by_one:
  "stream_events b =
     map (\<lambda>chunk. Write (''data: '' @ chunk @ ''\<newline>\<newline>'')) (chunks b)
       @ (case ending b of
            None \<Rightarrow> []
          | Some Ends \<Rightarrow> [Write ''data: [DONE]\<newline>\<newline>'', End]
          | Some (Fails err) \<Rightarrow>
              [ConsoleError (''Stream error: '' @ message err), WriteError (message err), End]) \<and>
   (method req = ''POST'' \<and> (\<forall>m. body req \<noteq> InvalidJson m) \<and> truthy (FIREWORKS_API_KEY e) \<longrightarrow>
      snd (streaming_handler e (UpOk \<lparr>chunks = cs, ending = Some Ends\<rparr>) req) =
        ChatForward (body req)
          # map (\<lambda>chunk. Write (''data: '' @ chunk @ ''\<newline>\<newline>'')) cs
          @ [Write ''data: [DONE]\<newline>\<newline>'', End])"
proof (intro conjI impI)
  show "stream_events b =
     map (\<lambda>chunk. Write (''data: '' @ chunk @ ''\<newline>\<newline>'')) (chunks b)
       @ (case ending b of
            None \<Rightarrow> []
          | Some Ends \<Rightarrow> [Write ''data: [DONE]\<newline>\<newline>'', End]
          | Some (Fails err) \<Rightarrow>
              [ConsoleError (''Stream error: '' @ message err), WriteError (message err), End])"
    by (rule stream_events_eq)
next
  assume a: "method req = ''POST'' \<and> (\<forall>m. body req \<noteq> InvalidJson m) \<and> truthy (FIREWORKS_API_KEY e)"
  then have "streaming_try e (UpOk \<lparr>chunks = cs, ending = Some Ends\<rparr>) req =
      (Inr [ChatForward (body req)], Some \<lparr>chunks = cs, ending = Some Ends\<rparr>)"
    by (cases "body req") (simp_all add: streaming_try_def)
  with a show "snd (streaming_handler e (UpOk \<lparr>chunks = cs, ending = Some Ends\<rparr>) req) =
        ChatForward (body req)
          # map (\<lambda>chunk. Write (''data: '' @ chunk @ ''\<newline>\<newline>'')) cs
          @ [Write ''data: [DONE]\<newline>\<newline>'', End]"
    by (simp add: streaming_handler_def stream_events_eq)
qed

theorem chunks_framed_witness:
  "snd (streaming_handler sample_env
          (UpOk \<lparr>chunks = [''{\"a\":1}'', ''tail''], ending = Some Ends\<rparr>) sample_chat) =
     [ChatForward Nullish, Write ''data: {\"a\":1}\<newline>\<newline>'', Write ''data: tail\<newline>\<newline>'',
      Write ''data: [DONE]\<newline>\<newline>'', End]"
  using chunks_are_framed_one_by_one [where e = sample_env and req = sample_chat
      and cs = "[''{\"a\":1}'', ''tail'']"]
  by (simp add: sample_env_def sample_chat_def truthy_def)

section \<open>Properties of retrieval\<close>

lemma queries_simps [simp]:
  "queries [] = []"
  "queries (xs @ ys) = queries xs @ queries ys"
  "queries (ev # tr) = (if is_query ev then ev # queries tr else queries tr)"
  by (simp_all add: queries_def)

lemma errorResponse_query [simp]: "\<not> is_query (errorResponse s m d)"
  by (simp add: errorResponse_def)

lemma step1_queries:
  "rag_step1 e w uri coll c = (fb, evs, c') \<Longrightarrow> queries evs = []"
  by (auto simp: rag_step1_def connectToDatabase_unfold Let_def
      split: prod.splits sum.splits option.splits mongo.splits)

lemma step3_queries:
  "rag_step3 w coll v fb = (docs, fb', evs) \<Longrightarrow>
     queries evs = (if fb then [] else [Aggregate coll (vector_pipeline v)])"
  by (auto simp: rag_step3_def split: sum.splits if_splits)

lemma step6_queries: "queries (rag_step6 w fb docs q) = []"
  by (auto simp: rag_step6_def split: sum.splits)

lemma rag_steps_queries:
  "queries (fst (rag_steps e w uri p q c)) = [] \<or>
   (\<exists>coll v. rag_step2 (embedding_now w) = Inr v \<and>
      queries (fst (rag_steps e w uri p q c)) = [Aggregate coll (vector_pipeline v)])"
proof -
  obtain fb1 evs1 c' where s1: "rag_step1 e w uri
      (or_default (or_field (collectionName p) (MONGODB_COLLECTION e)) ''rag_collection'') c
      = (fb1, evs1, c')"
    by (metis prod_cases3)
  note q1 = step1_queries [OF s1]
  show ?thesis
  proof (cases "rag_step2 (embedding_now w)")
    case (Inl err)
    with rag_steps_shape [OF s1, of q] q1 show ?thesis by simp
  next
    case (Inr v)
    obtain docs fb evs3 where s3: "rag_step3 w
        (or_default (or_field (collectionName p) (MONGODB_COLLECTION e)) ''rag_collection'')
        v fb1 = (docs, fb, evs3)"
      by (metis prod_cases3)
    from Inr rag_steps_shape [OF s1, of q] s3 q1 step3_queries [OF s3] step6_queries [of w fb docs q]
    show ?thesis by auto
  qed
qed

lemma rag_steps_one_query:
  assumes "Respond 200 (AnswerJson a ss False None) \<in> set (fst (rag_steps e w uri p q c))"
  shows "length (queries (fst (rag_steps e w uri p q c))) = 1"
proof -
  define coll where "coll = or_default (or_field (collectionName p) (MONGODB_COLLECTION e)) ''rag_collection''"
  obtain fb1 evs1 c' where s1: "rag_step1 e w uri coll c = (fb1, evs1, c')"
    by (metis prod_cases3)
  note q1 = step1_queries [OF s1]
  from assms have m: "Respond 200 (AnswerJson a ss False None)
      \<in> set (responses (fst (rag_steps e w uri p q c)))"
    by (rule in_responses [THEN iffD1])
  then obtain v where v: "rag_step2 (embedding_now w) = Inr v"
    by (cases "rag_step2 (embedding_now w)") (auto simp: rag_steps_responses)
  obtain docs fb' evs3 where s3: "rag_step3 w coll v fb1 = (docs, fb', evs3)"
    by (metis prod_cases3)
  from m v s1 s3 have "Respond 200 (AnswerJson a ss False None)
      \<in> set (responses (rag_step6 w fb' docs q))"
    by (simp add: rag_steps_responses coll_def)
  then have "\<not> fb'"
    by (auto simp: step6_responses errorResponse_def split: sum.splits)
  with step3_events [OF s3] have "\<not> fb1" by (auto split: if_splits)
  with v rag_steps_shape [OF s1 [unfolded coll_def], of q] s3 q1 step3_queries [OF s3]
    step6_queries [of w fb' docs q]
  show ?thesis by (simp add: coll_def)
qed

lemma rag_queries:
  "queries (rag_trace e w req c) = [] \<or>
   (\<exists>coll v. rag_step2 (embedding_now w) = Inr v \<and>
      queries (rag_trace e w req c) =
        [Aggregate coll
           (KnnBeta ''vector_index'' v ''embedding'' 5,
            [(''_id'', Exclude), (''instruction'', Include), (''context'', Include),
             (''response'', Include), (''score'', Meta ''searchScore'')])])"
proof (cases "method req = ''POST'' \<and> truthy (FIREWORKS_API_KEY e) \<and> truthy (MONGODB_URI e) \<and>
      (\<exists>p. body req = Fields p \<and> truthy (query p))")
  case True
  then obtain p q where "body req = Fields p" "query p = Some q" "q \<noteq> []"
    using truthy_Some by blast
  with True rag_trace_post [of req e p q w c]
    rag_steps_queries [of e w "or_default (MONGODB_URI e) []" p q c]
  show ?thesis by (auto simp: vector_pipeline_def)
next
  case False
  then have "queries (rag_trace e w req c) = []"
    by (cases "body req")
      (auto simp: rag_trace_def rag_handler_def rag_try_def split: prod.splits)
  then show ?thesis by simp
qed

lemma rag_answer_one_query:
  assumes "Respond 200 (AnswerJson a ss False None) \<in> set (rag_trace e w req c)"
  shows "\<exists>docs. search_now w = Inr docs \<and> to_sources docs = Inr ss \<and>
     length (queries (rag_trace e w req c)) = 1"
proof -
  have "method req = ''POST'' \<and> truthy (FIREWORKS_API_KEY e) \<and> truthy (MONGODB_URI e) \<and>
      (\<exists>p. body req = Fields p \<and> truthy (query p))"
  proof (rule ccontr)
    assume "\<not> ?thesis"
    from rag_trace_early_answers [OF this] assms show False by simp
  qed
  then obtain p where p: "method req = ''POST''" "truthy (FIREWORKS_API_KEY e)"
    "truthy (MONGODB_URI e)" "body req = Fields p" "truthy (query p)"
    by auto
  from truthy_Some [OF p(5)] obtain q where q: "query p = Some q" "q \<noteq> []"
    by auto
  note eq = rag_trace_post [OF p(1-4) q, of w c]
  from assms have m: "Respond 200 (AnswerJson a ss False None)
      \<in> set (fst (rag_steps e w (or_default (MONGODB_URI e) []) p q c))"
    unfolding eq .
  from rag_steps_answer [OF m] rag_steps_one_query [OF m] show ?thesis
    unfolding eq by auto
qed

lemma kag_validate_queries:
  "kag_validate e req = Inl (evs, err) \<Longrightarrow> evs = []"
  "kag_validate e req = Inr (Inl evs) \<Longrightarrow> queries evs = [] \<and> (\<forall>b. Respond 200 b \<notin> set evs)"
  "kag_validate e req = Inr (Inr (p, q)) \<Longrightarrow>
     body req = Fields p \<and> kag_query p = JString q \<and> q \<noteq> []"
  by (auto simp: kag_validate_def js_truthy_def
      split: if_splits req_body.splits jsval.splits)

lemma kag_search_queries:
  "queries (kag_search_trace e w req) = [] \<or>
   (\<exists>p q. body req = Fields p \<and> kag_query p = JString q \<and>
      queries (kag_search_trace e w req) =
        [Find ''examples'' (TextFind q (Meta ''textScore'') (Meta ''textScore'')
           (if js_truthy (maxResults p) then maxResults p else JNumber 3))])"
proof (cases "kag_validate e req")
  case (Inl thrown)
  then show ?thesis
    by (cases thrown)
      (auto simp: kag_search_trace_def kag_search_handler_def kag_search_try_def kag_catch_def
        dest: kag_validate_queries(1))
next
  case (Inr r)
  show ?thesis
  proof (cases r)
    case (Inl evs)
    with Inr kag_validate_queries(2) [of e req evs] show ?thesis
      by (auto simp: kag_search_trace_def kag_search_handler_def kag_search_try_def kag_catch_def)
  next
    case (Inr pq)
    obtain p q where pq: "pq = (p, q)" by (cases pq)
    with Inr \<open>kag_validate e req = Inr r\<close> have v: "kag_validate e req = Inr (Inr (p, q))" by simp
    from kag_validate_queries(3) [OF v] have b: "body req = Fields p" "kag_query p = JString q"
      by simp_all
    have "queries (kag_search_trace e w req) = [] \<or>
        queries (kag_search_trace e w req) =
          [Find ''examples'' (TextFind q (Meta ''textScore'') (Meta ''textScore'')
             (if js_truthy (maxResults p) then maxResults p else JNumber 3))]"
      using v
      by (auto simp: kag_search_trace_def kag_search_handler_def kag_search_try_def kag_catch_def
          text_search_def max_results_def Let_def split: mongo.splits sum.splits)
    with b show ?thesis by blast
  qed
qed

lemma kag_search_answer:
  assumes "Respond 200 b \<in> set (kag_search_trace e w req)"
  shows "\<exists>examples. find_now w = Inr examples \<and> b = ExamplesJson examples \<and>
     length (queries (kag_search_trace e w req)) = 1"
proof (cases "kag_validate e req")
  case (Inl thrown)
  with assms show ?thesis
    by (cases thrown)
      (auto simp: kag_search_trace_def kag_search_handler_def kag_search_try_def kag_catch_def
        split: if_splits dest: kag_validate_queries(1))
next
  case (Inr r)
  show ?thesis
  proof (cases r)
    case (Inl evs)
    with Inr kag_validate_queries(2) [of e req evs] assms show ?thesis
      by (auto simp: kag_search_trace_def kag_search_handler_def kag_search_try_def kag_catch_def
          split: if_splits)
  next
    case (Inr pq)
    obtain p q where pq: "pq = (p, q)" by (cases pq)
    with Inr \<open>kag_validate e req = Inr r\<close> have v: "kag_validate e req = Inr (Inr (p, q))" by simp
    with assms show ?thesis
      by (auto simp: kag_search_trace_def kag_search_handler_def kag_search_try_def kag_catch_def
          Let_def split: mongo.splits sum.splits if_splits)
  qed
qed

lemma kag_validate_string:
  assumes "truthy (MONGODB_URI e)" "body req = Fields p" "kag_query p = JString q" "q \<noteq> []"
  shows "kag_validate e req = Inr (Inr (p, q))"
  using assms by (simp add: kag_validate_def js_truthy_def)

lemma kag_search_returns_results:
  assumes "method req = ''POST''" "MONGODB_URI e = Some uri" "uri \<noteq> []"
    and "body req = Fields p" "kag_query p = JString q" "q \<noteq> []"
    and "kag_mongo w = Reachable client" "find_now w = Inr examples" "close_now w = Inr ()"
  shows "kag_search_trace e w req =
     [NewMongoClient uri, ClientConnect,
      Find ''examples'' (TextFind q (Meta ''textScore'') (Meta ''textScore'')
         (if js_truthy (maxResults p) then maxResults p else JNumber 3)),
      ClientClose, Respond 200 (ExamplesJson examples)]"
proof -
  from assms have "kag_validate e req = Inr (Inr (p, q))"
    by (intro kag_validate_string) (simp_all add: truthy_def)
  with assms show ?thesis
    by (simp add: kag_search_trace_def kag_search_handler_def kag_search_try_def kag_catch_def
        text_search_def max_results_def or_default_def Let_def)
qed

lemma plain_queries:
  "connectToDatabase_plain n m uri c = (r, evs, c') \<Longrightarrow>
     queries evs = [] \<and> (\<forall>s b. Respond s b \<notin> set evs)"
  by (auto simp: connectToDatabase_plain_unfold Let_def split: option.splits mongo.splits)

lemma kag_queries:
  "queries (kag_trace f e w req c) = [] \<or>
   (\<exists>coll p q. body req = Fields p \<and> kag_query p = JString q \<and>
      queries (kag_trace f e w req c) =
        [Find coll (TextFind q (Meta ''textScore'') (Meta ''textScore'')
           (f (if js_truthy (maxResults p) then maxResults p else JNumber 3)))])"
proof (cases "kag_validate e req")
  case (Inl thrown)
  then show ?thesis
    by (cases thrown)
      (auto simp: kag_trace_def kag_handler_def kag_try_def kag_catch_def
        dest: kag_validate_queries(1))
next
  case (Inr r)
  show ?thesis
  proof (cases r)
    case (Inl evs)
    with Inr kag_validate_queries(2) [of e req evs] show ?thesis
      by (auto simp: kag_trace_def kag_handler_def kag_try_def kag_catch_def)
  next
    case (Inr pq)
    obtain p q where pq: "pq = (p, q)" by (cases pq)
    with Inr \<open>kag_validate e req = Inr r\<close> have v: "kag_validate e req = Inr (Inr (p, q))" by simp
    from kag_validate_queries(3) [OF v] have b: "body req = Fields p" "kag_query p = JString q"
      by simp_all
    obtain r1 evs1 c1 where con: "connectToDatabase_plain (or_default (MONGODB_DB_NAME e) ''kag-database'')
                     (kag_mongo w) (or_default (MONGODB_URI e) []) c = (r1, evs1, c1)"
      by (metis prod_cases3)
    from plain_queries [OF con] have q1: "queries evs1 = []" by simp
    have "queries (kag_trace f e w req c) = [] \<or>
        (\<exists>coll. queries (kag_trace f e w req c) =
          [Find coll (TextFind q (Meta ''textScore'') (Meta ''textScore'')
             (f (if js_truthy (maxResults p) then maxResults p else JNumber 3)))])"
      using v con q1
      by (auto simp: kag_trace_def kag_handler_def kag_try_def kag_catch_def
          text_search_def max_results_def Let_def split: sum.splits)
    with b show ?thesis by blast
  qed
qed

lemma kag_never_answers:
  "Respond 200 b \<notin> set (kag_trace f e w req c)"
proof (cases "kag_validate e req")
  case (Inl thrown)
  then show ?thesis
    by (cases thrown)
      (auto simp: kag_trace_def kag_handler_def kag_try_def kag_catch_def
        split: if_splits dest: kag_validate_queries(1))
next
  case (Inr r)
  show ?thesis
  proof (cases r)
    case (Inl evs)
    with Inr kag_validate_queries(2) [of e req evs] show ?thesis
      by (auto simp: kag_trace_def kag_handler_def kag_try_def kag_catch_def split: if_splits)
  next
    case (Inr pq)
    obtain p q where pq: "pq = (p, q)" by (cases pq)
    with Inr \<open>kag_validate e req = Inr r\<close> have v: "kag_validate e req = Inr (Inr (p, q))" by simp
    obtain r1 evs1 c1 where con: "connectToDatabase_plain (or_default (MONGODB_DB_NAME e) ''kag-database'')
                     (kag_mongo w) (or_default (MONGODB_URI e) []) c = (r1, evs1, c1)"
      by (metis prod_cases3)
    from plain_queries [OF con] have q1: "\<And>s b. Respond s b \<notin> set evs1"
      by simp
    from v con q1 show ?thesis
      by (auto simp: kag_trace_def kag_handler_def kag_try_def kag_catch_def
          Let_def split: sum.splits if_splits)
  qed
qed

lemma sample_kag_search_run:
  "kag_search_trace sample_env sample_kag_world sample_kag_request =
     [NewMongoClient ''mongodb://db.example/'', ClientConnect,
      Find ''examples'' (TextFind ''What is RAG?'' (Meta ''textScore'') (Meta ''textScore'')
        (JNumber 3)),
      ClientClose, Respond 200 (ExamplesJson sample_examples)]"
  by (simp add: kag_search_trace_def kag_search_handler_def kag_search_try_def kag_catch_def
      kag_validate_def text_search_def max_results_def sample_env_def sample_kag_world_def
      sample_kag_request_def sample_kag_params_def truthy_def js_truthy_def or_default_def Let_def)

lemma sample_kag_run:
  "kag_trace sample_parseInt sample_env sample_kag_world sample_kag_request empty_cache =
     [NewMongoClient ''mongodb://db.example/'', ClientConnect,
      Find ''examples'' (TextFind ''What is RAG?'' (Meta ''textScore'') (Meta ''textScore'')
        (JNumber 3)),
      ConsoleError ''Function error: formatKagExamples is not a function'',
      Respond 500 (ErrorMessageJson ''Internal Server Error'' ''formatKagExamples is not a function'')]"
  by (simp add: kag_trace_def kag_handler_def kag_try_def kag_catch_def
      kag_validate_def text_search_def max_results_def sample_env_def sample_kag_world_def
      sample_kag_request_def sample_kag_params_def sample_parseInt_def truthy_def js_truthy_def
      or_default_def Let_def connectToDatabase_plain_unfold empty_cache_def)

text \<open>
  Claim C6 and api/kag.js. The RAG endpoint and api/kag-search.js send one query and
  answer with what the database returned, in its order (the lemmas above). api/kag.js
  sends the same text query as api/kag-search.js and the database returns the
  examples. Then the handler calls \<open>formatKagExamples\<close>, a name that it takes from the
  module of api/kag-search.js, where it is not defined; the call throws, and the
  request is answered with status 500 and no examples.
\<close>

theorem kag_endpoint_returns_no_results:
  "find_now sample_kag_world = Inr sample_examples \<and>
   kag_trace sample_parseInt sample_env sample_kag_world sample_kag_request empty_cache =
     [NewMongoClient ''mongodb://db.example/'', ClientConnect,
      Find ''examples'' (TextFind ''What is RAG?'' (Meta ''textScore'') (Meta ''textScore'')
        (JNumber 3)),
      ConsoleError ''Function error: formatKagExamples is not a function'',
      Respond 500 (ErrorMessageJson ''Internal Server Error'' ''formatKagExamples is not a function'')] \<and>
   kag_search_trace sample_env sample_kag_world sample_kag_request =
     [NewMongoClient ''mongodb://db.example/'', ClientConnect,
      Find ''examples'' (TextFind ''What is RAG?'' (Meta ''textScore'') (Meta ''textScore'')
        (JNumber 3)),
      ClientClose, Respond 200 (ExamplesJson sample_examples)]"
proof (intro conjI)
  show "find_now sample_kag_world = Inr sample_examples"
    by (simp add: sample_kag_world_def)
qed (rule sample_kag_run, rule sample_kag_search_run)

section \<open>Error handling of the handlers\<close>

lemma statuses_simps [simp]:
  "statuses [] = []"
  "statuses (xs @ ys) = statuses xs @ statuses ys"
  "statuses (ev # tr) = (case status_of ev of None \<Rightarrow> statuses tr | Some s \<Rightarrow> s # statuses tr)"
  by (simp_all add: statuses_def map_filter_append List.map_filter_simps split: option.splits)

lemma logged_simps [simp]:
  "logged [] = False"
  "logged (xs @ ys) = (logged xs \<or> logged ys)"
  "logged (ev # tr) = (is_ConsoleError ev \<or> logged tr)"
  by (auto simp: logged_def list_ex_iff)

lemma errorResponse_status [simp]:
  "status_of (errorResponse s m d) = Some s" "\<not> is_ConsoleError (errorResponse s m d)"
  by (simp_all add: errorResponse_def)

lemma statuses_responses: "statuses (responses tr) = statuses tr"
proof (induction tr)
  case Nil
  then show ?case by (simp add: responses_def)
next
  case (Cons ev tr)
  then show ?case by (cases ev) (simp_all add: responses_def)
qed

lemma statuses_single: "responses tr = [Respond s b] \<Longrightarrow> statuses tr = [s]"
  using statuses_responses [of tr] by simp

lemma rag_early_table:
  assumes "\<not> (method req = ''POST'' \<and> truthy (FIREWORKS_API_KEY e) \<and> truthy (MONGODB_URI e) \<and>
      (\<exists>p. body req = Fields p \<and> truthy (query p)))"
  shows "rag_trace e w req c =
     (if method req = ''OPTIONS'' then [Respond 204 NoContent]
      else if method req \<noteq> ''POST'' then [Respond 405 (ErrorJson ''Method Not Allowed'' None)]
      else if \<not> (truthy (FIREWORKS_API_KEY e) \<and> truthy (MONGODB_URI e)) then
        [ConsoleError ''Missing required environment variables'',
         Respond 500 (ErrorJson ''Configuration error: Missing API keys or MongoDB URI'' None)]
      else (case body req of
          InvalidJson m \<Rightarrow>
            [ConsoleError (''Failed to parse request body: '' @ m),
             Respond 400 (ErrorJson ''Invalid JSON in request body'' (if m = [] then None else Some m))]
        | Nullish \<Rightarrow>
            [ConsoleError ''Function error: Cannot destructure property 'query' of 'requestBody' as it is undefined.'',
             Respond 500 (ErrorJson ''Internal Server Error''
               (Some ''Cannot destructure property 'query' of 'requestBody' as it is undefined.''))]
        | Fields p \<Rightarrow> [Respond 400 (ErrorJson ''Missing query parameter'' None)]))"
  using assms
  by (cases "body req")
    (auto simp: rag_trace_def rag_handler_def rag_try_def errorResponse_def truthy_def)

lemma step1_logged:
  "rag_step1 e w uri coll c = (fb, evs, c') \<Longrightarrow>
     (fb \<longrightarrow> logged evs) \<and>
     ((cachedDb c = None \<and> \<not> is_Reachable (mongo_now w)) \<or> isl (stats_now w) \<longrightarrow> fb)"
  by (auto simp: rag_step1_def connectToDatabase_unfold Let_def
      split: prod.splits sum.splits option.splits mongo.splits)

lemma step3_logged:
  "rag_step3 w coll v fb = (docs, fb', evs) \<Longrightarrow> \<not> fb \<Longrightarrow> isl (search_now w) \<Longrightarrow> logged evs"
  by (auto simp: rag_step3_def split: sum.splits)

lemma step6_table:
  "case rag_chat (chat_now w) of
     Inl err \<Rightarrow> statuses (rag_step6 w fb docs q) = [500] \<and> logged (rag_step6 w fb docs q)
   | Inr a \<Rightarrow> statuses (rag_step6 w fb docs q) = [200] \<or>
       (statuses (rag_step6 w fb docs q) = [500] \<and> logged (rag_step6 w fb docs q))"
  by (auto simp: rag_step6_def split: sum.splits)

lemma step6_bodies:
  "Respond s b \<in> set (rag_step6 w fb docs q) \<Longrightarrow> s = 200 \<or> (s = 500 \<and> error_body b)"
  by (auto simp: rag_step6_def errorResponse_def split: sum.splits)

lemma no_responses_no_statuses: "responses evs = [] \<Longrightarrow> statuses evs = []"
  using statuses_responses [of evs] by simp

lemma rag_steps_table:
  fixes e w uri p q c
  defines "T \<equiv> fst (rag_steps e w uri p q c)"
  shows "(\<exists>s b. responses T = [Respond s b] \<and> (s = 200 \<or> (s = 500 \<and> error_body b))) \<and>
     (case rag_step2 (embedding_now w) of
        Inl err \<Rightarrow> statuses T = [200] \<and> logged T
      | Inr v \<Rightarrow>
          (case rag_chat (chat_now w) of
             Inl err \<Rightarrow> statuses T = [500] \<and> logged T
           | Inr a \<Rightarrow> statuses T = [200] \<or> (statuses T = [500] \<and> logged T))) \<and>
     ((cachedDb c = None \<and> \<not> is_Reachable (mongo_now w)) \<or> isl (stats_now w) \<or>
      (queries T \<noteq> [] \<and> isl (search_now w)) \<longrightarrow> logged T)"
proof -
  define coll where "coll = or_default (or_field (collectionName p) (MONGODB_COLLECTION e)) ''rag_collection''"
  obtain fb1 evs1 c' where s1: "rag_step1 e w uri coll c = (fb1, evs1, c')"
    by (metis prod_cases3)
  from step1_events [OF s1] have r1: "responses evs1 = []" by simp
  then have st1: "statuses evs1 = []" by (rule no_responses_no_statuses)
  note l1 = step1_logged [OF s1]
  note q1 = step1_queries [OF s1]
  show ?thesis
  proof (cases "rag_step2 (embedding_now w)")
    case (Inl err)
    from Inl rag_steps_shape [OF s1 [unfolded coll_def], of q]
    have T: "T = evs1 @ [EmbeddingRequest (or_default (modelName p) ''nomic-ai/nomic-embed-text-v1.5'') q,
                    ConsoleError (''Failed to create embedding: '' @ message err),
                    Respond 200 (AnswerJson (Some (answer (generateFallbackResponse q))) [] True
                      (Some (''Embedding failed: '' @ message err)))]"
      by (simp add: T_def)
    show ?thesis
      unfolding T using Inl r1 st1 by (simp add: responses_def)
  next
    case (Inr v)
    obtain docs fb evs3 where s3: "rag_step3 w coll v fb1 = (docs, fb, evs3)"
      by (metis prod_cases3)
    from step3_events [OF s3] have r3: "responses evs3 = []" by simp
    then have st3: "statuses evs3 = []" by (rule no_responses_no_statuses)
    from Inr rag_steps_shape [OF s1 [unfolded coll_def], of q] s3
    have T: "T = evs1 @ [EmbeddingRequest (or_default (modelName p) ''nomic-ai/nomic-embed-text-v1.5'') q]
        @ evs3 @ rag_step6 w fb docs q"
      by (simp add: T_def coll_def)
    have resp: "responses T = responses (rag_step6 w fb docs q)"
      unfolding T using r1 r3 by (simp add: responses_def)
    have "\<exists>s b. responses (rag_step6 w fb docs q) = [Respond s b] \<and>
        (s = 200 \<or> (s = 500 \<and> error_body b))"
      by (auto simp: step6_responses errorResponse_def split: sum.splits)
    with resp have one: "\<exists>s b. responses T = [Respond s b] \<and> (s = 200 \<or> (s = 500 \<and> error_body b))"
      by simp
    have st: "statuses T = statuses (rag_step6 w fb docs q)"
      unfolding T using st1 st3 by simp
    have lg: "logged (rag_step6 w fb docs q) \<Longrightarrow> logged T"
      unfolding T by simp
    from step6_table [of w fb docs q] st lg
    have two: "case rag_chat (chat_now w) of
             Inl err \<Rightarrow> statuses T = [500] \<and> logged T
           | Inr a \<Rightarrow> statuses T = [200] \<or> (statuses T = [500] \<and> logged T)"
      by (auto split: sum.splits)
    have three: "logged T"
      if "(cachedDb c = None \<and> \<not> is_Reachable (mongo_now w)) \<or> isl (stats_now w) \<or>
        (queries T \<noteq> [] \<and> isl (search_now w))"
    proof (cases fb1)
      case True
      with l1 show ?thesis unfolding T by simp
    next
      case False
      with l1 that have "queries T \<noteq> [] \<and> isl (search_now w)" by blast
      with step3_logged [OF s3 False] show ?thesis unfolding T by simp
    qed
    from one two three Inr show ?thesis by simp
  qed
qed

lemma rag_errors:
  fixes e w req c
  defines "tr \<equiv> rag_trace e w req c"
  shows
  "fst (rag_handler e w req c) = Inr () \<and>
   (\<exists>s b. responses tr = [Respond s b] \<and>
      (s = 200 \<or> s = 204 \<or> ((s = 400 \<or> s = 405 \<or> s = 500) \<and> error_body b))) \<and>
   (method req \<noteq> ''OPTIONS'' \<and> method req \<noteq> ''POST'' \<longrightarrow> statuses tr = [405]) \<and>
   (method req = ''POST'' \<and> \<not> (truthy (FIREWORKS_API_KEY e) \<and> truthy (MONGODB_URI e)) \<longrightarrow>
      statuses tr = [500] \<and> logged tr) \<and>
   (method req = ''POST'' \<and> truthy (FIREWORKS_API_KEY e) \<and> truthy (MONGODB_URI e) \<longrightarrow>
      (case body req of
         InvalidJson m \<Rightarrow> statuses tr = [400] \<and> logged tr
       | Nullish \<Rightarrow> statuses tr = [500] \<and> logged tr
       | Fields p \<Rightarrow>
           if \<not> truthy (query p) then statuses tr = [400]
           else
             (case rag_step2 (embedding_now w) of
                Inl err \<Rightarrow> statuses tr = [200] \<and> logged tr
              | Inr v \<Rightarrow>
                  (case rag_chat (chat_now w) of
                     Inl err \<Rightarrow> statuses tr = [500] \<and> logged tr
                   | Inr a \<Rightarrow> statuses tr = [200] \<or> (statuses tr = [500] \<and> logged tr))) \<and>
             ((cachedDb c = None \<and> \<not> is_Reachable (mongo_now w)) \<or> isl (stats_now w) \<or>
              (queries tr \<noteq> [] \<and> isl (search_now w)) \<longrightarrow> logged tr)))"
proof (cases "method req = ''POST'' \<and> truthy (FIREWORKS_API_KEY e) \<and> truthy (MONGODB_URI e) \<and>
      (\<exists>p. body req = Fields p \<and> truthy (query p))")
  case True
  then obtain p where p: "method req = ''POST''" "truthy (FIREWORKS_API_KEY e)"
    "truthy (MONGODB_URI e)" "body req = Fields p" "truthy (query p)"
    by auto
  from truthy_Some [OF p(5)] obtain q where q: "query p = Some q" "q \<noteq> []"
    by auto
  have eq: "tr = fst (rag_steps e w (or_default (MONGODB_URI e) []) p q c)"
    unfolding tr_def by (rule rag_trace_post [OF p(1-4) q])
  have h: "fst (rag_handler e w req c) = Inr ()"
    by (simp add: rag_handler_def split: prod.splits sum.splits)
  from rag_steps_table [of e w "or_default (MONGODB_URI e) []" p q c] p h
  show ?thesis unfolding eq by auto
next
  case False
  have h: "fst (rag_handler e w req c) = Inr ()"
    by (simp add: rag_handler_def split: prod.splits sum.splits)
  from False rag_early_table [OF False, of w c] h show ?thesis
    unfolding tr_def
    by (cases "body req") (auto simp: responses_def)
qed

lemma kag_catch_Inl:
  "statuses evs = [] \<Longrightarrow> responses evs = [] \<Longrightarrow>
     statuses (kag_catch (Inl (evs, err))) = [500] \<and> logged (kag_catch (Inl (evs, err))) \<and>
     responses (kag_catch (Inl (evs, err))) =
       [Respond 500 (ErrorMessageJson ''Internal Server Error'' (message err))]"
  by (simp add: kag_catch_def responses_def)

lemma kag_catch_Inr: "kag_catch (Inr evs) = evs"
  by (simp add: kag_catch_def)

lemma plain_table:
  "connectToDatabase_plain n m uri c = (r, evs, c') \<Longrightarrow>
     statuses evs = [] \<and> responses evs = [] \<and>
     (isl r \<longleftrightarrow> \<not> (cachedDb c \<noteq> None \<or> is_Reachable m))"
  by (cases "cachedDb c"; cases m)
    (auto simp: connectToDatabase_plain_unfold responses_def Let_def)

lemma kag_validate_not_string:
  assumes "truthy (MONGODB_URI e)" "body req = Fields p" "js_truthy (kag_query p)"
    "\<not> is_JString (kag_query p)"
  shows "kag_validate e req = Inl ([], Error ''query.substring is not a function'')"
  using assms by (cases "kag_query p") (simp_all add: kag_validate_def)

lemma kag_early_cases:
  obtains (opt) "method req = ''OPTIONS''"
    | (other) "method req \<noteq> ''OPTIONS''" "method req \<noteq> ''POST''"
    | (nouri) "method req = ''POST''" "\<not> truthy (MONGODB_URI e)"
    | (bad) m where "method req = ''POST''" "truthy (MONGODB_URI e)" "body req = InvalidJson m"
    | (null) "method req = ''POST''" "truthy (MONGODB_URI e)" "body req = Nullish"
    | (noq) p where "method req = ''POST''" "truthy (MONGODB_URI e)" "body req = Fields p"
        "\<not> js_truthy (kag_query p)"
    | (nonstr) p where "method req = ''POST''" "truthy (MONGODB_URI e)" "body req = Fields p"
        "js_truthy (kag_query p)" "\<not> is_JString (kag_query p)"
    | (run) p q where "method req = ''POST''" "truthy (MONGODB_URI e)" "body req = Fields p"
        "kag_query p = JString q" "q \<noteq> []"
proof (cases "body req")
  case (InvalidJson m)
  with opt other nouri bad show ?thesis by blast
next
  case Nullish
  with opt other nouri null show ?thesis by blast
next
  case (Fields p)
  show ?thesis
  proof (cases "kag_query p")
    case (JString q)
    with Fields opt other nouri noq [of p] run [of p q] show ?thesis
      by (cases "q = []") (auto simp: js_truthy_def)
  qed (use Fields opt other nouri noq [of p] nonstr [of p] in \<open>cases "js_truthy (kag_query p)"; auto\<close>)+
qed

lemma kag_search_run:
  fixes e w p q
  defines "T \<equiv> kag_catch
     (let uri = or_default (MONGODB_URI e) [] in
           case kag_mongo w of
             BadUri err \<Rightarrow> Inl ([NewMongoClient uri], err)
           | Unreachable err \<Rightarrow> Inl ([NewMongoClient uri, ClientConnect], err)
           | Reachable client \<Rightarrow>
               (let evs = [NewMongoClient uri, ClientConnect,
                           Find ''examples'' (text_search q (max_results p))]
                in case find_now w of
                     Inl err \<Rightarrow> Inl (evs, err)
                   | Inr examples \<Rightarrow>
                       (case close_now w of
                          Inl err \<Rightarrow> Inl (evs @ [ClientClose], err)
                        | Inr _ \<Rightarrow>
                            Inr (evs @ [ClientClose, Respond 200 (ExamplesJson examples)]))))"
  shows "(\<exists>s b. responses T = [Respond s b] \<and> (s = 200 \<or> (s = 500 \<and> error_body b))) \<and>
     (if is_Reachable (kag_mongo w) \<and> \<not> isl (find_now w) \<and> \<not> isl (close_now w)
      then statuses T = [200] else statuses T = [500] \<and> logged T)"
proof (cases "kag_mongo w")
  case (BadUri err)
  with kag_catch_Inl [of "[NewMongoClient (or_default (MONGODB_URI e) [])]" err]
  show ?thesis by (simp add: T_def responses_def)
next
  case (Unreachable err)
  with kag_catch_Inl [of "[NewMongoClient (or_default (MONGODB_URI e) []), ClientConnect]" err]
  show ?thesis by (simp add: T_def responses_def)
next
  case (Reachable client)
  define evs where "evs = [NewMongoClient (or_default (MONGODB_URI e) []), ClientConnect,
                           Find ''examples'' (text_search q (max_results p))]"
  have e0: "statuses evs = []" "responses evs = []"
    by (simp_all add: evs_def responses_def)
  then have e1: "statuses (evs @ [ClientClose]) = []" "responses (evs @ [ClientClose]) = []"
    by (simp_all add: responses_def)
  show ?thesis
  proof (cases "find_now w")
    case (Inl err)
    with Reachable have "T = kag_catch (Inl (evs, err))"
      by (simp add: T_def evs_def)
    with kag_catch_Inl [OF e0, of err] Inl show ?thesis by simp
  next
    case (Inr examples)
    show ?thesis
    proof (cases "close_now w")
      case (Inl err)
      with Reachable Inr have "T = kag_catch (Inl (evs @ [ClientClose], err))"
        by (simp add: T_def evs_def)
      with kag_catch_Inl [OF e1, of err] Inl show ?thesis by simp
    next
      case Inr2: (Inr u)
      with Reachable Inr have "T = evs @ [ClientClose, Respond 200 (ExamplesJson examples)]"
        by (simp add: T_def evs_def kag_catch_Inr)
      with e0 Reachable Inr Inr2 show ?thesis by (simp add: responses_def)
    qed
  qed
qed

lemma kag_search_errors:
  fixes e w req
  defines "tr \<equiv> kag_search_trace e w req"
  shows
  "fst (kag_search_handler e w req) = Inr () \<and>
   (\<exists>s b. responses tr = [Respond s b] \<and>
      (s = 200 \<or> s = 204 \<or> ((s = 400 \<or> s = 405 \<or> s = 500) \<and> error_body b))) \<and>
   (method req \<noteq> ''OPTIONS'' \<and> method req \<noteq> ''POST'' \<longrightarrow> statuses tr = [405]) \<and>
   (method req = ''POST'' \<and> \<not> truthy (MONGODB_URI e) \<longrightarrow> statuses tr = [500] \<and> logged tr) \<and>
   (method req = ''POST'' \<and> truthy (MONGODB_URI e) \<longrightarrow>
      (case body req of
         InvalidJson m \<Rightarrow> statuses tr = [400] \<and> logged tr
       | Nullish \<Rightarrow> statuses tr = [500] \<and> logged tr
       | Fields p \<Rightarrow>
           if \<not> js_truthy (kag_query p) then statuses tr = [400]
           else if is_JString (kag_query p) \<and> is_Reachable (kag_mongo w) \<and>
                   \<not> isl (find_now w) \<and> \<not> isl (close_now w)
           then statuses tr = [200]
           else statuses tr = [500] \<and> logged tr))"
proof -
  have h: "fst (kag_search_handler e w req) = Inr ()"
    by (simp add: kag_search_handler_def)
  show ?thesis
  proof (cases rule: kag_early_cases [where req = req and e = e])
    case opt
    with h show ?thesis
      by (simp add: tr_def kag_search_trace_def kag_search_handler_def responses_def)
  next
    case other
    with h show ?thesis
      by (simp add: tr_def kag_search_trace_def kag_search_handler_def responses_def)
  next
    case nouri
    with h show ?thesis
      by (simp add: tr_def kag_search_trace_def kag_search_handler_def kag_search_try_def
          kag_validate_def kag_catch_def responses_def)
  next
    case bad
    with h show ?thesis
      by (simp add: tr_def kag_search_trace_def kag_search_handler_def kag_search_try_def
          kag_validate_def kag_catch_def responses_def)
  next
    case null
    with h show ?thesis
      by (simp add: tr_def kag_search_trace_def kag_search_handler_def kag_search_try_def
          kag_validate_def kag_catch_def responses_def)
  next
    case noq
    with h show ?thesis
      by (simp add: tr_def kag_search_trace_def kag_search_handler_def kag_search_try_def
          kag_validate_def kag_catch_def responses_def)
  next
    case (nonstr p)
    from kag_validate_not_string [OF nonstr(2-5)] nonstr(1)
    have "tr = kag_catch (Inl ([], Error ''query.substring is not a function''))"
      by (simp add: tr_def kag_search_trace_def kag_search_handler_def kag_search_try_def)
    with kag_catch_Inl [of "[]" "Error ''query.substring is not a function''"] nonstr h
    show ?thesis
      by (simp add: responses_def)
  next
    case (run p q)
    then have "kag_validate e req = Inr (Inr (p, q))"
      by (intro kag_validate_string)
    with run have "tr = kag_catch
     (let uri = or_default (MONGODB_URI e) [] in
           case kag_mongo w of
             BadUri err \<Rightarrow> Inl ([NewMongoClient uri], err)
           | Unreachable err \<Rightarrow> Inl ([NewMongoClient uri, ClientConnect], err)
           | Reachable client \<Rightarrow>
               (let evs = [NewMongoClient uri, ClientConnect,
                           Find ''examples'' (text_search q (max_results p))]
                in case find_now w of
                     Inl err \<Rightarrow> Inl (evs, err)
                   | Inr examples \<Rightarrow>
                       (case close_now w of
                          Inl err \<Rightarrow> Inl (evs @ [ClientClose], err)
                        | Inr _ \<Rightarrow>
                            Inr (evs @ [ClientClose, Respond 200 (ExamplesJson examples)]))))"
      by (simp add: tr_def kag_search_trace_def kag_search_handler_def kag_search_try_def)
    with kag_search_run [where e = e and w = w and q = q and p = p] run h
    show ?thesis
      by (auto simp: js_truthy_def)
  qed
qed

lemma kag_try_throws:
  assumes v: "kag_validate e req = Inr (Inr (p, q))"
  shows "\<exists>evs err c'. kag_try f e w req c = (Inl (evs, err), c') \<and>
     statuses evs = [] \<and> responses evs = []"
proof -
  let ?coll = "or_default (kag_collectionName p) (or_default (MONGODB_COLLECTION e) ''examples'')"
  obtain r evs c' where con: "connectToDatabase_plain (or_default (MONGODB_DB_NAME e) ''kag-database'')
                     (kag_mongo w) (or_default (MONGODB_URI e) []) c = (r, evs, c')"
    by (metis prod_cases3)
  from plain_table [OF con] have e0: "statuses evs = []" "responses evs = []"
    by simp_all
  then have e1: "statuses (evs @ [Find ?coll (text_search q (f (max_results p)))]) = []"
    "responses (evs @ [Find ?coll (text_search q (f (max_results p)))]) = []"
    by (simp_all add: responses_def)
  show ?thesis
  proof (cases r)
    case (Inl err)
    with v con have "kag_try f e w req c = (Inl (evs, err), c')"
      by (simp add: kag_try_def Let_def)
    with e0 show ?thesis by blast
  next
    case (Inr d)
    show ?thesis
    proof (cases "find_now w")
      case (Inl err)
      with v con Inr
      have "kag_try f e w req c =
          (Inl (evs @ [Find ?coll (text_search q (f (max_results p)))], err), c')"
        by (simp add: kag_try_def Let_def)
      with e1 show ?thesis by blast
    next
      case Inr2: (Inr examples)
      with v con Inr
      have "\<exists>err. kag_try f e w req c =
          (Inl (evs @ [Find ?coll (text_search q (f (max_results p)))], err), c')"
        by (simp add: kag_try_def Let_def)
      with e1 show ?thesis by blast
    qed
  qed
qed

lemma kag_errors:
  fixes f e w req c
  defines "tr \<equiv> kag_trace f e w req c"
  shows
  "fst (kag_handler f e w req c) = Inr () \<and>
   (\<exists>s b. responses tr = [Respond s b] \<and>
      (s = 204 \<or> ((s = 400 \<or> s = 405 \<or> s = 500) \<and> error_body b))) \<and>
   (method req \<noteq> ''OPTIONS'' \<and> method req \<noteq> ''POST'' \<longrightarrow> statuses tr = [405]) \<and>
   (method req = ''POST'' \<and> \<not> truthy (MONGODB_URI e) \<longrightarrow> statuses tr = [500] \<and> logged tr) \<and>
   (method req = ''POST'' \<and> truthy (MONGODB_URI e) \<longrightarrow>
      (case body req of
         InvalidJson m \<Rightarrow> statuses tr = [400] \<and> logged tr
       | Nullish \<Rightarrow> statuses tr = [500] \<and> logged tr
       | Fields p \<Rightarrow>
           if \<not> js_truthy (kag_query p) then statuses tr = [400]
           else statuses tr = [500] \<and> logged tr))"
proof -
  have h: "fst (kag_handler f e w req c) = Inr ()"
    by (simp add: kag_handler_def split: prod.splits)
  show ?thesis
  proof (cases rule: kag_early_cases [where req = req and e = e])
    case opt
    with h show ?thesis
      by (simp add: tr_def kag_trace_def kag_handler_def responses_def)
  next
    case other
    with h show ?thesis
      by (simp add: tr_def kag_trace_def kag_handler_def responses_def)
  next
    case nouri
    with h show ?thesis
      by (simp add: tr_def kag_trace_def kag_handler_def kag_try_def
          kag_validate_def kag_catch_def responses_def)
  next
    case bad
    with h show ?thesis
      by (simp add: tr_def kag_trace_def kag_handler_def kag_try_def
          kag_validate_def kag_catch_def responses_def)
  next
    case null
    with h show ?thesis
      by (simp add: tr_def kag_trace_def kag_handler_def kag_try_def
          kag_validate_def kag_catch_def responses_def)
  next
    case noq
    with h show ?thesis
      by (simp add: tr_def kag_trace_def kag_handler_def kag_try_def
          kag_validate_def kag_catch_def responses_def)
  next
    case (nonstr p)
    from kag_validate_not_string [OF nonstr(2-5)] nonstr(1)
    have "tr = kag_catch (Inl ([], Error ''query.substring is not a function''))"
      by (simp add: tr_def kag_trace_def kag_handler_def kag_try_def)
    with kag_catch_Inl [of "[]" "Error ''query.substring is not a function''"] nonstr h
    show ?thesis
      by (simp add: responses_def)
  next
    case (run p q)
    then have "kag_validate e req = Inr (Inr (p, q))"
      by (intro kag_validate_string)
    from kag_try_throws [OF this, of f w c]
    obtain evs err c' where t: "kag_try f e w req c = (Inl (evs, err), c')"
      and e0: "statuses evs = []" "responses evs = []"
      by blast
    from t run(1) have "tr = kag_catch (Inl (evs, err))"
      by (simp add: tr_def kag_trace_def kag_handler_def)
    with kag_catch_Inl [OF e0, of err] run h
    show ?thesis
      by (simp add: js_truthy_def)
  qed
qed

lemma status_errors:
  fixes e w req c
  defines "tr \<equiv> status_trace e w req c"
  shows
  "fst (status_handler e w req c) = Inr () \<and>
   (\<exists>s b. responses tr = [Respond s b] \<and>
      (s = 200 \<or> s = 204 \<or> ((s = 405 \<or> s = 500) \<and> error_body b))) \<and>
   (method req \<noteq> ''OPTIONS'' \<and> method req \<noteq> ''GET'' \<longrightarrow> statuses tr = [405]) \<and>
   (method req = ''GET'' \<and> \<not> truthy (MONGODB_URI e) \<longrightarrow> statuses tr = [500]) \<and>
   (method req = ''GET'' \<and> truthy (MONGODB_URI e) \<longrightarrow>
      (if (cachedDb c \<noteq> None \<or> is_Reachable (status_mongo w)) \<and> \<not> isl (ping_now w)
       then statuses tr = [200]
       else statuses tr = [500] \<and> logged tr))"
  unfolding tr_def status_trace_def status_handler_def status_try_def connectToDatabase_plain_unfold
  by (cases "status_mongo w"; cases "ping_now w"; cases "cachedDb c")
    (simp_all add: responses_def Let_def)

lemma streaming_errors:
  fixes e up req
  defines "tr \<equiv> streaming_trace e up req"
  shows
  "fst (streaming_handler e up req) = Inr () \<and>
   (method req = ''OPTIONS'' \<longrightarrow> tr = [Respond 204 NoContent]) \<and>
   (method req \<noteq> ''OPTIONS'' \<and> method req \<noteq> ''POST'' \<longrightarrow>
      tr = [Respond 405 (ErrorJson ''Method not allowed'' None)]) \<and>
   (method req = ''POST'' \<longrightarrow>
      (case body req of
         InvalidJson m \<Rightarrow> tr = [ConsoleError (''Error: '' @ m), WriteError m, End]
       | _ \<Rightarrow>
           if \<not> truthy (FIREWORKS_API_KEY e) then
             tr = [Respond 500 (ErrorJson ''API key not configured on server'' None)]
           else
             statuses tr = [] \<and>
             (case up of
                UpRejected err \<Rightarrow>
                  tr = [ChatForward (body req), ConsoleError (''Error: '' @ message err),
                        WriteError (message err), End]
              | UpNotOk (Inl err) \<Rightarrow>
                  tr = [ChatForward (body req), ConsoleError (''Error: '' @ message err),
                        WriteError (message err), End]
              | UpNotOk (Inr errorText) \<Rightarrow>
                  tr = [ChatForward (body req), WriteError errorText, End]
              | UpOk stream \<Rightarrow>
                  tr = ChatForward (body req) # stream_events stream \<and>
                  (\<forall>err. ending stream = Some (Fails err) \<longrightarrow>
                     logged tr \<and> WriteError (message err) \<in> set tr \<and> last tr = End))))"
proof -
  have st: "statuses (stream_events s) = []" for s
    by (simp add: stream_events_eq statuses_def List.map_filter_def
        split: option.splits ending.splits)
  have fl: "logged (stream_events s) \<and> WriteError (message err) \<in> set (stream_events s) \<and>
      last (ChatForward b # stream_events s) = End" if "ending s = Some (Fails err)" for s err b
    using that by (simp add: stream_events_eq)
  show ?thesis
    unfolding tr_def streaming_trace_def streaming_handler_def streaming_try_def
    using st fl
    by (cases "body req"; cases up)
      (auto simp: split: sum.splits)
qed

text \<open>
  Claim C7, as the code has it. No exception leaves any of the five handlers. The RAG,
  KAG, KAG search and status handlers write exactly one response: 405 for a method
  that is not allowed, 500 for a missing configuration, 400 for a body that is not
  JSON or a missing query (the three POST endpoints), 500 for any exception that
  reaches the outer \<open>catch\<close> or the \<open>catch\<close> of the chat step (for the KAG endpoints
  also a query that is not a string); a response with one of these codes has an error
  body, and wherever an exception was caught a line was written with \<open>console.error\<close>.
  The RAG handler is the exception to the status codes: a failed embedding step is
  answered with status 200, and a failed database connection or search is logged and
  the run goes on to its usual answer. The streaming handler answers 405 and, for a
  missing API key, 500; every other error (a body that is not JSON, a rejected or
  refused upstream call, a failing stream) is written to the event stream as an error
  frame, after which the response is ended, and no status is set.
\<close>

theorem errors_become_responses:
  fixes e :: env and req :: request and kreq :: kag_request and rw :: rag_world
    and rc :: rag_cache and kw :: kag_world and c :: cache and sw :: status_world
    and up :: upstream and f :: "jsval \<Rightarrow> jsval"
  defines "rt \<equiv> rag_trace e rw req rc"
    and "kst \<equiv> kag_search_trace e kw kreq"
    and "kt \<equiv> kag_trace f e kw kreq c"
    and "st \<equiv> status_trace e sw req c"
    and "smt \<equiv> streaming_trace e up req"
  shows
  "(fst (rag_handler e rw req rc) = Inr () \<and>
   (\<exists>s b. responses rt = [Respond s b] \<and>
      (s = 200 \<or> s = 204 \<or> ((s = 400 \<or> s = 405 \<or> s = 500) \<and> error_body b))) \<and>
   (method req \<noteq> ''OPTIONS'' \<and> method req \<noteq> ''POST'' \<longrightarrow> statuses rt = [405]) \<and>
   (method req = ''POST'' \<and> \<not> (truthy (FIREWORKS_API_KEY e) \<and> truthy (MONGODB_URI e)) \<longrightarrow>
      statuses rt = [500] \<and> logged rt) \<and>
   (method req = ''POST'' \<and> truthy (FIREWORKS_API_KEY e) \<and> truthy (MONGODB_URI e) \<longrightarrow>
      (case body req of
         InvalidJson m \<Rightarrow> statuses rt = [400] \<and> logged rt
       | Nullish \<Rightarrow> statuses rt = [500] \<and> logged rt
       | Fields p \<Rightarrow>
           if \<not> truthy (query p) then statuses rt = [400]
           else
             (case rag_step2 (embedding_now rw) of
                Inl err \<Rightarrow> statuses rt = [200] \<and> logged rt
              | Inr v \<Rightarrow>
                  (case rag_chat (chat_now rw) of
                     Inl err \<Rightarrow> statuses rt = [500] \<and> logged rt
                   | Inr a \<Rightarrow> statuses rt = [200] \<or> (statuses rt = [500] \<and> logged rt))) \<and>
             ((cachedDb rc = None \<and> \<not> is_Reachable (mongo_now rw)) \<or> isl (stats_now rw) \<or>
              (queries rt \<noteq> [] \<and> isl (search_now rw)) \<longrightarrow> logged rt)))) \<and>
  (fst (kag_search_handler e kw kreq) = Inr () \<and>
   (\<exists>s b. responses kst = [Respond s b] \<and>
      (s = 200 \<or> s = 204 \<or> ((s = 400 \<or> s = 405 \<or> s = 500) \<and> error_body b))) \<and>
   (method kreq \<noteq> ''OPTIONS'' \<and> method kreq \<noteq> ''POST'' \<longrightarrow> statuses kst = [405]) \<and>
   (method kreq = ''POST'' \<and> \<not> truthy (MONGODB_URI e) \<longrightarrow> statuses kst = [500] \<and> logged kst) \<and>
   (method kreq = ''POST'' \<and> truthy (MONGODB_URI e) \<longrightarrow>
      (case body kreq of
         InvalidJson m \<Rightarrow> statuses kst = [400] \<and> logged kst
       | Nullish \<Rightarrow> statuses kst = [500] \<and> logged kst
       | Fields p \<Rightarrow>
           if \<not> js_truthy (kag_query p) then statuses kst = [400]
           else if is_JString (kag_query p) \<and> is_Reachable (kag_mongo kw) \<and>
                   \<not> isl (find_now kw) \<and> \<not> isl (close_now kw)
           then statuses kst = [200]
           else statuses kst = [500] \<and> logged kst))) \<and>
  (fst (kag_handler f e kw kreq c) = Inr () \<and>
   (\<exists>s b. responses kt = [Respond s b] \<and>
      (s = 204 \<or> ((s = 400 \<or> s = 405 \<or> s = 500) \<and> error_body b))) \<and>
   (method kreq \<noteq> ''OPTIONS'' \<and> method kreq \<noteq> ''POST'' \<longrightarrow> statuses kt = [405]) \<and>
   (method kreq = ''POST'' \<and> \<not> truthy (MONGODB_URI e) \<longrightarrow> statuses kt = [500] \<and> logged kt) \<and>
   (method kreq = ''POST'' \<and> truthy (MONGODB_URI e) \<longrightarrow>
      (case body kreq of
         InvalidJson m \<Rightarrow> statuses kt = [400] \<and> logged kt
       | Nullish \<Rightarrow> statuses kt = [500] \<and> logged kt
       | Fields p \<Rightarrow>
           if \<not> js_truthy (kag_query p) then statuses kt = [400]
           else statuses kt = [500] \<and> logged kt))) \<and>
  (fst (status_handler e sw req c) = Inr () \<and>
   (\<exists>s b. responses st = [Respond s b] \<and>
      (s = 200 \<or> s = 204 \<or> ((s = 405 \<or> s = 500) \<and> error_body b))) \<and>
   (method req \<noteq> ''OPTIONS'' \<and> method req \<noteq> ''GET'' \<longrightarrow> statuses st = [405]) \<and>
   (method req = ''GET'' \<and> \<not> truthy (MONGODB_URI e) \<longrightarrow> statuses st = [500]) \<and>
   (method req = ''GET'' \<and> truthy (MONGODB_URI e) \<longrightarrow>
      (if (cachedDb c \<noteq> None \<or> is_Reachable (status_mongo sw)) \<and> \<not> isl (ping_now sw)
       then statuses st = [200]
       else statuses st = [500] \<and> logged st))) \<and>
  (fst (streaming_handler e up req) = Inr () \<and>
   (method req = ''OPTIONS'' \<longrightarrow> smt = [Respond 204 NoContent]) \<and>
   (method req \<noteq> ''OPTIONS'' \<and> method req \<noteq> ''POST'' \<longrightarrow>
      smt = [Respond 405 (ErrorJson ''Method not allowed'' None)]) \<and>
   (method req = ''POST'' \<longrightarrow>
      (case body req of
         InvalidJson m \<Rightarrow> smt = [ConsoleError (''Error: '' @ m), WriteError m, End]
       | _ \<Rightarrow>
           if \<not> truthy (FIREWORKS_API_KEY e) then
             smt = [Respond 500 (ErrorJson ''API key not configured on server'' None)]
           else
             statuses smt = [] \<and>
             (case up of
                UpRejected err \<Rightarrow>
                  smt = [ChatForward (body req), ConsoleError (''Error: '' @ message err),
                        WriteError (message err), End]
              | UpNotOk (Inl err) \<Rightarrow>
                  smt = [ChatForward (body req), ConsoleError (''Error: '' @ message err),
                        WriteError (message err), End]
              | UpNotOk (Inr errorText) \<Rightarrow>
                  smt = [ChatForward (body req), WriteError errorText, End]
              | UpOk stream \<Rightarrow>
                  smt = ChatForward (body req) # stream_events stream \<and>
                  (\<forall>err. ending stream = Some (Fails err) \<longrightarrow>
                     logged smt \<and> WriteError (message err) \<in> set smt \<and> last smt = End)))))"
  unfolding rt_def kst_def kt_def st_def smt_def
  by (rule conjI [OF rag_errors conjI [OF kag_search_errors conjI [OF kag_errors
        conjI [OF status_errors streaming_errors]]]])

lemma bad_request_runs:
  "rag_trace sample_env sample_world bad_request empty_rag_cache =
     [ConsoleError ''Failed to parse request body: Unexpected end of JSON input'',
      Respond 400 (ErrorJson ''Invalid JSON in request body'' (Some ''Unexpected end of JSON input''))]"
  "kag_search_trace sample_env sample_kag_world bad_kag_request =
     [ConsoleError ''Failed to parse request body: Unexpected end of JSON input'',
      Respond 400 (ErrorMessageJson ''Invalid JSON in request body'' ''Unexpected end of JSON input'')]"
  "kag_trace sample_parseInt sample_env sample_kag_world bad_kag_request empty_cache =
     [ConsoleError ''Failed to parse request body: Unexpected end of JSON input'',
      Respond 400 (ErrorMessageJson ''Invalid JSON in request body'' ''Unexpected end of JSON input'')]"
  "status_trace sample_env sample_status_world bad_request empty_cache =
     [Respond 405 (ErrorJson ''Method not allowed'' None)]"
  "streaming_trace sample_env (UpOk \<lparr>chunks = [], ending = None\<rparr>) bad_request =
     [ConsoleError ''Error: Unexpected end of JSON input'',
      WriteError ''Unexpected end of JSON input'', End]"
  by (simp_all add: rag_trace_def rag_handler_def rag_try_def errorResponse_def
      kag_search_trace_def kag_search_handler_def kag_search_try_def kag_validate_def kag_catch_def
      kag_trace_def kag_handler_def kag_try_def status_trace_def status_handler_def
      streaming_trace_def streaming_handler_def streaming_try_def
      sample_env_def bad_request_def bad_kag_request_def truthy_def)

theorem errors_become_responses_witness:
  "statuses (rag_trace sample_env sample_world bad_request empty_rag_cache) = [400] \<and>
   logged (rag_trace sample_env sample_world bad_request empty_rag_cache) \<and>
   statuses (kag_search_trace sample_env sample_kag_world bad_kag_request) = [400] \<and>
   statuses (kag_trace sample_parseInt sample_env sample_kag_world bad_kag_request empty_cache) = [400] \<and>
   statuses (status_trace sample_env sample_status_world bad_request empty_cache) = [405] \<and>
   streaming_trace sample_env (UpOk \<lparr>chunks = [], ending = None\<rparr>) bad_request =
     [ConsoleError ''Error: Unexpected end of JSON input'',
      WriteError ''Unexpected end of JSON input'', End]"
  using errors_become_responses [where e = sample_env and req = bad_request
      and kreq = bad_kag_request and f = sample_parseInt
      and rw = sample_world and rc = empty_rag_cache and kw = sample_kag_world
      and c = empty_cache and sw = sample_status_world
      and up = "UpOk \<lparr>chunks = [], ending = None\<rparr>"]
  by (simp add: bad_request_runs)

lemma no_embedding_run:
  "rag_trace sample_env sample_world_no_embedding sample_request empty_rag_cache =
     [NewMongoClient ''mongodb://db.example/'', ClientConnect, CollectionStats ''rag_collection'',
      EmbeddingRequest ''nomic-ai/nomic-embed-text-v1.5'' ''What is RAG?'',
      ConsoleError ''Failed to create embedding: Embedding API error: rate limited'',
      Respond 200 (AnswerJson (Some (answer (generateFallbackResponse ''What is RAG?''))) [] True
        (Some ''Embedding failed: Embedding API error: rate limited''))]"
proof -
  have "sources (generateFallbackResponse q) = []" for q
    by (simp add: generateFallbackResponse_def)
  then show ?thesis
    by (simp add: rag_trace_def rag_handler_def rag_try_def rag_steps_def rag_step1_def rag_step2_def
      connectToDatabase_unfold
      sample_env_def sample_world_def sample_world_no_embedding_def sample_request_def
      sample_params_def empty_rag_cache_def
      truthy_def or_default_def or_field_def Let_def)
qed

theorem embedding_error_is_status_200:
  "method sample_request = ''POST'' \<and>
   rag_step2 (embedding_now sample_world_no_embedding) =
     Inl (Error ''Embedding API error: rate limited'') \<and>
   statuses (rag_trace sample_env sample_world_no_embedding sample_request empty_rag_cache) = [200] \<and>
   body bad_request = InvalidJson ''Unexpected end of JSON input'' \<and>
   statuses (streaming_trace sample_env (UpOk \<lparr>chunks = [], ending = None\<rparr>) bad_request) = []"
  by (simp add: no_embedding_run bad_request_runs)
    (simp add: sample_request_def sample_world_no_embedding_def sample_world_def rag_step2_def
      bad_request_def)


lemma number_query_runs:
  "kag_search_trace sample_env sample_kag_world number_query_request =
     [ConsoleError ''Function error: query.substring is not a function'',
      Respond 500 (ErrorMessageJson ''Internal Server Error'' ''query.substring is not a function'')]"
  "kag_trace sample_parseInt sample_env sample_kag_world number_query_request empty_cache =
     [ConsoleError ''Function error: query.substring is not a function'',
      Respond 500 (ErrorMessageJson ''Internal Server Error'' ''query.substring is not a function'')]"
  by (simp_all add: kag_search_trace_def kag_search_handler_def kag_search_try_def
      kag_validate_def kag_catch_def kag_trace_def kag_handler_def kag_try_def
      sample_env_def number_query_request_def sample_kag_params_def truthy_def js_truthy_def)
section \<open>Properties of the import scripts\<close>

lemma batches_simps [simp]:
  "batches [] = []"
  "batches (xs @ ys) = batches xs @ batches ys"
  "batches (InsertMany b # tr) = b # batches tr"
  "batches (ErrorLine m # tr) = batches tr"
  by (simp_all add: batches_def List.map_filter_def)

lemma batches_Cons:
  "batches (ev # tr) = (case batch_of ev of None \<Rightarrow> batches tr | Some b \<Rightarrow> b # batches tr)"
  by (simp add: batches_def List.map_filter_simps split: option.splits)

lemma parsed_simps [simp]:
  "parsed w [] = []"
  "parsed w (l # ls) =
     (if trim l = [] then parsed w ls
      else (case parse_line w l of Inl _ \<Rightarrow> parsed w ls | Inr v \<Rightarrow> v # parsed w ls))"
  by (simp_all add: parsed_def List.map_filter_simps split: sum.splits)

lemma parsed_append: "parsed w (xs @ ys) = parsed w xs @ parsed w ys"
  by (simp add: parsed_def List.map_filter_def)

lemma documents_Nil [simp]: "documents w [] = []"
  by (simp add: documents_def List.map_filter_simps)

lemma documents_blank: "trim l = [] \<Longrightarrow> documents w (l # ls) = documents w ls"
  by (simp add: documents_def List.map_filter_simps)

lemma documents_doc:
  "trim l \<noteq> [] \<Longrightarrow> parse_line w l = Inr (Some d) \<Longrightarrow> documents w (l # ls) = d # documents w ls"
  by (simp add: documents_def List.map_filter_simps)

lemma documents_rejected: "rejected w l \<Longrightarrow> documents w (l # ls) = documents w ls"
  by (auto simp: documents_def rejected_def List.map_filter_simps split: sum.splits)

lemma documents_append: "documents w (xs @ ys) = documents w xs @ documents w ys"
  by (simp add: documents_def List.map_filter_def)

lemma errors_Nil [simp]: "errors w [] = 0"
  by (simp add: errors_def)

lemma errors_Cons:
  "errors w (l # ls) = (if rejected w l then Suc (errors w ls) else errors w ls)"
  by (simp add: errors_def)

lemma errors_append: "errors w (xs @ ys) = errors w xs + errors w ys"
  by (simp add: errors_def)

lemma not_rejected_blank: "trim l = [] \<Longrightarrow> \<not> rejected w l"
  by (simp add: rejected_def)

lemma not_rejected_doc: "parse_line w l = Inr (Some d) \<Longrightarrow> \<not> rejected w l"
  by (simp add: rejected_def)

lemma rejected_cases:
  assumes "trim l \<noteq> []"
  obtains (doc) d where "parse_line w l = Inr (Some d)" | (rej) "rejected w l"
  using assms by (cases "parse_line w l") (auto simp: rejected_def)


lemma errors_take_le: "errors w (take k ls) \<le> errors w ls"
proof -
  have "errors w ls = errors w (take k ls) + errors w (drop k ls)"
    using errors_append [of w "take k ls" "drop k ls"] by simp
  then show ?thesis by simp
qed

text \<open>One line of the loop when no insertion fails.\<close>

lemma import_line_ok:
  assumes ok: "\<forall>n. insert_now w n = None" and small: "length (batch s) < BATCH_SIZE"
    and p: "parse_line w line = Inr (Some d)"
  shows "\<exists>s'. import_line w line s = (None, s') \<and>
     lineCount s' = lineCount s \<and> errorCount s' = errorCount s \<and>
     length (batch s') < BATCH_SIZE \<and>
     concat (batches (trace s')) @ batch s' = concat (batches (trace s)) @ batch s @ [importedAt w d] \<and>
     importedCount s' + length (batch s') = importedCount s + length (batch s) + 1 \<and>
     (\<exists>bs. batches (trace s') = batches (trace s) @ bs \<and> (\<forall>b\<in>set bs. length b = BATCH_SIZE))"
proof (cases "Suc (length (batch s)) \<ge> BATCH_SIZE")
  case True
  with small have full: "Suc (length (batch s)) = BATCH_SIZE" by simp
  with ok p True show ?thesis
    by (simp add: import_line_def Let_def)
next
  case False
  with p show ?thesis
    by (simp add: import_line_def Let_def)
qed

lemma import_line_fail:
  assumes "rejected w line"
  shows "\<exists>err. import_line w line s = (Some err, s)"
  using assms
  by (cases "parse_line w line") (auto simp: import_line_def rejected_def)

lemma import_loop_inv:
  assumes ok: "\<forall>n. insert_now w n = None"
  shows "length (batch s) < BATCH_SIZE \<Longrightarrow> errorCount s \<le> 100 \<Longrightarrow>
    \<exists>k\<le>length ls.
       lineCount (import_loop w ls s) = lineCount s + k \<and>
       errorCount (import_loop w ls s) = errorCount s + errors w (take k ls) \<and>
       length (batch (import_loop w ls s)) < BATCH_SIZE \<and>
       concat (batches (trace (import_loop w ls s))) @ batch (import_loop w ls s) =
         concat (batches (trace s)) @ batch s @ map (importedAt w) (documents w (take k ls)) \<and>
       importedCount (import_loop w ls s) + length (batch (import_loop w ls s)) =
         importedCount s + length (batch s) + length (documents w (take k ls)) \<and>
       (\<exists>bs. batches (trace (import_loop w ls s)) = batches (trace s) @ bs \<and>
          (\<forall>b\<in>set bs. length b = BATCH_SIZE)) \<and>
       ((k = length ls \<and> errorCount (import_loop w ls s) \<le> 100) \<or>
        (errorCount (import_loop w ls s) = 101 \<and> 0 < k \<and> rejected w (ls ! (k - 1)))) \<and>
       import_loop w (take k ls) s = import_loop w ls s"
proof (induction ls arbitrary: s)
  case Nil
  then show ?case by simp
next
  case (Cons line rest)
  let ?s1 = "s\<lparr>lineCount := lineCount s + 1\<rparr>"
  show ?case
  proof (cases "trim line = []")
    case True
    from Cons.prems have "length (batch ?s1) < BATCH_SIZE" "errorCount ?s1 \<le> 100" by simp_all
    from Cons.IH [OF this] obtain k where k: "k \<le> length rest"
      and r: "lineCount (import_loop w rest ?s1) = lineCount ?s1 + k"
        "errorCount (import_loop w rest ?s1) = errorCount ?s1 + errors w (take k rest)"
        "length (batch (import_loop w rest ?s1)) < BATCH_SIZE"
        "concat (batches (trace (import_loop w rest ?s1))) @ batch (import_loop w rest ?s1) =
           concat (batches (trace ?s1)) @ batch ?s1 @ map (importedAt w) (documents w (take k rest))"
        "importedCount (import_loop w rest ?s1) + length (batch (import_loop w rest ?s1)) =
           importedCount ?s1 + length (batch ?s1) + length (documents w (take k rest))"
        "\<exists>bs. batches (trace (import_loop w rest ?s1)) = batches (trace ?s1) @ bs \<and>
           (\<forall>b\<in>set bs. length b = BATCH_SIZE)"
        "(k = length rest \<and> errorCount (import_loop w rest ?s1) \<le> 100) \<or>
         (errorCount (import_loop w rest ?s1) = 101 \<and> 0 < k \<and> rejected w (rest ! (k - 1)))"
        "import_loop w (take k rest) ?s1 = import_loop w rest ?s1"
      by - (erule exE, elim conjE, rule that)
    have step: "import_loop w (line # rest) s = import_loop w rest ?s1"
      using True by (simp add: Let_def)
    have nf: "\<not> rejected w line" using True by (rule not_rejected_blank)
    have last: "rejected w ((line # rest) ! (Suc k - 1))" if "0 < k" "rejected w (rest ! (k - 1))"
      using that by (cases k) simp_all
    show ?thesis
    proof (intro exI [of _ "Suc k"] conjI)
      show "Suc k \<le> length (line # rest)" using k by simp
      show "import_loop w (take (Suc k) (line # rest)) s = import_loop w (line # rest) s"
        using r(8) True by (simp add: Let_def)
      show "(Suc k = length (line # rest) \<and> errorCount (import_loop w (line # rest) s) \<le> 100) \<or>
        (errorCount (import_loop w (line # rest) s) = 101 \<and> 0 < Suc k \<and>
         rejected w ((line # rest) ! (Suc k - 1)))"
        using r(7) last unfolding step by auto
      show "lineCount (import_loop w (line # rest) s) = lineCount s + Suc k"
        unfolding step using r(1) by simp
      show "errorCount (import_loop w (line # rest) s) =
          errorCount s + errors w (take (Suc k) (line # rest))"
        unfolding step using r(2) nf by (simp add: errors_Cons)
      show "length (batch (import_loop w (line # rest) s)) < BATCH_SIZE"
        unfolding step by (rule r(3))
      show "concat (batches (trace (import_loop w (line # rest) s))) @ batch (import_loop w (line # rest) s) =
          concat (batches (trace s)) @ batch s @ map (importedAt w) (documents w (take (Suc k) (line # rest)))"
        unfolding step using r(4) by (simp add: documents_blank [OF True])
      show "importedCount (import_loop w (line # rest) s) + length (batch (import_loop w (line # rest) s)) =
          importedCount s + length (batch s) + length (documents w (take (Suc k) (line # rest)))"
        unfolding step using r(5) by (simp add: documents_blank [OF True])
      show "\<exists>bs. batches (trace (import_loop w (line # rest) s)) = batches (trace s) @ bs \<and>
          (\<forall>b\<in>set bs. length b = BATCH_SIZE)"
        unfolding step using r(6) by simp
    qed
  next
    case False
    from rejected_cases [OF False]
    consider (doc) d where "parse_line w line = Inr (Some d)" | (rej) "rejected w line"
      by blast
    then show ?thesis
    proof cases
      case (doc d)
      from Cons.prems have "length (batch ?s1) < BATCH_SIZE" by simp
      from import_line_ok [OF ok this doc] obtain s2 where s2: "import_line w line ?s1 = (None, s2)"
        and l2: "lineCount s2 = lineCount ?s1" "errorCount s2 = errorCount ?s1"
          "length (batch s2) < BATCH_SIZE"
          "concat (batches (trace s2)) @ batch s2 =
             concat (batches (trace ?s1)) @ batch ?s1 @ [importedAt w d]"
          "importedCount s2 + length (batch s2) = importedCount ?s1 + length (batch ?s1) + 1"
        and b2: "\<exists>bs. batches (trace s2) = batches (trace ?s1) @ bs \<and> (\<forall>b\<in>set bs. length b = BATCH_SIZE)"
        by blast
      from l2(2,3) Cons.prems(2) have "length (batch s2) < BATCH_SIZE" "errorCount s2 \<le> 100" by simp_all
      from Cons.IH [OF this] obtain k where k: "k \<le> length rest"
        and r: "lineCount (import_loop w rest s2) = lineCount s2 + k"
          "errorCount (import_loop w rest s2) = errorCount s2 + errors w (take k rest)"
          "length (batch (import_loop w rest s2)) < BATCH_SIZE"
          "concat (batches (trace (import_loop w rest s2))) @ batch (import_loop w rest s2) =
             concat (batches (trace s2)) @ batch s2 @ map (importedAt w) (documents w (take k rest))"
          "importedCount (import_loop w rest s2) + length (batch (import_loop w rest s2)) =
             importedCount s2 + length (batch s2) + length (documents w (take k rest))"
          "\<exists>bs. batches (trace (import_loop w rest s2)) = batches (trace s2) @ bs \<and>
             (\<forall>b\<in>set bs. length b = BATCH_SIZE)"
          "(k = length rest \<and> errorCount (import_loop w rest s2) \<le> 100) \<or>
           (errorCount (import_loop w rest s2) = 101 \<and> 0 < k \<and> rejected w (rest ! (k - 1)))"
          "import_loop w (take k rest) s2 = import_loop w rest s2"
        by - (erule exE, elim conjE, rule that)
      have step: "import_loop w (line # rest) s = import_loop w rest s2"
        using False s2 by (simp add: Let_def)
      have nf: "\<not> rejected w line" by (rule not_rejected_doc [OF doc])
      have last: "rejected w ((line # rest) ! (Suc k - 1))" if "0 < k" "rejected w (rest ! (k - 1))"
        using that by (cases k) simp_all
      from b2 obtain bs1 where bs1: "batches (trace s2) = batches (trace s) @ bs1"
        "\<forall>b\<in>set bs1. length b = BATCH_SIZE"
        by auto
      from r(6) obtain bs2 where bs2: "batches (trace (import_loop w rest s2)) = batches (trace s2) @ bs2"
        "\<forall>b\<in>set bs2. length b = BATCH_SIZE"
        by auto
      from bs1 bs2 have bs: "batches (trace (import_loop w rest s2)) = batches (trace s) @ (bs1 @ bs2)"
        "\<forall>b\<in>set (bs1 @ bs2). length b = BATCH_SIZE"
        by auto
      show ?thesis
      proof (intro exI [of _ "Suc k"] conjI)
        show "Suc k \<le> length (line # rest)" using k by simp
        show "import_loop w (take (Suc k) (line # rest)) s = import_loop w (line # rest) s"
          using r(8) False s2 by (simp add: Let_def)
        show "(Suc k = length (line # rest) \<and> errorCount (import_loop w (line # rest) s) \<le> 100) \<or>
          (errorCount (import_loop w (line # rest) s) = 101 \<and> 0 < Suc k \<and>
           rejected w ((line # rest) ! (Suc k - 1)))"
          using r(7) last unfolding step by auto
        show "\<exists>bs. batches (trace (import_loop w (line # rest) s)) = batches (trace s) @ bs \<and>
            (\<forall>b\<in>set bs. length b = BATCH_SIZE)"
          unfolding step using bs by blast
        have "concat (batches (trace (import_loop w rest s2))) @ batch (import_loop w rest s2) =
            (concat (batches (trace s2)) @ batch s2) @ map (importedAt w) (documents w (take k rest))"
          using r(4) by simp
        also have "concat (batches (trace s2)) @ batch s2 =
            concat (batches (trace s)) @ batch s @ [importedAt w d]"
          using l2(4) by simp
        finally show "concat (batches (trace (import_loop w (line # rest) s))) @ batch (import_loop w (line # rest) s) =
            concat (batches (trace s)) @ batch s @ map (importedAt w) (documents w (take (Suc k) (line # rest)))"
          unfolding step by (simp add: documents_doc [OF False doc])
        show "lineCount (import_loop w (line # rest) s) = lineCount s + Suc k"
          unfolding step using r(1) l2(1) by simp
        show "errorCount (import_loop w (line # rest) s) =
            errorCount s + errors w (take (Suc k) (line # rest))"
          unfolding step using r(2) l2(2) nf by (simp add: errors_Cons)
        show "length (batch (import_loop w (line # rest) s)) < BATCH_SIZE"
          unfolding step by (rule r(3))
        have "length (documents w (take (Suc k) (line # rest))) = Suc (length (documents w (take k rest)))"
          by (simp add: documents_doc [OF False doc])
        then show "importedCount (import_loop w (line # rest) s) + length (batch (import_loop w (line # rest) s)) =
            importedCount s + length (batch s) + length (documents w (take (Suc k) (line # rest)))"
          unfolding step using r(5) l2(5) by simp
      qed
    next
      case rej
      from import_line_fail [OF rej, of ?s1] obtain err
        where s2: "import_line w line ?s1 = (Some err, ?s1)" ..
      let ?s3 = "?s1\<lparr>errorCount := errorCount ?s1 + 1,
                     trace := trace ?s1 @
                       [ErrorLine (''Error on line '' @ string_of_nat (lineCount ?s1) @ '': ''
                          @ message err)]\<rparr>"
      note f = rej
      show ?thesis
      proof (cases "errorCount ?s3 > 100")
        case True
        with Cons.prems have ec: "errorCount s = 100" by simp
        have step: "import_loop w (line # rest) s =
            ?s3\<lparr>trace := trace ?s3 @ [ErrorLine ''Too many errors, aborting import'']\<rparr>"
          using False s2 True by (simp add: Let_def)
        have step': "import_loop w [line] s = import_loop w (line # rest) s"
          using False s2 True by (simp add: Let_def)
        show ?thesis
        proof (intro exI [of _ "Suc 0"] conjI)
          show "import_loop w (take (Suc 0) (line # rest)) s = import_loop w (line # rest) s"
            using step' by simp
          show "Suc 0 \<le> length (line # rest)" by simp
          show "lineCount (import_loop w (line # rest) s) = lineCount s + Suc 0"
            unfolding step by simp
          show "errorCount (import_loop w (line # rest) s) =
              errorCount s + errors w (take (Suc 0) (line # rest))"
            unfolding step using f by (simp add: errors_Cons)
          show "length (batch (import_loop w (line # rest) s)) < BATCH_SIZE"
            unfolding step using Cons.prems(1) by simp
          show "concat (batches (trace (import_loop w (line # rest) s))) @ batch (import_loop w (line # rest) s) =
              concat (batches (trace s)) @ batch s @ map (importedAt w) (documents w (take (Suc 0) (line # rest)))"
            unfolding step by (simp add: documents_rejected [OF rej])
          show "importedCount (import_loop w (line # rest) s) + length (batch (import_loop w (line # rest) s)) =
              importedCount s + length (batch s) + length (documents w (take (Suc 0) (line # rest)))"
            unfolding step by (simp add: documents_rejected [OF rej])
          show "\<exists>bs. batches (trace (import_loop w (line # rest) s)) = batches (trace s) @ bs \<and>
              (\<forall>b\<in>set bs. length b = BATCH_SIZE)"
            unfolding step by simp
          show "(Suc 0 = length (line # rest) \<and> errorCount (import_loop w (line # rest) s) \<le> 100) \<or>
              (errorCount (import_loop w (line # rest) s) = 101 \<and> 0 < Suc 0 \<and>
               rejected w ((line # rest) ! (Suc 0 - 1)))"
            unfolding step using f ec by (simp add: errors_Cons)
        qed
      next
        case small: False
        with Cons.prems have "length (batch ?s3) < BATCH_SIZE" "errorCount ?s3 \<le> 100" by simp_all
        from Cons.IH [OF this] obtain k where k: "k \<le> length rest"
          and r: "lineCount (import_loop w rest ?s3) = lineCount ?s3 + k"
            "errorCount (import_loop w rest ?s3) = errorCount ?s3 + errors w (take k rest)"
            "length (batch (import_loop w rest ?s3)) < BATCH_SIZE"
            "concat (batches (trace (import_loop w rest ?s3))) @ batch (import_loop w rest ?s3) =
               concat (batches (trace ?s3)) @ batch ?s3 @ map (importedAt w) (documents w (take k rest))"
            "importedCount (import_loop w rest ?s3) + length (batch (import_loop w rest ?s3)) =
               importedCount ?s3 + length (batch ?s3) + length (documents w (take k rest))"
            "\<exists>bs. batches (trace (import_loop w rest ?s3)) = batches (trace ?s3) @ bs \<and>
               (\<forall>b\<in>set bs. length b = BATCH_SIZE)"
            "(k = length rest \<and> errorCount (import_loop w rest ?s3) \<le> 100) \<or>
             (errorCount (import_loop w rest ?s3) = 101 \<and> 0 < k \<and> rejected w (rest ! (k - 1)))"
            "import_loop w (take k rest) ?s3 = import_loop w rest ?s3"
          by - (erule exE, elim conjE, rule that)
        have step: "import_loop w (line # rest) s = import_loop w rest ?s3"
          using False s2 small by (simp add: Let_def)
        have last: "rejected w ((line # rest) ! (Suc k - 1))" if "0 < k" "rejected w (rest ! (k - 1))"
          using that by (cases k) simp_all
        show ?thesis
        proof (intro exI [of _ "Suc k"] conjI)
          show "Suc k \<le> length (line # rest)" using k by simp
          show "import_loop w (take (Suc k) (line # rest)) s = import_loop w (line # rest) s"
            using r(8) False s2 small by (simp add: Let_def)
          show "(Suc k = length (line # rest) \<and> errorCount (import_loop w (line # rest) s) \<le> 100) \<or>
            (errorCount (import_loop w (line # rest) s) = 101 \<and> 0 < Suc k \<and>
             rejected w ((line # rest) ! (Suc k - 1)))"
            using r(7) last unfolding step by auto
          show "lineCount (import_loop w (line # rest) s) = lineCount s + Suc k"
            unfolding step using r(1) by simp
          show "errorCount (import_loop w (line # rest) s) =
              errorCount s + errors w (take (Suc k) (line # rest))"
            unfolding step using r(2) f by (simp add: errors_Cons)
          show "length (batch (import_loop w (line # rest) s)) < BATCH_SIZE"
            unfolding step by (rule r(3))
          show "concat (batches (trace (import_loop w (line # rest) s))) @ batch (import_loop w (line # rest) s) =
              concat (batches (trace s)) @ batch s @ map (importedAt w) (documents w (take (Suc k) (line # rest)))"
            unfolding step using r(4) by (simp add: documents_rejected [OF rej])
          show "importedCount (import_loop w (line # rest) s) + length (batch (import_loop w (line # rest) s)) =
              importedCount s + length (batch s) + length (documents w (take (Suc k) (line # rest)))"
            unfolding step using r(5) by (simp add: documents_rejected [OF rej])
          show "\<exists>bs. batches (trace (import_loop w (line # rest) s)) = batches (trace s) @ bs \<and>
              (\<forall>b\<in>set bs. length b = BATCH_SIZE)"
            unfolding step using r(6) by simp
        qed
      qed
    qed
  qed
qed



lemma batches_finally [simp]: "batches (import_finally w) = []"
  by (simp add: import_finally_def batches_Cons split: option.splits)

lemma import_finish_ok:
  assumes ok: "\<forall>n. insert_now w n = None"
  shows "batches (import_finish w s) = (if batch s = [] then [] else [batch s]) \<and>
     Completed (lineCount s) (importedCount s + length (batch s)) (errorCount s)
       \<in> set (import_finish w s)"
  using ok
  by (cases "indexes_now w") (simp_all add: import_finish_def Let_def batches_Cons)

lemma importData_ok:
  assumes "client_now w = None" "connect_now w = None" "index_now w = None" "count_now w = Inr cnt"
    "cnt = 0 \<or> confirmed (reply_now w)"
  shows "importData w lines =
     ([MongoConnect, CountDocuments] @ (if cnt > 0 then [PromptUser] else [])) @
     CreateIndex search_index #
     (trace (import_loop w lines
        \<lparr>lineCount = 0, importedCount = 0, errorCount = 0, batch = [], inserts = 0, trace = []\<rparr>)
      @ import_finish w (import_loop w lines
        \<lparr>lineCount = 0, importedCount = 0, errorCount = 0, batch = [], inserts = 0, trace = []\<rparr>)
      @ import_finally w)"
  using assms by (auto simp: importData_def Let_def)

lemma importData_run:
  assumes ok: "\<forall>n. insert_now w n = None"
    and init_ok: "client_now w = None" "connect_now w = None" "index_now w = None"
      "count_now w = Inr cnt"
      "cnt = 0 \<or> confirmed (reply_now w)"
  shows "\<exists>k\<le>length lines.
      importData w (take k lines) = importData w lines \<and>
      (\<exists>pre post. importData w lines = pre @ CreateIndex search_index # post \<and> batches pre = []) \<and>
      (\<forall>b\<in>set (butlast (batches (importData w lines))). length b = BATCH_SIZE) \<and>
      (\<forall>b\<in>set (batches (importData w lines)). 0 < length b \<and> length b \<le> BATCH_SIZE) \<and>
      concat (batches (importData w lines)) = map (importedAt w) (documents w (take k lines)) \<and>
      Completed k (length (documents w (take k lines))) (errors w (take k lines))
        \<in> set (importData w lines) \<and>
      ((k = length lines \<and> errors w (take k lines) \<le> 100) \<or>
       (errors w (take k lines) = 101 \<and> 0 < k \<and> rejected w (lines ! (k - 1))))"
proof -
  define s0 :: "'a loop_state"
    where "s0 = \<lparr>lineCount = 0, importedCount = 0, errorCount = 0, batch = [], inserts = 0, trace = []\<rparr>"
  let ?S = "import_loop w lines s0"
  have init: "length (batch s0) < BATCH_SIZE" "errorCount s0 \<le> 100"
    by (simp_all add: s0_def BATCH_SIZE_def)
  from import_loop_inv [OF ok init, of lines]
  obtain k where k: "k \<le> length lines"
    and r: "lineCount ?S = lineCount s0 + k"
      "errorCount ?S = errorCount s0 + errors w (take k lines)"
      "length (batch ?S) < BATCH_SIZE"
      "concat (batches (trace ?S)) @ batch ?S =
         concat (batches (trace s0)) @ batch s0 @ map (importedAt w) (documents w (take k lines))"
      "importedCount ?S + length (batch ?S) =
         importedCount s0 + length (batch s0) + length (documents w (take k lines))"
      "\<exists>bs. batches (trace ?S) = batches (trace s0) @ bs \<and> (\<forall>b\<in>set bs. length b = BATCH_SIZE)"
      "(k = length lines \<and> errorCount ?S \<le> 100) \<or>
       (errorCount ?S = 101 \<and> 0 < k \<and> rejected w (lines ! (k - 1)))"
      "import_loop w (take k lines) s0 = ?S"
    by - (erule exE, elim conjE, rule that)
  from r(6) obtain bs where bs: "batches (trace ?S) = bs" "\<forall>b\<in>set bs. length b = BATCH_SIZE"
    by (auto simp: s0_def)
  have lc: "lineCount ?S = k" and ec: "errorCount ?S = errors w (take k lines)"
    using r(1,2) by (simp_all add: s0_def)
  have ic: "importedCount ?S + length (batch ?S) = length (documents w (take k lines))"
    using r(5) by (simp add: s0_def)
  have cc: "concat bs @ batch ?S = map (importedAt w) (documents w (take k lines))"
    using r(4) bs(1) by (simp add: s0_def)
  note fin = import_finish_ok [OF ok, of ?S]
  have tr: "importData w lines =
     ([MongoConnect, CountDocuments] @ (if cnt > 0 then [PromptUser] else [])) @
     CreateIndex search_index # (trace ?S @ import_finish w ?S @ import_finally w)"
    unfolding s0_def by (rule importData_ok [OF init_ok])
  have tr': "importData w (take k lines) =
     ([MongoConnect, CountDocuments] @ (if cnt > 0 then [PromptUser] else [])) @
     CreateIndex search_index # (trace ?S @ import_finish w ?S @ import_finally w)"
    using importData_ok [OF init_ok, of "take k lines"] r(8) by (simp add: s0_def)
  have bt: "batches (importData w lines) = bs @ (if batch ?S = [] then [] else [batch ?S])"
    unfolding tr using bs(1) fin by (simp add: batches_Cons)
  have pos: "0 < BATCH_SIZE" by (simp add: BATCH_SIZE_def)
  show ?thesis
  proof (intro exI [of _ k] conjI)
    show "k \<le> length lines" by (rule k)
    show "importData w (take k lines) = importData w lines"
      using tr tr' by simp
    show "\<exists>pre post. importData w lines = pre @ CreateIndex search_index # post \<and> batches pre = []"
    proof (intro exI conjI)
      show "importData w lines =
         ([MongoConnect, CountDocuments] @ (if cnt > 0 then [PromptUser] else [])) @
         CreateIndex search_index # (trace ?S @ import_finish w ?S @ import_finally w)"
        by (rule tr)
      show "batches ([MongoConnect, CountDocuments] @ (if cnt > 0 then [PromptUser] else [])) = []"
        by (simp add: batches_Cons)
    qed
    show "\<forall>b\<in>set (butlast (batches (importData w lines))). length b = BATCH_SIZE"
      unfolding bt using bs(2) by (auto simp: butlast_append dest: in_set_butlastD)
    show "\<forall>b\<in>set (batches (importData w lines)). 0 < length b \<and> length b \<le> BATCH_SIZE"
      unfolding bt using bs(2) r(3) pos by auto
    show "concat (batches (importData w lines)) = map (importedAt w) (documents w (take k lines))"
      unfolding bt using cc by (cases "batch ?S = []") simp_all
    show "Completed k (length (documents w (take k lines))) (errors w (take k lines))
        \<in> set (importData w lines)"
      unfolding tr using fin lc ec ic by simp
    show "(k = length lines \<and> errors w (take k lines) \<le> 100) \<or>
       (errors w (take k lines) = 101 \<and> 0 < k \<and> rejected w (lines ! (k - 1)))"
      using r(7) ec by simp
  qed
qed


lemma errors_replicate: "rejected w l \<Longrightarrow> errors w (replicate n l) = n"
  by (simp add: errors_def)

lemma documents_replicate: "rejected w l \<Longrightarrow> documents w (replicate n l) = []"
  by (induction n) (simp_all add: documents_rejected)

lemma parsed_replicate: "unparsable w l \<Longrightarrow> parsed w (replicate n l) = []"
  by (induction n) (auto simp: unparsable_def split: sum.splits)

lemma errors_grow:
  assumes "k < m" "m \<le> length ls" "rejected w (ls ! (m - 1))"
  shows "errors w (take k ls) < errors w (take m ls)"
proof -
  from assms have m: "m - 1 < length ls" "Suc (m - 1) = m" "k \<le> m - 1"
    by simp_all
  from take_Suc_conv_app_nth [OF m(1)] m(2)
  have "take m ls = take (m - 1) ls @ [ls ! (m - 1)]"
    by simp
  with assms(3) have "errors w (take m ls) = Suc (errors w (take (m - 1) ls))"
    by (simp add: errors_append errors_Cons)
  moreover from m(3) have "take k ls = take k (take (m - 1) ls)"
    by (simp add: min_def)
  then have "errors w (take k ls) \<le> errors w (take (m - 1) ls)"
    using errors_take_le [of w k "take (m - 1) ls"] by simp
  ultimately show ?thesis by simp
qed

lemma abort_point_unique:
  assumes "errors w (take k ls) = c" "k \<le> length ls" "rejected w (ls ! (k - 1))"
    and "errors w (take m ls) = c" "m \<le> length ls" "rejected w (ls ! (m - 1))"
  shows "k = m"
proof (rule ccontr)
  assume "k \<noteq> m"
  then consider "k < m" | "m < k" by linarith
  then show False
  proof cases
    case 1
    from errors_grow [OF 1 assms(5,6)] assms(1,4) show False by simp
  next
    case 2
    from errors_grow [OF 2 assms(2,3)] assms(1,4) show False by simp
  qed
qed

lemma importData_abort:
  assumes ok: "\<forall>n. insert_now w n = None"
    and init_ok: "client_now w = None" "connect_now w = None" "index_now w = None"
      "count_now w = Inr cnt" "cnt = 0 \<or> confirmed (reply_now w)"
    and n: "errors w (take n lines) = 101" "n \<le> length lines" "rejected w (lines ! (n - 1))"
  shows "importData w (take n lines) = importData w lines \<and>
     concat (batches (importData w lines)) = map (importedAt w) (documents w (take n lines)) \<and>
     Completed n (length (documents w (take n lines))) 101 \<in> set (importData w lines)"
proof -
  from importData_run [OF ok init_ok, of lines]
  obtain k where k: "k \<le> length lines"
    and r: "importData w (take k lines) = importData w lines"
      "concat (batches (importData w lines)) = map (importedAt w) (documents w (take k lines))"
      "Completed k (length (documents w (take k lines))) (errors w (take k lines))
         \<in> set (importData w lines)"
      "(k = length lines \<and> errors w (take k lines) \<le> 100) \<or>
       (errors w (take k lines) = 101 \<and> 0 < k \<and> rejected w (lines ! (k - 1)))"
    by - (erule exE, elim conjE, rule that)
  from n(1) errors_take_le [of w n lines] have "100 < errors w lines" by simp
  then have "\<not> (k = length lines \<and> errors w (take k lines) \<le> 100)" by auto
  with r(4) have s: "errors w (take k lines) = 101" "rejected w (lines ! (k - 1))"
    by blast+
  from abort_point_unique [OF s(1) k s(2) n] have "k = n" .
  with r(1,2,3) s(1) show ?thesis by simp
qed



subsection \<open>Sample runs\<close>

lemma sample_import_lines:
  "rejected sample_import_world ''not json''"
  "unparsable sample_import_world ''not json''"
  "rejected sample_import_world ''null''"
  "\<not> unparsable sample_import_world ''null''"
  "\<not> rejected sample_import_world ''{}''"
  "\<not> unparsable sample_import_world ''{}''"
  "\<not> rejected sample_import_world '' ''"
  "trim ''{}'' \<noteq> []" "trim ''null'' \<noteq> []" "trim '' '' = []"
  "parse_line sample_import_world ''{}'' = Inr (Some 0)"
  "parse_line sample_import_world ''null'' = Inr None"
  "parse_line sample_import_world ''not json'' = Inl (Error ''Unexpected token'')"
  "trim ''not json'' \<noteq> []"
  by (simp_all add: sample_import_world_def rejected_def unparsable_def trim_def is_space_def)

lemma sample_import_ok:
  "\<forall>n. insert_now sample_import_world n = None" "client_now sample_import_world = None"
  "connect_now sample_import_world = None" "index_now sample_import_world = None"
  "count_now sample_import_world = Inr 0"
  by (simp_all add: sample_import_world_def)


lemma broken_lines_facts:
  "take 102 broken_lines = ''{}'' # replicate 101 ''not json''"
  "broken_lines ! (102 - 1) = ''not json''"
  "102 \<le> length broken_lines"
  "errors sample_import_world (take 102 broken_lines) = 101"
  "documents sample_import_world (take 102 broken_lines) = [0]"
  "parsed sample_import_world broken_lines = [Some 0, Some 0]"
  "documents sample_import_world broken_lines = [0, 0]"
  by (simp_all add: broken_lines_def errors_Cons errors_replicate documents_doc
      documents_replicate documents_append parsed_append parsed_replicate nth_append nth_Cons'
      sample_import_lines)

lemma null_lines_facts:
  "take 101 null_lines = replicate 101 ''null''"
  "null_lines ! (101 - 1) = ''null''"
  "101 \<le> length null_lines"
  "errors sample_import_world (take 101 null_lines) = 101"
  "documents sample_import_world (take 101 null_lines) = []"
  "failures sample_import_world null_lines = 0"
  "documents sample_import_world null_lines = [0]"
  by (simp_all add: null_lines_def errors_replicate documents_doc documents_replicate
      documents_append failures_def nth_append sample_import_lines)

lemma sample_import_runs:
  "concat (batches (importData sample_import_world broken_lines)) = [1]"
  "Completed 102 1 101 \<in> set (importData sample_import_world broken_lines)"
  "concat (batches (importData sample_import_world null_lines)) = []"
  "Completed 101 0 101 \<in> set (importData sample_import_world null_lines)"
proof -
  have y: "(0::nat) = 0 \<or> confirmed (reply_now sample_import_world)" by simp
  have st: "map (importedAt sample_import_world) [0] = [1]"
    by (simp add: sample_import_world_def)
  have len: "length [0::nat] = 1" "length ([]::nat list) = 0"
    by simp_all
  have "rejected sample_import_world (broken_lines ! (102 - 1))"
    by (simp only: broken_lines_facts(2) sample_import_lines(1))
  note b = importData_abort [OF sample_import_ok y broken_lines_facts(4,3) this]
  from b [THEN conjunct2, THEN conjunct1]
  show "concat (batches (importData sample_import_world broken_lines)) = [1]"
    by (simp only: broken_lines_facts(5) st)
  from b [THEN conjunct2, THEN conjunct2]
  show "Completed 102 1 101 \<in> set (importData sample_import_world broken_lines)"
    by (simp only: broken_lines_facts(5) len)
  have "rejected sample_import_world (null_lines ! (101 - 1))"
    by (simp only: null_lines_facts(2) sample_import_lines(3))
  note n = importData_abort [OF sample_import_ok y null_lines_facts(4,3) this]
  from n [THEN conjunct2, THEN conjunct1]
  show "concat (batches (importData sample_import_world null_lines)) = []"
    by (simp only: null_lines_facts(5) list.map)
  from n [THEN conjunct2, THEN conjunct2]
  show "Completed 101 0 101 \<in> set (importData sample_import_world null_lines)"
    by (simp only: null_lines_facts(5) len)
qed






lemma null_lines_run:
  "failures sample_import_world null_lines = 0 \<and>
   documents sample_import_world null_lines = [0] \<and>
   concat (batches (importData sample_import_world null_lines)) = [] \<and>
   Completed 101 0 101 \<in> set (importData sample_import_world null_lines)"
  by (simp only: null_lines_facts(6,7) sample_import_runs simp_thms)



end
